(* ===== verification/LK_Prelude.thy ===== *)
theory LK_Prelude
  imports
    Main
    "HOL-Library.AList"
    "HOL-Library.Word"
    "HOL-Library.Signed_Division"
begin

text \<open>
  The vocabulary shared by all components: strings are the UTF-8 bytes of the
  Rust strings, hash maps and B-tree maps are association lists with distinct
  keys (iteration order is the order of the list), fallible operations return
  a sum type with the error on the left, and the clock is an argument.  The
  locale \<open>keyed_store\<close> is the contract every keyed container of the program
  offers to its clients; it is interpreted once here for association lists and
  again in the theories of the components that build their own containers.
\<close>

section \<open>Type names\<close>

type_synonym ('k, 'v) assoc = "('k \<times> 'v) list"
type_synonym ('e, 'a) result = "'e + 'a"
type_synonym attrs = "(string, string) assoc"

named_theorems keyed_simps "rewrite rules for keyed containers"
named_theorems immut_simps "fields an operation leaves alone"

section \<open>Definitions on strings and association lists\<close>

definition put :: "'k \<Rightarrow> 'v \<Rightarrow> ('k, 'v) assoc \<Rightarrow> ('k, 'v) assoc" where
  "put k v m = AList.update k v m"

definition del :: "'k \<Rightarrow> ('k, 'v) assoc \<Rightarrow> ('k, 'v) assoc" where
  "del k m = AList.delete k m"

definition look :: "('k, 'v) assoc \<Rightarrow> 'k \<Rightarrow> 'v option" where
  "look m k = map_of m k"

definition keys_distinct :: "('k, 'v) assoc \<Rightarrow> bool" where
  "keys_distinct m = distinct (map fst m)"

definition adjust :: "'k \<Rightarrow> ('v \<Rightarrow> 'v) \<Rightarrow> ('k, 'v) assoc \<Rightarrow> ('k, 'v) assoc" where
  "adjust k f m = map (\<lambda>(k', v). (k', if k' = k then f v else v)) m"

definition is_lower :: "char \<Rightarrow> bool" where
  "is_lower c \<longleftrightarrow> (97 :: nat) \<le> of_char c \<and> of_char c \<le> (122 :: nat)"

definition char_upper :: "char \<Rightarrow> char" where
  "char_upper c = (if is_lower c then char_of (of_char c - 32 :: nat) else c)"

text \<open>
  \<open>str::to_uppercase\<close>, for comparison with upper-case ASCII words: the ASCII
  letters, and the two characters outside ASCII whose upper case is a single
  ASCII letter (U+0131 gives \<open>I\<close>, U+017F gives \<open>S\<close>).  All other bytes are
  kept; none of them becomes a letter of the words the program compares with.
\<close>

fun to_uppercase :: "string \<Rightarrow> string" where
  "to_uppercase (a # b # s) =
     (if of_char a = (196 :: nat) \<and> of_char b = (177 :: nat) then CHR ''I'' # to_uppercase s
      else if of_char a = (197 :: nat) \<and> of_char b = (191 :: nat) then CHR ''S'' # to_uppercase s
      else char_upper a # to_uppercase (b # s))"
| "to_uppercase [a] = [char_upper a]"
| "to_uppercase [] = []"

text \<open>The question mark operator and \<open>Option::ok_or\<close>.\<close>

fun ebind :: "('e, 'a) result \<Rightarrow> ('a \<Rightarrow> ('e, 'b) result) \<Rightarrow> ('e, 'b) result" where
  "ebind (Inl e) f = Inl e"
| "ebind (Inr a) f = f a"

fun ok_or :: "'e \<Rightarrow> 'a option \<Rightarrow> ('e, 'a) result" where
  "ok_or e None = Inl e"
| "ok_or e (Some a) = Inr a"

section \<open>Keyed containers\<close>

locale keyed_store =
  fixes store_empty :: "'m"
    and store_get :: "'m \<Rightarrow> 'k \<Rightarrow> 'v option"
    and store_put :: "'k \<Rightarrow> 'v \<Rightarrow> 'm \<Rightarrow> 'm"
    and store_del :: "'k \<Rightarrow> 'm \<Rightarrow> 'm"
    and store_inv :: "'m \<Rightarrow> bool"
  assumes get_empty: "store_get store_empty k = None"
    and get_put: "store_inv m \<Longrightarrow> store_get (store_put k v m) k' = (if k' = k then Some v else store_get m k')"
    and get_del: "store_inv m \<Longrightarrow> store_get (store_del k m) k' = (if k' = k then None else store_get m k')"
    and inv_empty: "store_inv store_empty"
    and inv_put: "store_inv m \<Longrightarrow> store_inv (store_put k v m)"
    and inv_del: "store_inv m \<Longrightarrow> store_inv (store_del k m)"
begin

lemmas store_laws = get_empty get_put get_del inv_empty inv_put inv_del

lemma get_put_same: "store_inv m \<Longrightarrow> store_get (store_put k v m) k = Some v"
  by (simp add: get_put)

lemma put_put_get: "store_inv m \<Longrightarrow>
    store_get (store_put k v' (store_put k v m)) k' = store_get (store_put k v' m) k'"
  by (simp add: get_put inv_put)

lemma put_comm_get: "store_inv m \<Longrightarrow> k \<noteq> l \<Longrightarrow>
    store_get (store_put k v (store_put l w m)) k' = store_get (store_put l w (store_put k v m)) k'"
  by (simp add: get_put inv_put)

lemma inv_fold_put: "store_inv m \<Longrightarrow> store_inv (fold (\<lambda>(k, v). store_put k v) kvs m)"
  by (induction kvs arbitrary: m) (auto simp: inv_put)

lemma get_fold_put:
  "store_inv m \<Longrightarrow>
   store_get (fold (\<lambda>(k, v). store_put k v) kvs m) k
     = (case map_of (rev kvs) k of Some v \<Rightarrow> Some v | None \<Rightarrow> store_get m k)"
proof (induction kvs arbitrary: m)
  case Nil
  then show ?case by simp
next
  case (Cons kv kvs)
  obtain a b where kv: "kv = (a, b)" by (cases kv)
  have "store_inv (store_put a b m)" using Cons.prems by (rule inv_put)
  from Cons.IH [OF this] show ?case
    by (auto simp: kv get_put Cons.prems map_add_def split: option.splits)
qed

end

section \<open>Association lists as keyed containers\<close>

lemma look_put [simp, keyed_simps]: "look (put k v m) k' = (if k' = k then Some v else look m k')"
  by (simp add: look_def put_def update_conv)

lemma look_del [simp, keyed_simps]: "look (del k m) k' = (if k' = k then None else look m k')"
  by (auto simp: look_def del_def delete_conv)

lemma look_Nil [simp, keyed_simps]: "look [] k = None"
  by (simp add: look_def)

lemma keys_distinct_put [simp, intro]: "keys_distinct m \<Longrightarrow> keys_distinct (put k v m)"
  by (simp add: keys_distinct_def put_def distinct_update)

lemma keys_distinct_del [simp, intro]: "keys_distinct m \<Longrightarrow> keys_distinct (del k m)"
  by (simp add: keys_distinct_def del_def distinct_delete)

lemma keys_distinct_Nil [simp, intro]: "keys_distinct []"
  by (simp add: keys_distinct_def)

interpretation alist: keyed_store "[] :: ('k \<times> 'v) list" look put del keys_distinct
  by unfold_locales auto

lemma look_eq_None [keyed_simps]: "look m k = None \<longleftrightarrow> k \<notin> fst ` set m"
  by (simp add: look_def map_of_eq_None_iff)

lemma look_SomeD: "look m k = Some v \<Longrightarrow> (k, v) \<in> set m"
  by (simp add: look_def map_of_SomeD)

lemma look_Some_iff: "keys_distinct m \<Longrightarrow> look m k = Some v \<longleftrightarrow> (k, v) \<in> set m"
  by (simp add: look_def keys_distinct_def)

lemma put_fresh: "look m k = None \<Longrightarrow> put k v m = m @ [(k, v)]"
  unfolding put_def look_def by (induction m) (auto split: if_splits)

lemma del_filter: "del k m = filter (\<lambda>kv. fst kv \<noteq> k) m"
  unfolding del_def AList.delete_eq by (rule filter_cong) auto

lemma set_del: "set (del k m) = {kv \<in> set m. fst kv \<noteq> k}"
  by (auto simp: del_filter)

lemma adjust_simps [simp]:
  "adjust k f [] = []"
  "adjust k f ((k', v) # m) = (k', if k' = k then f v else v) # adjust k f m"
  by (simp_all add: adjust_def)

lemma map_fst_adjust [simp]: "map fst (adjust k f m) = map fst m"
  by (induction m) auto

lemma keys_distinct_adjust [simp]: "keys_distinct (adjust k f m) = keys_distinct m"
  by (simp add: keys_distinct_def)

lemma look_adjust [simp, keyed_simps]:
  "look (adjust k f m) k' = (if k' = k then map_option f (look m k') else look m k')"
  by (induction m) (auto simp: look_def)

end
