(* ===== verification/LK_Strings.thy ===== *)
theory LK_Strings
  imports LK_Prelude
begin

text \<open>
  The operations of the Rust standard library on strings that the program
  uses, over the bytes of the string: decimal printing and parsing, splitting,
  trimming, prefixes and suffixes, and the validity check of
  \<open>String::from_utf8\<close>.  White space is the ASCII white space; the protocol
  texts the program splits (SDP, header values, host lists) are ASCII.
\<close>

unbundle bit_operations_syntax

section \<open>Definitions\<close>

datatype 'a outcome = Panic | Value 'a

type_synonym bytes = "8 word list"

definition str_bytes :: "string \<Rightarrow> 8 word list" where
  "str_bytes s = map of_char s"

definition bytes_str :: "8 word list \<Rightarrow> string" where
  "bytes_str bs = map (\<lambda>w. char_of (unat w)) bs"

definition is_digit :: "char \<Rightarrow> bool" where
  "is_digit c \<longleftrightarrow> (48 :: nat) \<le> of_char c \<and> of_char c \<le> (57 :: nat)"

definition digit_val :: "char \<Rightarrow> nat" where
  "digit_val c = of_char c - 48"

definition digit_char :: "nat \<Rightarrow> char" where
  "digit_char d = char_of (48 + d)"

fun show_nat :: "nat \<Rightarrow> string" where
  "show_nat n = (if n < 10 then [digit_char n] else show_nat (n div 10) @ [digit_char (n mod 10)])"

definition show_int :: "int \<Rightarrow> string" where
  "show_int i = (if i < 0 then CHR ''-'' # show_nat (nat (- i)) else show_nat (nat i))"

definition pad0 :: "nat \<Rightarrow> string \<Rightarrow> string" where
  "pad0 w s = replicate (w - length s) (CHR ''0'') @ s"

text \<open>\<open>format!("{:0w$}")\<close>: the sign comes first and counts towards the width.\<close>

definition fmt_pad :: "nat \<Rightarrow> int \<Rightarrow> string" where
  "fmt_pad w i = (if i < 0 then CHR ''-'' # pad0 (w - 1) (show_nat (nat (- i)))
                  else pad0 w (show_nat (nat i)))"

definition digits_val :: "string \<Rightarrow> nat" where
  "digits_val s = foldl (\<lambda>a c. 10 * a + digit_val c) 0 s"

definition parse_digits :: "string \<Rightarrow> nat option" where
  "parse_digits s = (if s \<noteq> [] \<and> list_all is_digit s then Some (digits_val s) else None)"

definition parse_unsigned :: "nat \<Rightarrow> string \<Rightarrow> nat option" where
  "parse_unsigned mx s =
     (let t = (case s of c # t \<Rightarrow> if c = CHR ''+'' then t else s | [] \<Rightarrow> s) in
      case parse_digits t of
        None \<Rightarrow> None
      | Some n \<Rightarrow> if n \<le> mx then Some n else None)"

definition parse_signed :: "nat \<Rightarrow> string \<Rightarrow> int option" where
  "parse_signed w s =
     (case (case s of
              c # t \<Rightarrow> (if c = CHR ''-'' then map_option (\<lambda>n. - int n) (parse_digits t)
                       else if c = CHR ''+'' then map_option int (parse_digits t)
                       else map_option int (parse_digits s))
            | [] \<Rightarrow> None) of
        None \<Rightarrow> None
      | Some i \<Rightarrow> if - (2 ^ (w - 1)) \<le> i \<and> i < 2 ^ (w - 1) then Some i else None)"

fun split_on :: "char \<Rightarrow> string \<Rightarrow> string list" where
  "split_on c [] = [[]]"
| "split_on c (x # xs) =
     (if x = c then [] # split_on c xs
      else (case split_on c xs of [] \<Rightarrow> [[x]] | y # ys \<Rightarrow> (x # y) # ys))"

fun split_once :: "char \<Rightarrow> string \<Rightarrow> (string \<times> string) option" where
  "split_once c [] = None"
| "split_once c (x # xs) =
     (if x = c then Some ([], xs)
      else map_option (\<lambda>(a, b). (x # a, b)) (split_once c xs))"

fun strip_prefix :: "string \<Rightarrow> string \<Rightarrow> string option" where
  "strip_prefix [] s = Some s"
| "strip_prefix (p # ps) [] = None"
| "strip_prefix (p # ps) (x # xs) = (if p = x then strip_prefix ps xs else None)"

definition starts_with :: "string \<Rightarrow> string \<Rightarrow> bool" where
  "starts_with p s \<longleftrightarrow> strip_prefix p s \<noteq> None"

definition strip_suffix :: "string \<Rightarrow> string \<Rightarrow> string option" where
  "strip_suffix p s = map_option rev (strip_prefix (rev p) (rev s))"

definition ends_with :: "string \<Rightarrow> string \<Rightarrow> bool" where
  "ends_with suf s \<longleftrightarrow> strip_suffix suf s \<noteq> None"

fun str_contains :: "string \<Rightarrow> string \<Rightarrow> bool" where
  "str_contains p [] \<longleftrightarrow> p = []"
| "str_contains p (x # xs) \<longleftrightarrow> starts_with p (x # xs) \<or> str_contains p xs"

definition is_space :: "char \<Rightarrow> bool" where
  "is_space c \<longleftrightarrow> of_char c = (32 :: nat) \<or> ((9 :: nat) \<le> of_char c \<and> of_char c \<le> (13 :: nat))"

definition trim :: "string \<Rightarrow> string" where
  "trim s = rev (dropWhile is_space (rev (dropWhile is_space s)))"

definition split_whitespace :: "string \<Rightarrow> string list" where
  "split_whitespace s =
     filter (\<lambda>w. w \<noteq> []) (split_on (CHR '' '') (map (\<lambda>c. if is_space c then CHR '' '' else c) s))"

definition str_lines :: "string \<Rightarrow> string list" where
  "str_lines s =
     (let ls = split_on (CHR 0x0A) s;
          ls = (if last ls = [] then butlast ls else ls)
      in map (\<lambda>l. case strip_suffix [CHR 0x0D] l of None \<Rightarrow> l | Some l' \<Rightarrow> l') ls)"

fun join_with :: "string \<Rightarrow> string list \<Rightarrow> string" where
  "join_with sep [] = []"
| "join_with sep [x] = x"
| "join_with sep (x # y # ys) = x @ sep @ join_with sep (y # ys)"

definition hex_digit :: "nat \<Rightarrow> char" where
  "hex_digit n = ''0123456789abcdef'' ! n"

text \<open>\<open>format!("{:0wx}")\<close> of a number below \<open>16 ^ w\<close>.\<close>

definition hex_fixed :: "nat \<Rightarrow> nat \<Rightarrow> string" where
  "hex_fixed w n = map (\<lambda>i. hex_digit (n div 16 ^ i mod 16)) (rev [0..<w])"

text \<open>Well-formed UTF-8, by the table of the Unicode standard.\<close>

definition in_range :: "nat \<Rightarrow> nat \<Rightarrow> 8 word \<Rightarrow> bool" where
  "in_range lo hi w \<longleftrightarrow> lo \<le> unat w \<and> unat w \<le> hi"

definition utf8_cont :: "8 word \<Rightarrow> bool" where
  "utf8_cont w = in_range 128 191 w"

fun utf8_first :: "8 word list \<Rightarrow> nat option" where
  "utf8_first [] = None"
| "utf8_first (a # bs) =
     (if unat a < 128 then Some 1
      else if in_range 194 223 a then
        (case bs of b # _ \<Rightarrow> if utf8_cont b then Some 2 else None | _ \<Rightarrow> None)
      else if in_range 224 239 a then
        (case bs of
           b # c # _ \<Rightarrow>
             if (if unat a = 224 then in_range 160 191 b
                 else if unat a = 237 then in_range 128 159 b else utf8_cont b)
                \<and> utf8_cont c then Some 3 else None
         | _ \<Rightarrow> None)
      else if in_range 240 244 a then
        (case bs of
           b # c # d # _ \<Rightarrow>
             if (if unat a = 240 then in_range 144 191 b
                 else if unat a = 244 then in_range 128 143 b else utf8_cont b)
                \<and> utf8_cont c \<and> utf8_cont d then Some 4 else None
         | _ \<Rightarrow> None)
      else None)"

lemma utf8_first_bounds: "utf8_first bs = Some k \<Longrightarrow> 0 < k \<and> k \<le> length bs"
  by (cases bs) (auto split: if_splits list.splits)

function utf8_valid :: "8 word list \<Rightarrow> bool" where
  "utf8_valid bs =
     (if bs = [] then True
      else (case utf8_first bs of None \<Rightarrow> False | Some k \<Rightarrow> utf8_valid (drop k bs)))"
  by pat_completeness auto
termination
  by (relation "measure length") (auto dest!: utf8_first_bounds)

declare utf8_valid.simps [simp del]

section \<open>Digits\<close>

declare show_nat.simps [simp del]

lemma of_char_digit [simp]: "d < 10 \<Longrightarrow> of_char (digit_char d) = 48 + d"
  by (simp add: digit_char_def)

lemma is_digit_digit_char [simp]: "d < 10 \<Longrightarrow> is_digit (digit_char d)"
  by (simp add: is_digit_def)

lemma digit_val_digit_char [simp]: "d < 10 \<Longrightarrow> digit_val (digit_char d) = d"
  by (simp add: digit_val_def)

lemma digits_val_snoc [simp]: "digits_val (s @ [c]) = 10 * digits_val s + digit_val c"
  by (simp add: digits_val_def)

lemma digits_val_Nil [simp]: "digits_val [] = 0"
  by (simp add: digits_val_def)

lemma show_nat_digits: "list_all is_digit (show_nat n)"
proof (induction n rule: show_nat.induct)
  case (1 n)
  then show ?case by (subst show_nat.simps) auto
qed

lemma show_nat_nonempty [simp]: "show_nat n \<noteq> []"
  by (subst show_nat.simps) simp

lemma digits_val_show_nat [simp]: "digits_val (show_nat n) = n"
proof (induction n rule: show_nat.induct)
  case (1 n)
  show ?case
  proof (cases "n < 10")
    case True
    then have "show_nat n = [] @ [digit_char n]" by (subst show_nat.simps) simp
    then show ?thesis using True by (simp only: digits_val_snoc) simp
  next
    case False
    then show ?thesis using 1 by (subst show_nat.simps) simp
  qed
qed

lemma parse_digits_show_nat [simp]: "parse_digits (show_nat n) = Some n"
  by (simp add: parse_digits_def show_nat_digits)

lemma digits_val_zeros: "digits_val (replicate k (CHR ''0'') @ s) = digits_val s"
proof -
  have "foldl (\<lambda>a c. 10 * a + digit_val c) 0 (replicate k (CHR ''0'')) = 0"
    by (induction k) (simp_all add: digit_val_def)
  then show ?thesis by (simp add: digits_val_def)
qed

lemma list_all_pad0 [simp]: "list_all is_digit (pad0 w s) = list_all is_digit s"
  by (auto simp: pad0_def list_all_iff is_digit_def)

lemma pad0_nonempty [simp]: "s \<noteq> [] \<Longrightarrow> pad0 w s \<noteq> []"
  by (simp add: pad0_def)

lemma digits_val_pad0 [simp]: "digits_val (pad0 w s) = digits_val s"
  by (simp add: pad0_def digits_val_zeros)

lemma parse_digits_pad0 [simp]: "parse_digits (pad0 w (show_nat n)) = Some n"
  by (simp add: parse_digits_def show_nat_digits)

lemma digits_not_in:
  assumes "list_all is_digit s" "\<not> is_digit c"
  shows "c \<notin> set s"
  using assms by (auto simp: list_all_iff)

lemma digits_hd:
  assumes "list_all is_digit s" "s \<noteq> []"
  shows "hd s \<noteq> CHR ''-''" "hd s \<noteq> CHR ''+''"
  using assms by (cases s; auto simp: is_digit_def)+

lemma parse_signed_digits:
  assumes "list_all is_digit s" "s \<noteq> []"
  shows "parse_signed w s = (if digits_val s < 2 ^ (w - 1) then Some (int (digits_val s)) else None)"
proof -
  obtain c t where s: "s = c # t" using assms(2) by (cases s) auto
  have "c \<noteq> CHR ''-''" "c \<noteq> CHR ''+''"
    using digits_hd [OF assms] by (simp_all add: s)
  moreover have "parse_digits s = Some (digits_val s)"
    using assms by (simp add: parse_digits_def)
  moreover have "int (digits_val s) < 2 ^ (w - 1) \<longleftrightarrow> digits_val s < 2 ^ (w - 1)"
    by (metis of_nat_less_iff of_nat_numeral of_nat_power)
  moreover have "- (2 ^ (w - 1)) \<le> int (digits_val s)"
    by (rule order_trans [of _ 0]) simp_all
  ultimately show ?thesis
    unfolding parse_signed_def s by simp
qed

lemma parse_signed_show_int:
  assumes "- (2 ^ (w - 1)) \<le> i" "i < 2 ^ (w - 1)"
  shows "parse_signed w (show_int i) = Some i"
proof (cases "i < 0")
  case True
  then show ?thesis using assms by (simp add: parse_signed_def show_int_def)
next
  case False
  then have "nat i < 2 ^ (w - 1)" using assms by (simp add: nat_less_iff)
  then show ?thesis
    using False by (simp add: show_int_def parse_signed_digits show_nat_digits)
qed

lemma parse_signed_pad0:
  assumes "n < 2 ^ (w - 1)"
  shows "parse_signed w (pad0 k (show_nat n)) = Some (int n)"
  using assms by (simp add: parse_signed_digits show_nat_digits)

lemma parse_signed_fmt_pad:
  assumes "0 \<le> i" "i < 2 ^ (w - 1)"
  shows "parse_signed w (fmt_pad k i) = Some i"
  using assms parse_signed_pad0 [of "nat i" w k] by (simp add: fmt_pad_def nat_less_iff)

lemma length_show_nat_le: "n < 10 ^ k \<Longrightarrow> 0 < k \<Longrightarrow> length (show_nat n) \<le> k"
proof (induction n arbitrary: k rule: show_nat.induct)
  case (1 n)
  show ?case
  proof (cases "n < 10")
    case True
    then show ?thesis using "1.prems" by (subst show_nat.simps) simp
  next
    case False
    then obtain j where k: "k = Suc j" and "0 < j"
      using "1.prems" by (cases k; cases "k - 1") auto
    have "n div 10 < 10 ^ j" using "1.prems"(1) by (simp add: k)
    from "1.IH" [OF False this \<open>0 < j\<close>] False show ?thesis
      by (subst show_nat.simps) (simp add: k)
  qed
qed

lemma length_pad0_show: "n < 10 ^ k \<Longrightarrow> 0 < k \<Longrightarrow> length (pad0 k (show_nat n)) = k"
  using length_show_nat_le [of n k] by (simp add: pad0_def)

lemma hex_digit_inj: "m < 16 \<Longrightarrow> n < 16 \<Longrightarrow> hex_digit m = hex_digit n \<longleftrightarrow> m = n"
  unfolding hex_digit_def by (rule nth_eq_iff_index_eq) simp_all

lemma set_hex_digit: "n < 16 \<Longrightarrow> hex_digit n \<in> set ''0123456789abcdef''"
  unfolding hex_digit_def by (rule nth_mem) simp

lemma hex_fixed_Suc: "hex_fixed (Suc w) n = hex_digit (n div 16 ^ w mod 16) # hex_fixed w n"
  by (simp add: hex_fixed_def)

lemma set_hex_fixed: "set (hex_fixed w n) \<subseteq> set ''0123456789abcdef''"
  using set_hex_digit by (auto simp: hex_fixed_def simp del: set_simps)

lemma length_hex_fixed [simp]: "length (hex_fixed w n) = w"
  by (simp add: hex_fixed_def)

lemma hex_fixed_inj: "hex_fixed w m = hex_fixed w n \<Longrightarrow> m < 16 ^ w \<Longrightarrow> n < 16 ^ w \<Longrightarrow> m = n"
proof (induction w arbitrary: m n)
  case (Suc w)
  have d: "m div 16 ^ w < 16" "n div 16 ^ w < 16" using Suc.prems(2,3) by (simp_all add: div_less_iff_less_mult mult.commute)
  have h: "m div 16 ^ w = n div 16 ^ w" using Suc.prems(1) d by (simp add: hex_fixed_Suc hex_digit_inj)
  have "hex_fixed w (x mod 16 ^ w) = hex_fixed w x" for x
  proof -
    have "x mod 16 ^ w div 16 ^ i mod 16 = x div 16 ^ i mod 16" if "i < w" for i
    proof -
      have "(16 :: nat) ^ w = 16 ^ i * 16 ^ (w - i)" using that by (simp flip: power_add)
      then have "x mod 16 ^ w div 16 ^ i = x div 16 ^ i mod 16 ^ (w - i)" by (simp add: mod_mult2_eq)
      moreover have "(16 :: nat) dvd 16 ^ (w - i)" using that by simp
      ultimately show ?thesis by (simp add: mod_mod_cancel)
    qed
    then show ?thesis by (simp add: hex_fixed_def)
  qed
  then have "hex_fixed w (m mod 16 ^ w) = hex_fixed w (n mod 16 ^ w)" using Suc.prems(1) by (simp add: hex_fixed_Suc)
  then have "m mod 16 ^ w = n mod 16 ^ w" by (rule Suc.IH) simp_all
  with h show ?case by (metis div_mult_mod_eq)
qed simp

section \<open>Splitting\<close>

lemma split_on_nonempty [simp]: "split_on c s \<noteq> []"
  by (induction s) (auto split: list.splits)

lemma split_on_absent [simp]: "c \<notin> set s \<Longrightarrow> split_on c s = [s]"
  by (induction s) auto

lemma split_on_append:
  "c \<notin> set a \<Longrightarrow> split_on c (a @ c # b) = a # split_on c b"
  by (induction a) auto

lemma split_once_absent [simp]: "c \<notin> set s \<Longrightarrow> split_once c s = None"
  by (induction s) auto

lemma split_once_append [simp]: "c \<notin> set a \<Longrightarrow> split_once c (a @ c # b) = Some (a, b)"
  by (induction a) auto

lemma split_once_SomeD: "split_once c s = Some (a, b) \<Longrightarrow> s = a @ c # b \<and> c \<notin> set a"
  by (induction s arbitrary: a) (auto split: if_splits)

lemma strip_prefix_append [simp]: "strip_prefix p (p @ s) = Some s"
  by (induction p) auto

lemma strip_prefix_SomeD: "strip_prefix p s = Some t \<Longrightarrow> s = p @ t"
  by (induction p s rule: strip_prefix.induct) (auto split: if_splits)

lemma strip_prefix_iff: "strip_prefix p s = Some t \<longleftrightarrow> s = p @ t"
  using strip_prefix_SomeD by auto

lemma strip_suffix_append [simp]: "strip_suffix p (s @ p) = Some s"
  by (simp add: strip_suffix_def)

lemma strip_suffix_iff: "strip_suffix p s = Some t \<longleftrightarrow> s = t @ p"
  by (auto simp: strip_suffix_def strip_prefix_iff) (metis rev_append rev_rev_ident)

section \<open>Bytes of strings\<close>

lemma unat_of_char: "unat (of_char c :: 8 word) = of_char c"
  by (cases c) (simp add: of_char_def)

lemma bytes_str_str_bytes [simp]: "bytes_str (str_bytes s) = s"
  by (simp add: bytes_str_def str_bytes_def o_def unat_of_char)

lemma utf8_first_append: "utf8_first a = Some k \<Longrightarrow> utf8_first (a @ b) = Some k"
  by (cases a) (auto split: if_splits list.splits)

lemma utf8_valid_append: "utf8_valid a \<Longrightarrow> utf8_valid (a @ b) = utf8_valid b"
proof (induction a rule: utf8_valid.induct)
  case (1 a)
  show ?case
  proof (cases "a = []")
    case True
    then show ?thesis by simp
  next
    case False
    with "1.prems" obtain k where k: "utf8_first a = Some k" "utf8_valid (drop k a)"
      by (subst (asm) utf8_valid.simps) (auto split: option.splits)
    have "drop k (a @ b) = drop k a @ b"
      using utf8_first_bounds [OF k(1)] by simp
    then show ?thesis
      using "1.IH" [OF False k(1) k(2)] utf8_first_append [OF k(1)] False
      by (subst utf8_valid.simps) simp
  qed
qed

section \<open>Order\<close>

text \<open>The order of strings, by bytes.\<close>

fun lex_le :: "string \<Rightarrow> string \<Rightarrow> bool" where
  "lex_le [] _ = True"
| "lex_le (_ # _) [] = False"
| "lex_le (a # s) (b # t) =
     (if of_char a < (of_char b :: nat) then True else if of_char b < (of_char a :: nat) then False else lex_le s t)"

lemma lex_le_refl [simp]: "lex_le s s"
  by (induction s) simp_all

lemma lex_le_total: "lex_le s t \<or> lex_le t s"
  by (induction s t rule: lex_le.induct) auto

lemma lex_le_antisym: "lex_le s t \<Longrightarrow> lex_le t s \<Longrightarrow> s = t"
proof (induction s t rule: lex_le.induct)
  case (1 t)
  then show ?case by (cases t) simp_all
next
  case (3 a s b t)
  then have "(of_char a :: nat) = of_char b" "s = t" by (auto split: if_splits)
  then show ?case by simp
qed simp

lemma lex_le_trans: "lex_le s t \<Longrightarrow> lex_le t u \<Longrightarrow> lex_le s u"
proof (induction s t arbitrary: u rule: lex_le.induct)
  case (3 a s b t)
  then show ?case by (cases u) (auto split: if_splits)
qed simp_all

end
