(* ===== verification/Base62.thy ===== *)
theory Base62
  imports LK_Strings
begin

text \<open>
  The base62 codec of \<open>lk-server/src/turn.rs\<close>, as the code has it: the
  encoder walks the bytes from the last one, six bits at a time (five where the
  six-bit value would fall outside the alphabet), and the decoder writes bytes
  into a buffer from its end.  Array accesses of the decoder that would be out
  of bounds are the outcome \<open>Panic\<close>.  The proofs read a byte list as a
  big-endian number (\<open>be_val\<close>) and both loops as arithmetic on it
  (\<open>enc_nat\<close>, \<open>dec_step\<close>).
\<close>

unbundle bit_operations_syntax

section \<open>Base62\<close>

definition B62 :: string where
  "B62 = ''ABCDEFGHIJKLMNOPQRSTUVWXYZabcdefghijklmnopqrstuvwxyz0123456789''"

text \<open>One round of the encoder's loop: the value pushed and the bits consumed.\<close>

definition b62_chunk :: "8 word list \<Rightarrow> int \<Rightarrow> 8 word \<times> int" where
  "b62_chunk src pos =
     (let r0 = nat (pos mod 8);
          i0 = nat (pos div 8);
          (i, r) = (if r0 = 0 then (i0 - 1, 8) else (i0, r0));
          b = drop_bit (8 - r) (src ! i);
          b = (if r < 6 \<and> 0 < i then b OR push_bit r (src ! (i - 1)) else b);
          b = b AND 63
      in if b AND 30 = 30 then (b AND 31, if 6 < pos \<or> 31 < b then 5 else 6)
         else (b, 6))"

lemma b62_chunk_size: "snd (b62_chunk src pos) = 5 \<or> snd (b62_chunk src pos) = 6"
  by (simp add: b62_chunk_def Let_def split: prod.splits)

function b62_enc_loop :: "8 word list \<Rightarrow> int \<Rightarrow> string" where
  "b62_enc_loop src pos =
     (if pos \<le> 0 then []
      else B62 ! unat (fst (b62_chunk src pos))
           # b62_enc_loop src (pos - snd (b62_chunk src pos)))"
  by pat_completeness auto
termination
proof (relation "measure (\<lambda>(src, pos). nat pos)")
  fix src pos
  assume "\<not> pos \<le> (0 :: int)"
  then show "((src, pos - snd (b62_chunk src pos)), (src, pos)) \<in> measure (\<lambda>(src, pos). nat pos)"
    using b62_chunk_size [of src pos] by auto
qed simp

definition b62_encode :: "8 word list \<Rightarrow> string" where
  "b62_encode src = b62_enc_loop src (int (length src) * 8)"

definition b62_table :: "char \<Rightarrow> nat option" where
  "b62_table c = map_of (zip B62 [0 ..< 62]) c"

definition bit_len :: "8 word \<Rightarrow> nat" where
  "bit_len x = (if x = 0 then 0 else 8 - length (takeWhile (\<lambda>i. \<not> bit x i) [7, 6, 5, 4, 3, 2, 1, 0]))"

record dec_state =
  d_dst :: "8 word list"
  d_idx :: nat
  d_pos :: nat
  d_b :: "32 word"

definition dec_emit :: "dec_state \<Rightarrow> dec_state outcome" where
  "dec_emit st =
     (if d_idx st = 0 \<or> length (d_dst st) < d_idx st then Panic
      else Value (st\<lparr> d_idx := d_idx st - 1,
                      d_dst := (d_dst st)[d_idx st - 1 := ucast (d_b st AND 255)] \<rparr>))"

definition dec_push :: "nat \<Rightarrow> bool \<Rightarrow> dec_state \<Rightarrow> dec_state" where
  "dec_push x lst st =
     st\<lparr> d_b := d_b st OR push_bit (d_pos st) (of_nat x),
         d_pos := d_pos st + (if lst then bit_len (of_nat x)
                              else if (of_nat x :: 32 word) AND 30 = 30 then 5 else 6) \<rparr>"

fun dec_loop :: "string \<Rightarrow> dec_state \<Rightarrow> dec_state option outcome" where
  "dec_loop [] st = Value (Some st)"
| "dec_loop (c # cs) st =
     (case b62_table c of
        None \<Rightarrow> Value None
      | Some x \<Rightarrow>
          let st = dec_push x (cs = []) st in
          if 8 \<le> d_pos st then
            (case dec_emit st of
               Panic \<Rightarrow> Panic
             | Value st \<Rightarrow> dec_loop cs (st\<lparr> d_pos := d_pos st mod 8, d_b := drop_bit 8 (d_b st) \<rparr>))
          else dec_loop cs st)"

definition b62_decode :: "string \<Rightarrow> 8 word list option outcome" where
  "b62_decode s =
     (if s = [] then Value (Some [])
      else
        let dst_len = length s * 6 div 8 + 1 in
        (case dec_loop s \<lparr> d_dst = replicate dst_len 0, d_idx = dst_len, d_pos = 0, d_b = 0 \<rparr> of
           Panic \<Rightarrow> Panic
         | Value None \<Rightarrow> Value None
         | Value (Some st) \<Rightarrow>
             if 0 < d_pos st then
               (case dec_emit st of
                  Panic \<Rightarrow> Panic
                | Value st \<Rightarrow> Value (Some (drop (d_idx st) (d_dst st))))
             else Value (Some (drop (d_idx st) (d_dst st)))))"

section \<open>Byte lists as numbers\<close>

fun be_val :: "8 word list \<Rightarrow> nat" where
  "be_val [] = 0"
| "be_val (w # ws) = unat w * 256 ^ length ws + be_val ws"

lemma be_val_snoc [simp]: "be_val (ws @ [w]) = 256 * be_val ws + unat w"
  by (induction ws) (simp_all add: algebra_simps)

lemma unat8_lt: "unat (w :: 8 word) < 256"
  using unsigned_less [of w, where ?'a = nat] by simp

lemma be_val_lt: "be_val ws < 256 ^ length ws"
proof (induction ws rule: rev_induct)
  case (snoc w ws)
  then show ?case using unat8_lt [of w] by simp
qed simp

lemma be_val_inj: "length xs = length ys \<Longrightarrow> be_val xs = be_val ys \<Longrightarrow> xs = ys"
proof (induction xs arbitrary: ys rule: rev_induct)
  case Nil
  then show ?case by simp
next
  case (snoc x xs)
  then obtain y zs where ys: "ys = zs @ [y]" "length zs = length xs"
    by (metis append_butlast_last_id length_append_singleton length_butlast diff_Suc_1 length_0_conv nat.distinct(1))
  have eq: "256 * be_val xs + unat x = 256 * be_val zs + unat y"
    using snoc.prems ys by simp
  from arg_cong [OF eq, of "\<lambda>n. n mod 256"] have "unat x = unat y"
    using unat8_lt [of x] unat8_lt [of y] by simp
  with eq have "be_val xs = be_val zs" by simp
  note \<open>unat x = unat y\<close> this
  then show ?case
    using snoc.IH [of zs] ys by (simp add: word_unat_eq_iff)
qed

lemma be_val_append: "be_val (xs @ ys) = be_val xs * 256 ^ length ys + be_val ys"
  by (induction ys rule: rev_induct) (simp_all add: algebra_simps flip: append_assoc)

lemma or_add_nat: "(a :: nat) < 2 ^ r \<Longrightarrow> a OR push_bit r b = a + b * 2 ^ r"
proof -
  assume "a < 2 ^ r"
  then have a: "take_bit r a = a" by (simp add: take_bit_nat_eq_self)
  have "a AND push_bit r b = 0"
    by (subst a [symmetric]) (auto simp: bit_eq_iff bit_simps)
  then have "a OR push_bit r b = a + push_bit r b"
    by (rule disjunctive_add_eq_or [symmetric])
  then show ?thesis by (simp add: push_bit_eq_mult)
qed

lemma unat_and63: "unat ((w :: 8 word) AND 63) = unat w mod 64"
proof -
  have "(63 :: 8 word) = mask 6" by (simp add: mask_eq_exp_minus_1)
  then have "w AND 63 = take_bit 6 w" by (simp add: take_bit_eq_mask)
  then have "unat (w AND 63) = take_bit 6 (unat w)" by (simp only: unsigned_take_bit_eq)
  then show ?thesis by (simp add: take_bit_eq_mod)
qed

lemma unat_and31: "unat ((w :: 8 word) AND 31) = unat w mod 32"
proof -
  have "(31 :: 8 word) = mask 5" by (simp add: mask_eq_exp_minus_1)
  then have "w AND 31 = take_bit 5 w" by (simp add: take_bit_eq_mask)
  then have "unat (w AND 31) = take_bit 5 (unat w)" by (simp only: unsigned_take_bit_eq)
  then show ?thesis by (simp add: take_bit_eq_mod)
qed

lemma compact_nat: "n < 64 \<Longrightarrow> ((of_nat n :: 8 word) AND 30 = 30) = (30 \<le> n mod 32)"
proof -
  assume "n < 64"
  moreover have "\<forall>n \<in> set [0..<64]. ((of_nat n :: 8 word) AND 30 = 30) = (30 \<le> n mod 32)"
    by code_simp
  ultimately show ?thesis by auto
qed

lemma compact_nat32: "n < 64 \<Longrightarrow> ((of_nat n :: 32 word) AND 30 = 30) = (30 \<le> n mod 32)"
proof -
  assume "n < 64"
  moreover have "\<forall>n \<in> set [0..<64]. ((of_nat n :: 32 word) AND 30 = 30) = (30 \<le> n mod 32)"
    by code_simp
  ultimately show ?thesis by auto
qed

lemma bit_zero_lt: "(\<And>i. k \<le> i \<Longrightarrow> \<not> bit n i) \<Longrightarrow> (n :: nat) < 2 ^ k"
proof -
  assume *: "\<And>i. k \<le> i \<Longrightarrow> \<not> bit n i"
  have "take_bit k n = n"
    using * by (intro bit_eqI) (auto simp: bit_simps not_less intro: leI)
  then show ?thesis by (metis take_bit_nat_less_exp)
qed

lemma lt_bit_zero: "(n :: nat) < 2 ^ k \<Longrightarrow> k \<le> i \<Longrightarrow> \<not> bit n i"
  by (metis bit_take_bit_iff not_le take_bit_nat_eq_self)

lemma bit_len_alt: "bit_len x = 8 - length (takeWhile (\<lambda>i. \<not> bit (unat x) i) (rev [0..<8]))"
proof -
  have r: "[7, 6, 5, 4, 3, 2, 1, 0] = rev [0 ..< 8 :: nat]" by (simp add: upt_rec)
  show ?thesis
  proof (cases "x = 0")
    case True
    then show ?thesis by (simp add: bit_len_def takeWhile_eq_all_conv [THEN iffD2])
  next
    case False
    have "bit x i = bit (unat x) i" if "i \<in> set (rev [0..<8])" for i
      using that by (simp add: bit_unsigned_iff)
    then have "takeWhile (\<lambda>i. \<not> bit x i) (rev [0..<8]) = takeWhile (\<lambda>i. \<not> bit (unat x) i) (rev [0..<8])"
      by (intro takeWhile_cong) auto
    then show ?thesis using False by (simp only: bit_len_def r if_False)
  qed
qed

lemma bit_len_le: "unat x < 2 ^ k \<Longrightarrow> bit_len x \<le> k"
proof (cases "k \<le> 8")
  case True
  assume lt: "unat x < 2 ^ k"
  have "[0 ..< 8] = [0 ..< k] @ [k ..< 8]" using True by (metis le_add_diff_inverse upt_add_eq_append zero_le)
  then have "takeWhile (\<lambda>i. \<not> bit (unat x) i) (rev [0..<8])
      = rev [k ..< 8] @ takeWhile (\<lambda>i. \<not> bit (unat x) i) (rev [0..<k])"
    using lt_bit_zero [OF lt] by (simp only: rev_append) (subst takeWhile_append2, auto)
  then show ?thesis unfolding bit_len_alt by simp
next
  case False
  then show ?thesis unfolding bit_len_alt by simp
qed

lemma lt_bit_len: "unat x < 2 ^ bit_len x"
proof (rule bit_zero_lt)
  fix i assume i: "bit_len x \<le> i"
  let ?P = "\<lambda>i. \<not> bit (unat x) i"
  let ?L = "length (takeWhile ?P (rev [0..<8]))"
  have L: "?L \<le> 8" using length_takeWhile_le [of ?P "rev [0..<8]"] by simp
  show "\<not> bit (unat x) i"
  proof (cases "i < 8")
    case True
    have "takeWhile ?P (rev [0..<8]) = take ?L (rev [0..<8])" by (metis takeWhile_eq_take)
    also have "\<dots> ! (7 - i) = i"
      using True i L by (simp add: bit_len_alt rev_nth)
    finally have "takeWhile ?P (rev [0..<8]) ! (7 - i) = i" .
    moreover have "7 - i < ?L" using True i L by (simp add: bit_len_alt)
    ultimately show ?thesis by (metis nth_mem set_takeWhileD)
  next
    case False
    then show ?thesis using lt_bit_zero [of "unat x" 8 i] unat8_lt [of x] by simp
  qed
qed


lemma be_val_take_div:
  assumes "k \<le> length src"
  shows "be_val src div 256 ^ (length src - k) = be_val (take k src)"
proof -
  have "be_val src = be_val (take k src) * 256 ^ (length src - k) + be_val (drop k src)"
    using be_val_append [of "take k src" "drop k src"] by simp
  moreover have "be_val (drop k src) < 256 ^ (length src - k)"
    using be_val_lt [of "drop k src"] by simp
  ultimately show ?thesis by simp
qed

lemma be_val_take_Suc:
  "i < length src \<Longrightarrow> be_val (take (Suc i) src) = 256 * be_val (take i src) + unat (src ! i)"
  by (simp add: take_Suc_conv_app_nth)

lemma div_split_byte:
  assumes "1 \<le> r" "r \<le> 8"
  shows "(256 * m + a) div 2 ^ (8 - r) = 2 ^ r * m + a div (2 :: nat) ^ (8 - r)"
proof -
  have "(256 :: nat) = 2 ^ r * 2 ^ (8 - r)"
    using assms by (simp flip: power_add)
  then have "256 * m + a = a + (2 ^ r * m) * 2 ^ (8 - r)"
    by (metis add.commute mult.assoc mult.commute)
  then show ?thesis by (simp only:) simp
qed

lemma unat_drop_bit8: "unat (drop_bit k (a :: 8 word)) = unat a div 2 ^ k"
  by (simp only: unsigned_drop_bit_eq) (simp add: drop_bit_eq_div take_bit_nat_eq_self unat8_lt)

lemma unat_or_byte:
  assumes "1 \<le> r" "r < 6"
  shows "unat (drop_bit (8 - r) a OR push_bit r (b :: 8 word)) mod 64
         = (unat a div 2 ^ (8 - r) + 2 ^ r * unat b) mod 64"
proof -
  let ?d = "unat a div 2 ^ (8 - r)"
  have d: "?d < 2 ^ r"
  proof -
    have "unat a < 2 ^ r * 2 ^ (8 - r)" using assms unat8_lt [of a] by (simp flip: power_add)
    then show ?thesis by (simp add: less_mult_imp_div_less)
  qed
  have "unat (drop_bit (8 - r) a OR push_bit r b) = ?d OR take_bit 8 (push_bit r (unat b))"
    by (simp only: unsigned_or_eq unat_drop_bit8 unsigned_push_bit_eq) simp
  moreover have "take_bit 8 (push_bit r (unat b)) = push_bit r (take_bit (8 - r) (unat b))"
    using assms by (simp add: take_bit_push_bit)
  ultimately have "unat (drop_bit (8 - r) a OR push_bit r b) = ?d + take_bit (8 - r) (unat b) * 2 ^ r"
    using or_add_nat [OF d] by simp
  also have "\<dots> mod 64 = (?d + 2 ^ r * unat b) mod 64"
  proof -
    have "(64 :: nat) dvd 2 ^ r * 2 ^ (8 - r)" using assms by (simp flip: power_add)
    moreover have "take_bit (8 - r) (unat b) * 2 ^ r = (2 ^ r * unat b) mod (2 ^ r * 2 ^ (8 - r))"
      by (simp add: take_bit_eq_mod mult.commute flip: mult_mod_right)
    ultimately have "take_bit (8 - r) (unat b) * 2 ^ r mod 64 = 2 ^ r * unat b mod 64"
      by (simp only: mod_mod_cancel)
    then show ?thesis by (rule mod_add_cong [OF refl])
  qed
  finally show ?thesis .
qed

definition raw_chunk :: "8 word list \<Rightarrow> nat \<Rightarrow> nat \<Rightarrow> 8 word" where
  "raw_chunk src i r =
     (let b = drop_bit (8 - r) (src ! i) in
      (if r < 6 \<and> 0 < i then b OR push_bit r (src ! (i - 1)) else b) AND 63)"

lemma raw_chunk_val:
  assumes "i < length src" "1 \<le> r" "r \<le> 8"
  shows "unat (raw_chunk src i r) = be_val (take (Suc i) src) div 2 ^ (8 - r) mod 64"
proof -
  let ?a = "unat (src ! i) div 2 ^ (8 - r)"
  have T: "be_val (take (Suc i) src) div 2 ^ (8 - r) = 2 ^ r * be_val (take i src) + ?a"
    using assms by (simp add: be_val_take_Suc div_split_byte)
  consider (wide) "6 \<le> r" | (first) "i = 0" | (two) j where "r < 6" "i = Suc j"
    by (cases i; cases "r < 6") auto
  then show ?thesis
  proof cases
    case wide
    then have "(64 :: nat) dvd 2 ^ r" using le_imp_power_dvd [of 6 r "2 :: nat"] by simp
    then obtain k where "(2 :: nat) ^ r = 64 * k" by (auto elim: dvdE)
    then have "(2 ^ r * be_val (take i src) + ?a) mod 64 = ?a mod 64"
      by (simp add: mult.assoc)
    then show ?thesis
      using wide by (simp add: T raw_chunk_def unat_and63 unat_drop_bit8 Let_def del: drop_bit_eq_div)
  next
    case first
    with T have "be_val (take (Suc i) src) div 2 ^ (8 - r) = ?a" by simp
    then show ?thesis
      using first by (simp add: raw_chunk_def unat_and63 unat_drop_bit8 Let_def del: drop_bit_eq_div)
  next
    case two
    have "be_val (take i src) = 256 * be_val (take j src) + unat (src ! j)"
      using be_val_take_Suc [of j src] assms(1) two by simp
    then have "2 ^ r * be_val (take i src) + ?a
        = (?a + 2 ^ r * unat (src ! j)) + 64 * (4 * 2 ^ r * be_val (take j src))"
      by (simp add: algebra_simps)
    then have "(2 ^ r * be_val (take i src) + ?a) mod 64 = (?a + 2 ^ r * unat (src ! j)) mod 64"
      by (simp only: mod_mult_self2)
    with T have "be_val (take (Suc i) src) div 2 ^ (8 - r) mod 64 = (?a + 2 ^ r * unat (src ! j)) mod 64"
      by simp
    then show ?thesis
      using two assms by (simp add: raw_chunk_def unat_and63 unat_or_byte Let_def)
  qed
qed


function enc_nat :: "nat \<Rightarrow> nat \<Rightarrow> nat list" where
  "enc_nat pos M =
     (if pos = 0 then []
      else if 30 \<le> M mod 64 mod 32 then
        (if 6 < pos \<or> 31 < M mod 64 then M mod 32 # enc_nat (pos - 5) (M div 32) else [M mod 32])
      else M mod 64 # enc_nat (pos - 6) (M div 64))"
  by pat_completeness auto
termination by (relation "measure fst") auto

declare enc_nat.simps [simp del] b62_enc_loop.simps [simp del]

lemma enc_nat_0 [simp]: "enc_nat 0 M = []"
  by (simp add: enc_nat.simps)

lemma b62_chunk_raw:
  assumes "0 < pos" "pos \<le> 8 * length src"
  obtains b where "unat b = be_val src div 2 ^ (8 * length src - pos) mod 64"
    "b62_chunk src (int pos) =
       (if 30 \<le> unat b mod 32 then (b AND 31, if 6 < pos \<or> 31 < unat b then 5 else 6) else (b, 6))"
proof -
  define i where "i = (if pos mod 8 = 0 then pos div 8 - 1 else pos div 8)"
  define r where "r = (if pos mod 8 = 0 then 8 else pos mod 8)"
  have pos: "pos = 8 * i + r" and r: "1 \<le> r" "r \<le> 8"
    using assms(1) by (auto simp: i_def r_def)
  have i: "i < length src" using pos assms(2) r by linarith
  let ?b = "raw_chunk src i r"
  have "8 * length src - pos = 8 * (length src - Suc i) + (8 - r)"
    using pos r i by linarith
  then have "be_val src div 2 ^ (8 * length src - pos)
      = be_val src div 256 ^ (length src - Suc i) div 2 ^ (8 - r)"
    by (simp add: power_add power_mult div_mult2_eq)
  then have v: "unat ?b = be_val src div 2 ^ (8 * length src - pos) mod 64"
    using raw_chunk_val [OF i r] be_val_take_div [of "Suc i" src] i by simp
  have c: "?b AND 30 = 30 \<longleftrightarrow> 30 \<le> unat ?b mod 32"
  proof -
    have "unat ?b < 64" by (simp add: v)
    from compact_nat [OF this] show ?thesis by simp
  qed
  have "nat (int pos mod 8) = pos mod 8" "nat (int pos div 8) = pos div 8"
    by (simp_all add: nat_mod_distrib nat_div_distrib)
  then have "(if nat (int pos mod 8) = 0 then (nat (int pos div 8) - 1, 8)
        else (nat (int pos div 8), nat (int pos mod 8))) = (i, r)"
    by (simp add: i_def r_def)
  then have "b62_chunk src (int pos) =
      (if ?b AND 30 = 30 then (?b AND 31, if 6 < int pos \<or> 31 < ?b then 5 else 6) else (?b, 6))"
    unfolding b62_chunk_def Let_def by (simp add: raw_chunk_def Let_def)
  moreover have "31 < ?b \<longleftrightarrow> 31 < unat ?b" by (simp add: word_less_nat_alt)
  ultimately have "b62_chunk src (int pos) =
      (if 30 \<le> unat ?b mod 32 then (?b AND 31, if 6 < pos \<or> 31 < unat ?b then 5 else 6) else (?b, 6))"
    by (simp add: c)
  with v show ?thesis by (rule that)
qed

lemma enc_loop_nat:
  "pos \<le> 8 * length src \<Longrightarrow>
   b62_enc_loop src (int pos) = map ((!) B62) (enc_nat pos (be_val src div 2 ^ (8 * length src - pos)))"
proof (induction pos rule: less_induct)
  case (less pos)
  let ?n = "8 * length src"
  let ?M = "be_val src div 2 ^ (?n - pos)"
  show ?case
  proof (cases "pos = 0")
    case True
    then show ?thesis by (simp add: b62_enc_loop.simps)
  next
    case False
    obtain b where b: "unat b = ?M mod 64" and
      ch: "b62_chunk src (int pos) =
       (if 30 \<le> unat b mod 32 then (b AND 31, if 6 < pos \<or> 31 < unat b then 5 else 6) else (b, 6))"
      using b62_chunk_raw [of pos src] less.prems False by auto
    have lp: "b62_enc_loop src (int pos) = B62 ! unat (fst (b62_chunk src (int pos)))
        # b62_enc_loop src (int pos - snd (b62_chunk src (int pos)))"
      using False by (subst b62_enc_loop.simps) simp
    have step: "b62_enc_loop src (int pos - int k) = map ((!) B62) (enc_nat (pos - k) (?M div 2 ^ k))"
      if "0 < k" for k
    proof (cases "k \<le> pos")
      case True
      have "?n - (pos - k) = (?n - pos) + k" using True less.prems by simp
      then have "be_val src div 2 ^ (?n - (pos - k)) = ?M div 2 ^ k"
        by (simp add: power_add div_mult2_eq)
      moreover have "int pos - int k = int (pos - k)" using True by simp
      moreover have "pos - k < pos" "pos - k \<le> ?n" using that \<open>pos \<noteq> 0\<close> less.prems by simp_all
      ultimately show ?thesis using less.IH [of "pos - k"] by (simp only:)
    next
      case False
      then show ?thesis by (simp add: b62_enc_loop.simps)
    qed
    show ?thesis
    proof (cases "30 \<le> unat b mod 32")
      case c: True
      show ?thesis
      proof (cases "6 < pos \<or> 31 < unat b")
        case True
        then show ?thesis
          using c step [of 5] by (simp add: lp ch unat_and31 b enc_nat.simps [of pos] False mod_mod_cancel)
      next
        case False': False
        then have "pos \<le> 6" by simp
        moreover have "?M mod 64 = ?M mod 32"
        proof -
          have "?M mod 64 mod 32 = ?M mod 32" by (simp add: mod_mod_cancel)
          then show ?thesis using False' b by simp
        qed
        ultimately show ?thesis
          using c False' False step [of 6]
          by (simp add: lp ch unat_and31 b enc_nat.simps [of pos] mod_mod_cancel)
      qed
    next
      case False': False
      then show ?thesis
        using step [of 6] False by (simp add: lp ch b enc_nat.simps [of pos])
    qed
  qed
qed

lemma b62_encode_nat: "b62_encode src = map ((!) B62) (enc_nat (8 * length src) (be_val src))"
  using enc_loop_nat [of "8 * length src" src] by (simp add: b62_encode_def mult.commute)

lemma b62_table_nth: "v < 62 \<Longrightarrow> b62_table (B62 ! v) = Some v"
proof -
  assume v: "v < 62"
  have "distinct B62" "length B62 = 62" by (simp_all add: B62_def)
  then show ?thesis
    using map_of_zip_nth [of B62 "[0..<62]" v] v by (simp add: b62_table_def)
qed

section \<open>The decoder's loop\<close>

definition dec_finish :: "dec_state option outcome \<Rightarrow> 8 word list option outcome" where
  "dec_finish r =
     (case r of
        Panic \<Rightarrow> Panic
      | Value None \<Rightarrow> Value None
      | Value (Some st) \<Rightarrow>
          if 0 < d_pos st then
            (case dec_emit st of
               Panic \<Rightarrow> Panic
             | Value st \<Rightarrow> Value (Some (drop (d_idx st) (d_dst st))))
          else Value (Some (drop (d_idx st) (d_dst st))))"

lemma b62_decode_finish:
  "s \<noteq> [] \<Longrightarrow> b62_decode s =
     dec_finish (dec_loop s \<lparr> d_dst = replicate (length s * 6 div 8 + 1) 0, d_idx = length s * 6 div 8 + 1,
                             d_pos = 0, d_b = 0 \<rparr>)"
  by (simp add: b62_decode_def dec_finish_def Let_def)

abbreviation dec_ok :: "dec_state \<Rightarrow> bool" where
  "dec_ok st \<equiv> d_idx st \<le> length (d_dst st)"

abbreviation dec_out :: "dec_state \<Rightarrow> 8 word list" where
  "dec_out st \<equiv> drop (d_idx st) (d_dst st)"

lemma dec_emit_ok:
  assumes "0 < d_idx st" "dec_ok st"
  shows "dec_emit st = Value (st\<lparr> d_idx := d_idx st - 1,
           d_dst := (d_dst st)[d_idx st - 1 := ucast (d_b st AND 255)] \<rparr>)"
  using assms by (simp add: dec_emit_def)

lemma drop_update_prev:
  "0 < i \<Longrightarrow> i \<le> length xs \<Longrightarrow> drop (i - Suc 0) (xs[i - Suc 0 := w]) = w # drop i xs"
  by (cases i) (simp_all add: Cons_nth_drop_Suc [symmetric] drop_update_cancel)

lemma unat_push:
  assumes "unat b < 2 ^ p" "p < 8" "x < 64"
  shows "unat (b OR push_bit p (of_nat x :: 32 word)) = unat b + x * 2 ^ p"
proof -
  have "unat (of_nat x :: 32 word) = x" using assms(3) by (simp add: unat_of_nat)
  moreover have "take_bit 32 (push_bit p x) = push_bit p x"
  proof -
    have "x * 2 ^ p < 64 * 2 ^ 8"
      using assms by (intro mult_less_le_imp_less power_increasing) auto
    then show ?thesis by (simp add: take_bit_nat_eq_self push_bit_eq_mult)
  qed
  ultimately have "unat (b OR push_bit p (of_nat x :: 32 word)) = unat b OR push_bit p x"
    by (simp only: unsigned_or_eq unsigned_push_bit_eq) simp
  then show ?thesis by (simp add: or_add_nat [OF assms(1)])
qed

lemma unat_byte32: "unat (ucast ((w :: 32 word) AND 255) :: 8 word) = unat w mod 256"
proof -
  have "(255 :: 32 word) = mask 8" by (simp add: mask_eq_exp_minus_1)
  then have "w AND 255 = take_bit 8 w" by (simp add: take_bit_eq_mask)
  then have "unat (w AND 255) = take_bit 8 (unat w)" by (simp only: unsigned_take_bit_eq)
  then have "unat (w AND 255) = unat w mod 256" by (simp add: take_bit_eq_mod)
  then show ?thesis by (simp add: take_bit_eq_mod unsigned_ucast_eq)
qed

lemma unat_shift32: "unat (drop_bit 8 (w :: 32 word)) = unat w div 256"
proof -
  have "take_bit 32 (unat w) = unat w"
    using unsigned_less [of w, where ?'a = nat] by (simp add: take_bit_nat_eq_self)
  then show ?thesis by (simp only: unsigned_drop_bit_eq) (simp add: drop_bit_eq_div)
qed

definition dec_byte :: "dec_state \<Rightarrow> dec_state" where
  "dec_byte st = st\<lparr> d_idx := d_idx st - 1,
     d_dst := (d_dst st)[d_idx st - 1 := ucast (d_b st AND 255)],
     d_pos := d_pos st mod 8, d_b := drop_bit 8 (d_b st) \<rparr>"

lemma dec_byte_simps [simp]:
  "d_idx (dec_byte st) = d_idx st - 1" "length (d_dst (dec_byte st)) = length (d_dst st)"
  "d_pos (dec_byte st) = d_pos st mod 8" "unat (d_b (dec_byte st)) = unat (d_b st) div 256"
  by (simp_all add: dec_byte_def unat_shift32)

lemma dec_byte_out:
  "0 < d_idx st \<Longrightarrow> dec_ok st \<Longrightarrow>
   length (dec_out (dec_byte st)) = Suc (length (dec_out st)) \<and>
   be_val (dec_out (dec_byte st)) = be_val (dec_out st) + 256 ^ length (dec_out st) * (unat (d_b st) mod 256)"
  by (simp add: dec_byte_def drop_update_prev unat_byte32 del: length_drop)

lemma dec_push_simps [simp]:
  "d_idx (dec_push x l st) = d_idx st" "d_dst (dec_push x l st) = d_dst st"
  by (simp_all add: dec_push_def)

lemma dec_loop_Cons:
  assumes "x < 62" "0 < d_idx st" "dec_ok st"
  shows "dec_loop (B62 ! x # cs) st =
    (let st = dec_push x (cs = []) st in
     dec_loop cs (if 8 \<le> d_pos st then dec_byte st else st))"
  using assms by (simp add: b62_table_nth dec_emit_ok dec_byte_def Let_def)


lemma dec_loop_last:
  assumes "M < 2 ^ pos" "0 < pos" "pos \<le> 6" "M < 62"
    and "d_pos st < 8" "unat (d_b st) < 2 ^ d_pos st" "(d_pos st + pos) mod 8 = 0"
    and "0 < d_idx st" "dec_ok st"
  shows "\<exists>out. dec_finish (dec_loop [B62 ! M] st) = Value (Some out)
    \<and> length out = Suc (length (dec_out st))
    \<and> be_val out = be_val (dec_out st) + 256 ^ length (dec_out st) * (unat (d_b st) + M * 2 ^ d_pos st)"
proof -
  have p: "d_pos st + pos = 8" using assms(2,3,5,7) by presburger
  define st' where "st' = dec_push M True st"
  have M64: "M < 64" using assms(4) by simp
  have "unat (of_nat M :: 8 word) = M" using assms(4) by (simp add: unat_of_nat)
  then have "bit_len (of_nat M) \<le> pos" using assms(1) by (intro bit_len_le) simp
  then have pos': "d_pos st' \<le> 8" "0 < d_pos st'"
    using p assms(3) by (simp_all add: st'_def dec_push_def)
  have b': "unat (d_b st') = unat (d_b st) + M * 2 ^ d_pos st"
    using unat_push [OF assms(6,5) M64] by (simp add: st'_def dec_push_def)
  have "unat (d_b st') < 256"
  proof -
    have "M * 2 ^ d_pos st + 2 ^ d_pos st \<le> 2 ^ pos * 2 ^ d_pos st"
      using assms(1) by (metis Suc_leI add.commute mult_Suc mult_le_mono1)
    also have "\<dots> = 256" using p by (simp add: add.commute flip: power_add)
    finally show ?thesis using assms(6) b' by linarith
  qed
  then have out: "length (dec_out (dec_byte st')) = Suc (length (dec_out st))"
    "be_val (dec_out (dec_byte st')) = be_val (dec_out st) + 256 ^ length (dec_out st) * unat (d_b st')"
    using dec_byte_out [of st'] assms(8,9) by (simp_all add: st'_def)
  have emit: "dec_emit st' = Value (st'\<lparr> d_idx := d_idx st' - 1,
       d_dst := (d_dst st')[d_idx st' - 1 := ucast (d_b st' AND 255)] \<rparr>)"
    using assms(8,9) by (intro dec_emit_ok) (simp_all add: st'_def)
  have "dec_finish (dec_loop [B62 ! M] st) = Value (Some (dec_out (dec_byte st')))"
  proof (cases "8 \<le> d_pos st'")
    case True
    then show ?thesis
      using pos' dec_loop_Cons [OF assms(4,8,9), of "[]"]
      by (simp add: dec_finish_def flip: st'_def)
  next
    case False
    then show ?thesis
      using pos' dec_loop_Cons [OF assms(4,8,9), of "[]"] emit
      by (simp add: dec_finish_def dec_byte_def flip: st'_def)
  qed
  with out b' show ?thesis by auto
qed

lemma mult_mod_div: "P * (u mod 256) + 256 * P * (u div 256) = P * (u :: nat)"
proof -
  have "P * u = P * (u mod 256 + 256 * (u div 256))" by simp
  also have "\<dots> = P * (u mod 256) + 256 * P * (u div 256)" by (simp only: distrib_left mult_ac)
  finally show ?thesis by simp
qed

lemma dec_step:
  assumes "x < 62" "sz = (if 30 \<le> x mod 32 then 5 else 6)"
    and "d_pos st < 8" "unat (d_b st) < 2 ^ d_pos st" "x < 2 ^ sz"
    and "0 < d_idx st" "dec_ok st" "cs \<noteq> []"
  obtains st' where "dec_loop (B62 ! x # cs) st = dec_loop cs st'"
    "d_pos st' < 8" "unat (d_b st') < 2 ^ d_pos st'" "dec_ok st'"
    "d_idx st' + (d_pos st + sz) div 8 = d_idx st" "d_pos st' = (d_pos st + sz) mod 8"
    "length (dec_out st') = length (dec_out st) + (d_pos st + sz) div 8"
    "be_val (dec_out st') + 256 ^ length (dec_out st') * unat (d_b st')
       = be_val (dec_out st) + 256 ^ length (dec_out st) * (unat (d_b st) + x * 2 ^ d_pos st)"
proof -
  define s1 where "s1 = dec_push x False st"
  have x64: "x < 64" using assms(1) by simp
  have pos1: "d_pos s1 = d_pos st + sz"
    using assms(2) compact_nat32 [OF x64] by (simp add: s1_def dec_push_def)
  have b1: "unat (d_b s1) = unat (d_b st) + x * 2 ^ d_pos st"
    using unat_push [OF assms(4,3) x64] by (simp add: s1_def dec_push_def)
  have lt1: "unat (d_b s1) < 2 ^ d_pos s1"
  proof -
    have "x * 2 ^ d_pos st + 2 ^ d_pos st \<le> 2 ^ sz * 2 ^ d_pos st"
      using assms(5) by (metis Suc_leI add.commute mult_Suc mult_le_mono1)
    then show ?thesis using assms(4) b1 by (simp add: pos1 power_add mult.commute)
  qed
  have lp: "dec_loop (B62 ! x # cs) st = dec_loop cs (if 8 \<le> d_pos s1 then dec_byte s1 else s1)"
    using dec_loop_Cons [OF assms(1,6,7)] assms(8) by (simp add: s1_def Let_def)
  show ?thesis
  proof (cases "8 \<le> d_pos s1")
    case False
    show ?thesis
      by (rule that [of s1]) (use False lp pos1 b1 lt1 assms(7) in \<open>simp_all add: s1_def\<close>)
  next
    case True
    have p: "d_pos s1 < 16" using pos1 assms(2,3) by (simp split: if_splits)
    have div1: "(d_pos st + sz) div 8 = 1" using True p pos1 by simp
    have "2 ^ d_pos s1 = (256 :: nat) * 2 ^ (d_pos s1 mod 8)"
    proof -
      have "d_pos s1 = 8 + d_pos s1 mod 8" using True p by presburger
      then have "(2 :: nat) ^ d_pos s1 = 2 ^ 8 * 2 ^ (d_pos s1 mod 8)" by (metis power_add)
      then show ?thesis by simp
    qed
    then have "unat (d_b s1) div 256 < 2 ^ (d_pos s1 mod 8)"
      using lt1 by (simp add: less_mult_imp_div_less mult.commute)
    moreover have "be_val (dec_out (dec_byte s1)) + 256 ^ length (dec_out (dec_byte s1)) * unat (d_b (dec_byte s1))
        = be_val (dec_out st) + 256 ^ length (dec_out st) * unat (d_b s1)"
    proof -
      let ?P = "(256 :: nat) ^ length (dec_out st)" and ?u = "unat (d_b s1)"
      have "length (dec_out (dec_byte s1)) = Suc (length (dec_out st))"
        "be_val (dec_out (dec_byte s1)) = be_val (dec_out st) + ?P * (?u mod 256)"
        using dec_byte_out [of s1] assms(6,7) by (simp_all add: s1_def)
      moreover have "?P * (?u mod 256) + 256 * ?P * (?u div 256) = ?P * ?u"
        by (rule mult_mod_div)
      ultimately show ?thesis by (simp del: length_drop)
    qed
    moreover have "length (dec_out (dec_byte s1)) = Suc (length (dec_out st))"
      using dec_byte_out [of s1] assms(6,7) by (simp add: s1_def)
    ultimately show ?thesis
      by (intro that [of "dec_byte s1"])
        (use True lp pos1 b1 div1 assms(6,7) in \<open>simp_all add: s1_def del: length_drop\<close>)
  qed
qed


lemma enc_nat_nonempty: "0 < pos \<Longrightarrow> enc_nat pos M \<noteq> []"
  by (subst enc_nat.simps) simp

lemma enc_nat_cases:
  assumes "0 < pos" "M < 2 ^ pos"
  obtains (last) "enc_nat pos M = [M]" "pos \<le> 6" "M < 62"
  | (more) x sz where "enc_nat pos M = x # enc_nat (pos - sz) (M div 2 ^ sz)" "x = M mod 2 ^ sz"
      "sz = (if 30 \<le> x mod 32 then 5 else 6)" "sz < pos" "x < 62"
proof -
  let ?b = "M mod 64"
  have b32: "?b mod 32 = M mod 32" by (simp add: mod_mod_cancel)
  show ?thesis
  proof (cases "30 \<le> M mod 32")
    case c: True
    show ?thesis
    proof (cases "6 < pos \<or> 31 < ?b")
      case True
      have "5 < pos"
      proof (rule ccontr)
        assume "\<not> 5 < pos"
        then have "(2 :: nat) ^ pos \<le> 2 ^ 5" by (intro power_increasing) auto
        then show False using True assms(2) \<open>\<not> 5 < pos\<close> by simp
      qed
      have "M mod 32 < 32" by simp
      show ?thesis
        by (rule more [of "M mod 32" 5])
          (use c True assms(1) b32 \<open>5 < pos\<close> \<open>M mod 32 < 32\<close> in \<open>simp_all add: enc_nat.simps [of pos]\<close>)
    next
      case False
      then have "(2 :: nat) ^ pos \<le> 2 ^ 6" by (intro power_increasing) auto
      then have "M < 64" using assms(2) by simp
      then have "M \<le> 31" using False by simp
      then show ?thesis
        by (intro last) (use c False assms(1) b32 in \<open>simp_all add: enc_nat.simps [of pos]\<close>)
    qed
  next
    case False
    have "?b < 64" by simp
    have b62: "?b < 62"
    proof (rule ccontr)
      assume "\<not> ?b < 62"
      then have "?b = 62 \<or> ?b = 63" using \<open>?b < 64\<close> by linarith
      then show False using False b32 by auto
    qed
    have e: "enc_nat pos M = ?b # enc_nat (pos - 6) (M div 64)"
      using assms(1) False by (subst enc_nat.simps) (simp add: b32)
    show ?thesis
    proof (cases "pos \<le> 6")
      case True
      then have "(2 :: nat) ^ pos \<le> 2 ^ 6" by (intro power_increasing) auto
      then have "M < 64" using assms(2) by simp
      then show ?thesis using True e b62 by (intro last) simp_all
    next
      case pos: False
      show ?thesis
        by (rule more [of ?b 6]) (use False b32 b62 e pos in simp_all)
    qed
  qed
qed

lemma join_val:
  fixes A A' P P' b b' x q q' m t v :: nat
  assumes "A' + P' * b' = A + P * (b + x * q)" "P' * q' = P * (t * q)" "v = A' + P' * (b' + m * q')"
  shows "v = A + P * (b + (x + m * t) * q)"
proof -
  have "v = (A' + P' * b') + m * (P' * q')" by (simp add: assms(3) algebra_simps)
  then show ?thesis by (simp only: assms(1,2)) (simp add: algebra_simps)
qed

lemma enc_nat_length: "pos \<le> 6 * length (enc_nat pos M)"
proof (induction pos M rule: enc_nat.induct)
  case (1 pos M)
  then show ?case by (subst enc_nat.simps) auto
qed

lemma dec_loop_enc:
  assumes "0 < pos" "M < 2 ^ pos"
    and "d_pos st < 8" "unat (d_b st) < 2 ^ d_pos st" "(d_pos st + pos) mod 8 = 0"
    and "(d_pos st + pos) div 8 \<le> d_idx st" "dec_ok st"
  shows "\<exists>out. dec_finish (dec_loop (map ((!) B62) (enc_nat pos M)) st) = Value (Some out)
    \<and> length out = length (dec_out st) + (d_pos st + pos) div 8
    \<and> be_val out = be_val (dec_out st) + 256 ^ length (dec_out st) * (unat (d_b st) + M * 2 ^ d_pos st)"
  using assms
proof (induction pos arbitrary: M st rule: less_induct)
  case (less pos)
  note prems = less.prems
  have idx: "0 < d_idx st"
  proof (rule ccontr)
    assume "\<not> 0 < d_idx st"
    then have "(d_pos st + pos) div 8 = 0" using prems(6) by simp
    then show False using prems(1,5) by (simp add: div_eq_0_iff)
  qed
  from prems(1,2) show ?case
  proof (cases rule: enc_nat_cases)
    case last
    then have "d_pos st + pos = 8" using prems(1,3,5) by presburger
    then show ?thesis
      using dec_loop_last [of M pos st] last prems idx by (simp del: length_drop)
  next
    case (more x sz)
    define rest where "rest = map ((!) B62) (enc_nat (pos - sz) (M div 2 ^ sz))"
    have "rest \<noteq> []" using more(4) enc_nat_nonempty [of "pos - sz"] by (simp add: rest_def)
    have "x < 2 ^ sz" using more(2) by simp
    obtain st' where lp: "dec_loop (B62 ! x # rest) st = dec_loop rest st'"
      and st': "d_pos st' < 8" "unat (d_b st') < 2 ^ d_pos st'" "dec_ok st'"
      and ix: "d_idx st' + (d_pos st + sz) div 8 = d_idx st" and pos': "d_pos st' = (d_pos st + sz) mod 8"
      and len: "length (dec_out st') = length (dec_out st) + (d_pos st + sz) div 8"
      and val: "be_val (dec_out st') + 256 ^ length (dec_out st') * unat (d_b st')
       = be_val (dec_out st) + 256 ^ length (dec_out st) * (unat (d_b st) + x * 2 ^ d_pos st)"
      by (rule dec_step [OF more(5,3) prems(3,4) \<open>x < 2 ^ sz\<close> idx prems(7) \<open>rest \<noteq> []\<close>])
    have total: "d_pos st + pos = 8 * ((d_pos st + sz) div 8) + (d_pos st' + (pos - sz))"
      using more(4) pos' by simp
    have sub: "0 < pos - sz" "pos - sz < pos" "M div 2 ^ sz < 2 ^ (pos - sz)"
      using more(3,4) prems(2) by (auto simp: less_mult_imp_div_less simp flip: power_add split: if_splits)
    have dm: "(d_pos st' + (pos - sz)) mod 8 = 0"
      "(d_pos st + pos) div 8 = (d_pos st + sz) div 8 + (d_pos st' + (pos - sz)) div 8"
      using prems(5) by (simp_all add: total)
    have ix': "(d_pos st' + (pos - sz)) div 8 \<le> d_idx st'" using prems(6) dm(2) ix by linarith
    obtain out where o: "dec_finish (dec_loop rest st') = Value (Some out)"
      "length out = length (dec_out st') + (d_pos st' + (pos - sz)) div 8"
      "be_val out = be_val (dec_out st') + 256 ^ length (dec_out st') * (unat (d_b st') + M div 2 ^ sz * 2 ^ d_pos st')"
      using less.IH [OF sub(2,1,3) st'(1,2) dm(1) ix' st'(3)] unfolding rest_def by blast
    have "256 ^ length (dec_out st') * 2 ^ d_pos st' = (256 :: nat) ^ length (dec_out st) * 2 ^ (d_pos st + sz)"
    proof -
      have "(2 :: nat) ^ (d_pos st + sz) = 256 ^ ((d_pos st + sz) div 8) * 2 ^ d_pos st'"
      proof -
        have "(256 :: nat) ^ ((d_pos st + sz) div 8) = 2 ^ (8 * ((d_pos st + sz) div 8))"
          by (simp add: power_mult)
        moreover have "d_pos st + sz = 8 * ((d_pos st + sz) div 8) + d_pos st'" using pos' by simp
        ultimately show ?thesis by (metis power_add)
      qed
      then show ?thesis by (simp add: len power_add del: length_drop)
    qed
    then have PP: "256 ^ length (dec_out st') * 2 ^ d_pos st'
        = (256 :: nat) ^ length (dec_out st) * (2 ^ sz * 2 ^ d_pos st)"
      by (simp add: power_add mult.commute)
    have "be_val out = be_val (dec_out st)
        + 256 ^ length (dec_out st) * (unat (d_b st) + (x + M div 2 ^ sz * 2 ^ sz) * 2 ^ d_pos st)"
      by (rule join_val [OF val PP o(3)])
    moreover have "x + M div 2 ^ sz * 2 ^ sz = M" using more(2) by (simp only: mod_div_mult_eq)
    moreover have "length out = length (dec_out st) + (d_pos st + pos) div 8"
      using o(2) len dm(2) by simp
    moreover have "map ((!) B62) (enc_nat pos M) = B62 ! x # rest" by (simp add: more(1) rest_def)
    ultimately show ?thesis using o(1) lp by simp
  qed
qed

lemma dec_loop_no_panic:
  assumes "d_pos st < 8" "(6 * length cs + d_pos st) div 8 < d_idx st" "dec_ok st"
  shows "dec_finish (dec_loop cs st) \<noteq> Panic"
  using assms
proof (induction cs arbitrary: st)
  case Nil
  then show ?case by (auto simp: dec_finish_def dec_emit_def)
next
  case (Cons c cs)
  show ?case
  proof (cases "b62_table c")
    case None
    then show ?thesis by (simp add: dec_finish_def)
  next
    case (Some x)
    then have x: "x < 62" by (auto simp: b62_table_def dest!: map_of_SomeD set_zip_rightD)
    define s1 where "s1 = dec_push x (cs = []) st"
    have "unat (of_nat x :: 8 word) < 2 ^ 6" using x by (simp add: unat_of_nat)
    then have "bit_len (of_nat x) \<le> 6" by (rule bit_len_le)
    then have p: "d_pos s1 \<le> d_pos st + 6" by (simp add: s1_def dec_push_def)
    have i: "0 < d_idx s1" "dec_ok s1" using Cons.prems by (simp_all add: s1_def)
    show ?thesis
    proof (cases "8 \<le> d_pos s1")
      case True
      have "dec_loop (c # cs) st = dec_loop cs (dec_byte s1)"
        using True Some dec_emit_ok [OF i] by (simp add: dec_byte_def flip: s1_def)
      moreover have "(6 * length cs + d_pos s1 mod 8) div 8 < d_idx s1 - 1"
      proof -
        have "d_pos s1 mod 8 = d_pos s1 - 8" using p True Cons.prems(1) by (subst le_mod_geq) simp_all
        then have "(6 * length cs + d_pos s1 mod 8 + 8) div 8 \<le> (6 * length (c # cs) + d_pos st) div 8"
          using p True by (intro div_le_mono) simp
        then show ?thesis using Cons.prems(2) by (simp add: s1_def del: length_Cons)
      qed
      ultimately show ?thesis using Cons.IH [of "dec_byte s1"] i by simp
    next
      case False
      have "dec_loop (c # cs) st = dec_loop cs s1"
        using False Some by (simp flip: s1_def)
      moreover have "(6 * length cs + d_pos s1) div 8 \<le> (6 * length (c # cs) + d_pos st) div 8"
        using p by (intro div_le_mono) simp
      then have "(6 * length cs + d_pos s1) div 8 < d_idx s1"
        using Cons.prems(2) by (simp add: s1_def del: length_Cons)
      ultimately show ?thesis using Cons.IH [of s1] False i by simp
    qed
  qed
qed


lemma b62_decode_encode: "b62_decode (b62_encode bs) = Value (Some bs)"
proof (cases "bs = []")
  case True
  then show ?thesis by (simp add: b62_encode_def b62_enc_loop.simps b62_decode_def)
next
  case False
  let ?e = "enc_nat (8 * length bs) (be_val bs)"
  let ?n = "length ?e * 6 div 8 + 1"
  let ?st = "\<lparr> d_dst = replicate ?n 0, d_idx = ?n, d_pos = 0, d_b = 0 :: 32 word \<rparr>"
  have ne: "b62_encode bs \<noteq> []" using False enc_nat_nonempty by (simp add: b62_encode_nat)
  have lt: "be_val bs < 2 ^ (8 * length bs)" using be_val_lt [of bs] by (simp add: power_mult)
  have "length bs \<le> ?n" using enc_nat_length [of "8 * length bs" "be_val bs"] by simp
  then obtain out where "dec_finish (dec_loop (b62_encode bs) ?st) = Value (Some out)"
      "length out = length bs" "be_val out = be_val bs"
    using dec_loop_enc [of "8 * length bs" "be_val bs" ?st] False lt
    by (auto simp: b62_encode_nat)
  then show ?thesis
    using be_val_inj [of out bs] b62_decode_finish [OF ne] by (simp add: b62_encode_nat)
qed

section \<open>Properties\<close>

text \<open>For every string the decoder returns: its output index never passes
  the start of the buffer it allocated, so no input makes it panic.\<close>

theorem b62_decode_no_panic: "b62_decode s \<noteq> Panic"
proof (cases "s = []")
  case False
  show ?thesis
    unfolding b62_decode_finish [OF False]
    by (rule dec_loop_no_panic) (simp_all add: mult.commute)
qed (simp add: b62_decode_def)

text \<open>C16: decoding the base62 encoding of any byte sequence gives that byte
  sequence back, with no leading zero byte lost or added.\<close>

theorem b62_round_trip: "b62_decode (b62_encode bs) = Value (Some bs)"
  by (rule b62_decode_encode)

end
