(* ===== verification/Core_Types.thy ===== *)
theory Core_Types
  imports LK_Prelude
begin

text \<open>
  Identifiers, versions and the small enumerations of \<open>lk-server/src/core.rs\<close>,
  and the published track of \<open>lk-server/src/track.rs\<close>.  The random index drawn
  by the generator and the clock are arguments.  A \<open>TimedVersion\<close> is ordered
  lexicographically, the order in which clients compare versions.
\<close>

section \<open>Clock and identifiers\<close>

definition unix_millis :: "int \<Rightarrow> int" where
  "unix_millis us = us sdiv 1000"

definition unix_seconds :: "int \<Rightarrow> int" where
  "unix_seconds us = us sdiv 1000000"

definition id_alphabet :: string where
  "id_alphabet = ''abcdefghijklmnopqrstuvwxyzABCDEFGHIJKLMNOPQRSTUVWXYZ0123456789''"

definition generate_id :: "string \<Rightarrow> nat list \<Rightarrow> string" where
  "generate_id prefix idxs = prefix @ map (\<lambda>i. id_alphabet ! i) idxs"

text \<open>What \<open>rng.gen_range(0..ALPHABET.len())\<close> yields in twelve draws.\<close>

definition id_draws :: "nat list \<Rightarrow> bool" where
  "id_draws idxs \<longleftrightarrow> length idxs = 12 \<and> (\<forall>i \<in> set idxs. i < length id_alphabet)"

definition new_room_sid :: "nat list \<Rightarrow> string" where
  "new_room_sid idxs = generate_id ''RM_'' idxs"

definition new_participant_sid :: "nat list \<Rightarrow> string" where
  "new_participant_sid idxs = generate_id ''PA_'' idxs"

definition new_track_sid :: "nat list \<Rightarrow> string" where
  "new_track_sid idxs = generate_id ''TR_'' idxs"

definition new_dispatch_id :: "nat list \<Rightarrow> string" where
  "new_dispatch_id idxs = generate_id ''DA_'' idxs"

definition new_worker_id :: "nat list \<Rightarrow> string" where
  "new_worker_id idxs = generate_id ''LW_'' idxs"

definition new_job_id :: "nat list \<Rightarrow> string" where
  "new_job_id idxs = generate_id ''LJ_'' idxs"

section \<open>Versions\<close>

datatype timed_version = TimedVersion (unix_micro: int) (ticks: int)

definition tv_new :: "int \<Rightarrow> timed_version" where
  "tv_new now = TimedVersion now 0"

definition tv_bump :: "int \<Rightarrow> timed_version \<Rightarrow> timed_version" where
  "tv_bump now v =
     (if now = unix_micro v then TimedVersion (unix_micro v) (ticks v + 1)
      else TimedVersion now 0)"

text \<open>
  \<open>VersionCounter\<close> wraps an \<open>AtomicI64\<close>: the stored value is read and
  incremented, and the value read, at least 1, is truncated to \<open>u32\<close>.
\<close>

type_synonym version_counter = "64 word"

definition vc_next :: "version_counter \<Rightarrow> 32 word \<times> version_counter" where
  "vc_next c = (word_of_int (max (sint c) 1), c + 1)"

definition vc_get :: "version_counter \<Rightarrow> 32 word" where
  "vc_get c = word_of_int (sint c)"

fun vc_calls :: "nat \<Rightarrow> version_counter \<Rightarrow> 32 word list" where
  "vc_calls 0 c = []"
| "vc_calls (Suc n) c = (let (v, c') = vc_next c in v # vc_calls n c')"

section \<open>Participant state and kind\<close>

datatype participant_state = Joining | Joined | Active | Disconnected

fun state_u8 :: "participant_state \<Rightarrow> nat" where
  "state_u8 Joining = 0"
| "state_u8 Joined = 1"
| "state_u8 Active = 2"
| "state_u8 Disconnected = 3"

fun state_of_u8 :: "nat \<Rightarrow> participant_state" where
  "state_of_u8 n =
     (if n = 1 then Joined else if n = 2 then Active else if n = 3 then Disconnected else Joining)"

datatype participant_kind = Standard | Ingress | Egress | Sip | Agent | Connector | Bridge

fun kind_to_proto :: "participant_kind \<Rightarrow> int" where
  "kind_to_proto Standard = 0"
| "kind_to_proto Ingress = 1"
| "kind_to_proto Egress = 2"
| "kind_to_proto Sip = 3"
| "kind_to_proto Agent = 4"
| "kind_to_proto Connector = 7"
| "kind_to_proto Bridge = 8"

definition kind_from_proto :: "int \<Rightarrow> participant_kind" where
  "kind_from_proto v =
     (if v = 1 then Ingress else if v = 2 then Egress else if v = 3 then Sip
      else if v = 4 then Agent else if v = 7 then Connector else if v = 8 then Bridge
      else Standard)"

definition is_dependent :: "participant_kind \<Rightarrow> bool" where
  "is_dependent k \<longleftrightarrow> k = Agent \<or> k = Egress"

section \<open>Published tracks\<close>

datatype track_source = Unknown | Camera | Microphone | ScreenShare | ScreenShareAudio

fun source_to_proto :: "track_source \<Rightarrow> int" where
  "source_to_proto Unknown = 0"
| "source_to_proto Camera = 1"
| "source_to_proto Microphone = 2"
| "source_to_proto ScreenShare = 3"
| "source_to_proto ScreenShareAudio = 4"

definition source_from_proto :: "int \<Rightarrow> track_source" where
  "source_from_proto v =
     (if v = 1 then Camera else if v = 2 then Microphone else if v = 3 then ScreenShare
      else if v = 4 then ScreenShareAudio else Unknown)"

fun source_str :: "track_source \<Rightarrow> string" where
  "source_str Unknown = ''unknown''"
| "source_str Camera = ''camera''"
| "source_str Microphone = ''microphone''"
| "source_str ScreenShare = ''screen_share''"
| "source_str ScreenShareAudio = ''screen_share_audio''"

definition source_from_str :: "string \<Rightarrow> int" where
  "source_from_str s =
     (let u = to_uppercase s in
      if u = ''CAMERA'' then 1 else if u = ''MICROPHONE'' then 2
      else if u = ''SCREEN_SHARE'' then 3 else if u = ''SCREEN_SHARE_AUDIO'' then 4 else 0)"

record track =
  t_sid :: string
  t_cid :: string
  t_name :: string
  t_source :: track_source
  t_stream :: string
  t_muted :: bool
  t_mime :: string
  t_mid :: "string option"
  t_version :: timed_version
  t_red_enabled :: bool
  t_encryption :: int
  t_stereo :: bool
  t_disable_dtx :: bool
  t_audio_features :: "int list"
  t_backup_codec_policy :: int

definition track_new :: "nat list \<Rightarrow> int \<Rightarrow> string \<Rightarrow> string \<Rightarrow> track_source \<Rightarrow> string \<Rightarrow> track" where
  "track_new idxs now nm cid src strm =
     \<lparr> t_sid = new_track_sid idxs, t_cid = cid, t_name = nm, t_source = src, t_stream = strm,
       t_muted = False, t_mime = ''audio/opus'', t_mid = None, t_version = tv_new now,
       t_red_enabled = False, t_encryption = 0, t_stereo = False, t_disable_dtx = False,
       t_audio_features = [], t_backup_codec_policy = 0 \<rparr>"

definition track_bump_version :: "int \<Rightarrow> track \<Rightarrow> track" where
  "track_bump_version now t = t\<lparr> t_version := tv_bump now (t_version t) \<rparr>"

definition track_set_muted :: "int \<Rightarrow> bool \<Rightarrow> track \<Rightarrow> bool \<times> track" where
  "track_set_muted now muted t =
     (let prev = t_muted t;
          t' = t\<lparr> t_muted := muted \<rparr>
      in (prev \<noteq> muted, if prev \<noteq> muted then track_bump_version now t' else t'))"

definition track_set_mime :: "string \<Rightarrow> track \<Rightarrow> track" where
  "track_set_mime m t = t\<lparr> t_mime := m \<rparr>"

definition track_set_mid :: "string option \<Rightarrow> track \<Rightarrow> track" where
  "track_set_mid m t = t\<lparr> t_mid := m \<rparr>"

record track_info =
  ti_sid :: string
  ti_type :: int
  ti_name :: string
  ti_muted :: bool
  ti_source :: int
  ti_disable_dtx :: bool
  ti_mime_type :: string
  ti_mid :: string
  ti_stereo :: bool
  ti_disable_red :: bool
  ti_encryption :: int
  ti_version :: "timed_version option"
  ti_stream :: string
  ti_audio_features :: "int list"
  ti_backup_codec_policy :: int

definition track_type_audio :: int where
  "track_type_audio = 0"

definition track_to_proto :: "track \<Rightarrow> track_info" where
  "track_to_proto t =
     \<lparr> ti_sid = t_sid t, ti_type = track_type_audio, ti_name = t_name t, ti_muted = t_muted t,
       ti_source = source_to_proto (t_source t), ti_disable_dtx = t_disable_dtx t,
       ti_mime_type = t_mime t, ti_mid = (case t_mid t of None \<Rightarrow> [] | Some m \<Rightarrow> m),
       ti_stereo = t_stereo t, ti_disable_red = (\<not> t_red_enabled t),
       ti_encryption = t_encryption t, ti_version = Some (t_version t), ti_stream = t_stream t,
       ti_audio_features = t_audio_features t,
       ti_backup_codec_policy = t_backup_codec_policy t \<rparr>"

section \<open>Orders\<close>

instantiation timed_version :: linorder
begin

definition less_eq_timed_version :: "timed_version \<Rightarrow> timed_version \<Rightarrow> bool" where
  "less_eq_timed_version v w \<longleftrightarrow>
     unix_micro v < unix_micro w \<or> (unix_micro v = unix_micro w \<and> ticks v \<le> ticks w)"

definition less_timed_version :: "timed_version \<Rightarrow> timed_version \<Rightarrow> bool" where
  "less_timed_version v w \<longleftrightarrow>
     unix_micro v < unix_micro w \<or> (unix_micro v = unix_micro w \<and> ticks v < ticks w)"

instance
  by standard (auto simp: less_eq_timed_version_def less_timed_version_def timed_version.expand)

end

instantiation participant_state :: linorder
begin

definition less_eq_participant_state :: "participant_state \<Rightarrow> participant_state \<Rightarrow> bool" where
  "less_eq_participant_state a b \<longleftrightarrow> state_u8 a \<le> state_u8 b"

definition less_participant_state :: "participant_state \<Rightarrow> participant_state \<Rightarrow> bool" where
  "less_participant_state a b \<longleftrightarrow> state_u8 a < state_u8 b"

instance
proof
  fix a b :: participant_state
  assume "a \<le> b" "b \<le> a"
  then show "a = b"
    by (cases a; cases b) (simp_all add: less_eq_participant_state_def)
qed (auto simp: less_eq_participant_state_def less_participant_state_def)

end

section \<open>Lemmas\<close>

lemma state_of_u8_u8 [simp]: "state_of_u8 (state_u8 s) = s"
  by (cases s) auto

lemma kind_round_trip [simp]: "kind_from_proto (kind_to_proto k) = k"
  by (cases k) (simp_all add: kind_from_proto_def)

lemma source_round_trip [simp]: "source_from_proto (source_to_proto s) = s"
  by (cases s) (simp_all add: source_from_proto_def)

lemma length_id_alphabet: "length id_alphabet = 62"
  by (simp add: id_alphabet_def)

lemma distinct_id_alphabet: "distinct id_alphabet"
  by (simp add: id_alphabet_def)

lemma generate_id_inj:
  assumes "id_draws xs" "id_draws ys"
  shows "generate_id p xs = generate_id p ys \<longleftrightarrow> xs = ys"
proof -
  have "inj_on (\<lambda>i. id_alphabet ! i) {i. i < length id_alphabet}"
    using distinct_id_alphabet by (auto simp: inj_on_def nth_eq_iff_index_eq)
  then have "inj_on (\<lambda>i. id_alphabet ! i) (set xs \<union> set ys)"
    using assms by (auto simp: id_draws_def intro: inj_on_subset)
  then show ?thesis
    unfolding generate_id_def by (simp add: inj_on_map_eq_map)
qed

lemma length_generate_id: "id_draws xs \<Longrightarrow> length (generate_id p xs) = length p + 12"
  by (simp add: generate_id_def id_draws_def)

text \<open>The version order is exactly the order of the clock: a bump moves a
  version up if the clock did not go backwards, and down if it did.\<close>

lemma tv_bump_less_iff: "v < tv_bump now v \<longleftrightarrow> unix_micro v \<le> now"
  by (cases v) (auto simp: tv_bump_def less_timed_version_def)

lemma tv_bump_neq [simp]: "tv_bump now v \<noteq> v"
  by (cases v) (auto simp: tv_bump_def)

lemma vc_calls_from:
  assumes "sint c = int k" "k + n \<le> 2 ^ 63 - 1"
  shows "vc_calls n c = map (\<lambda>i. of_nat (max i 1)) [k ..< k + n]"
  using assms
proof (induction n arbitrary: c k)
  case 0
  then show ?case by simp
next
  case (Suc n)
  have c: "c = word_of_int (int k)"
    using Suc.prems(1) by (metis scast_eq scast_id)
  have s: "sint (c + 1) = int (Suc k)"
  proof -
    have "c + 1 = word_of_int (int (Suc k))" by (simp add: c)
    moreover have "int (Suc k) < 2 ^ 63" using Suc.prems(2) by simp
    ultimately show ?thesis
      by (simp only: sint_sbintrunc') (simp add: signed_take_bit_int_eq_self)
  qed
  have "max (int k) 1 = int (max k 1)" by simp
  moreover have "[k ..< k + Suc n] = k # [Suc k ..< Suc k + n]" by (simp add: upt_conv_Cons)
  moreover have "vc_calls n (c + 1) = map (\<lambda>i. of_nat (max i 1)) [Suc k ..< Suc k + n]"
    using Suc.IH [OF s] Suc.prems(2) by simp
  ultimately show ?case
    by (simp add: vc_next_def Suc.prems(1))
qed

lemma track_set_muted_flag: "fst (track_set_muted now m t) \<longleftrightarrow> t_muted t \<noteq> m"
  by (simp add: track_set_muted_def Let_def)

lemma track_set_muted_immut [simp, immut_simps]:
  "t_sid (snd (track_set_muted now m t)) = t_sid t"
  "t_cid (snd (track_set_muted now m t)) = t_cid t"
  "t_muted (snd (track_set_muted now m t)) = m"
  by (simp_all add: track_set_muted_def track_bump_version_def Let_def)

lemma track_set_muted_idem:
  "track_set_muted now' m (snd (track_set_muted now m t)) = (False, snd (track_set_muted now m t))"
  by (simp add: track_set_muted_def track_bump_version_def Let_def)

end
