(* ===== verification/Turn.thy ===== *)
theory Turn
  imports Base62 Core_Types
begin

text \<open>
  The credentials of the embedded TURN server (\<open>lk-server/src/turn.rs\<close>): the
  user name and password derived from an API key, the handler that
  authenticates a TURN request, and the ICE servers advertised to a joining
  participant.  SHA-256 and webrtc's \<open>generate_auth_key\<close> are arguments, and so
  is the printed external address of the node.
\<close>

section \<open>Credentials\<close>

definition turn_username :: "string \<Rightarrow> string \<Rightarrow> int \<Rightarrow> string" where
  "turn_username api_key participant_id expiry =
     b62_encode (str_bytes (api_key @ ''|'' @ participant_id @ ''|'' @ show_int expiry))"

definition turn_password ::
    "(8 word list \<Rightarrow> 8 word list) \<Rightarrow> string \<Rightarrow> string \<Rightarrow> int \<Rightarrow> string" where
  "turn_password sha256 secret participant_id expiry =
     b62_encode (sha256 (str_bytes (secret @ ''|'' @ participant_id @ ''|'' @ show_int expiry)))"

datatype turn_error = ErrNoSuchUser

definition auth_handle ::
    "(8 word list \<Rightarrow> 8 word list) \<Rightarrow> (string \<Rightarrow> string \<Rightarrow> string \<Rightarrow> 8 word list)
     \<Rightarrow> (string, string) assoc \<Rightarrow> string \<Rightarrow> string \<Rightarrow> (turn_error, 8 word list) result outcome" where
  "auth_handle sha256 generate_auth_key keys username realm =
     (case b62_decode username of
        Panic \<Rightarrow> Panic
      | Value None \<Rightarrow> Value (Inl ErrNoSuchUser)
      | Value (Some bytes) \<Rightarrow>
          if \<not> utf8_valid bytes then Value (Inl ErrNoSuchUser)
          else
            (case split_on (CHR ''|'') (bytes_str bytes) of
               [k, pid, e] \<Rightarrow>
                 (case parse_signed 64 e of
                    None \<Rightarrow> Value (Inl ErrNoSuchUser)
                  | Some expiry \<Rightarrow>
                      if expiry = 0 then Value (Inl ErrNoSuchUser)
                      else
                        (case look keys k of
                           None \<Rightarrow> Value (Inl ErrNoSuchUser)
                         | Some secret \<Rightarrow>
                             Value (Inr (generate_auth_key username realm
                                           (turn_password sha256 secret pid expiry)))))
             | _ \<Rightarrow> Value (Inl ErrNoSuchUser)))"

record turn_config =
  tc_enabled :: bool
  tc_udp_port :: nat
  tc_ttl :: int
  tc_domain :: string

record ice_server =
  is_urls :: "string list"
  is_username :: string
  is_credential :: string

definition ice_servers ::
    "(8 word list \<Rightarrow> 8 word list) \<Rightarrow> int \<Rightarrow> string \<Rightarrow> turn_config \<Rightarrow> (string, string) assoc
     \<Rightarrow> string \<Rightarrow> ice_server list" where
  "ice_servers sha256 now_us external_ip cfg keys participant_id =
     (if \<not> tc_enabled cfg \<or> tc_udp_port cfg = 0 then []
      else
        (case keys of
           [] \<Rightarrow> []
         | (api_key, secret) # _ \<Rightarrow>
             let expiry = unix_seconds now_us + max (tc_ttl cfg) 1;
                 host = (if tc_domain cfg = [] then external_ip else tc_domain cfg)
             in [\<lparr> is_urls = [''turn:'' @ host @ '':'' @ show_nat (tc_udp_port cfg) @ ''?transport=udp''],
                   is_username = turn_username api_key participant_id expiry,
                   is_credential = turn_password sha256 secret participant_id expiry \<rparr>]))"

section \<open>Lemmas\<close>

lemma str_bytes_append: "str_bytes (a @ b) = str_bytes a @ str_bytes b"
  by (simp add: str_bytes_def)

lemma utf8_ascii:
  assumes "\<forall>c \<in> set s. of_char c < (128 :: nat)"
  shows "utf8_valid (str_bytes s)"
  using assms
proof (induction s)
  case Nil
  then show ?case by (simp add: str_bytes_def utf8_valid.simps)
next
  case (Cons c s)
  then show ?case by (subst utf8_valid.simps) (simp add: str_bytes_def unat_of_char)
qed

lemma show_int_chars: "c \<in> set (show_int i) \<Longrightarrow> is_digit c \<or> c = CHR ''-''"
  using show_nat_digits [of "nat i"] show_nat_digits [of "nat (- i)"]
  by (auto simp: show_int_def list_all_iff split: if_splits)

lemma show_int_no_bar [simp]: "CHR ''|'' \<notin> set (show_int i)"
  using show_int_chars [of "CHR ''|''" i] by (auto simp: is_digit_def)

lemma show_int_ascii: "c \<in> set (show_int i) \<Longrightarrow> of_char c < (128 :: nat)"
  using show_int_chars [of c i] by (auto simp: is_digit_def)

lemma auth_handle_issued:
  assumes "look keys k = Some secret"
    and "CHR ''|'' \<notin> set k" "CHR ''|'' \<notin> set pid"
    and "utf8_valid (str_bytes k)" "utf8_valid (str_bytes pid)"
    and "e \<noteq> 0" "- (2 ^ 63) \<le> e" "e < 2 ^ 63"
  shows "auth_handle sha256 gak keys (turn_username k pid e) realm
         = Value (Inr (gak (turn_username k pid e) realm (turn_password sha256 secret pid e)))"
proof -
  let ?s = "k @ ''|'' @ pid @ ''|'' @ show_int e"
  have "b62_decode (turn_username k pid e) = Value (Some (str_bytes ?s))"
    by (simp only: turn_username_def b62_decode_encode)
  moreover have "utf8_valid (str_bytes ?s)"
  proof -
    have bar: "utf8_valid (str_bytes ''|'')" by (rule utf8_ascii) simp
    have num: "utf8_valid (str_bytes (show_int e))" by (rule utf8_ascii) (use show_int_ascii in blast)
    show ?thesis
      using assms(4,5) bar num by (simp only: str_bytes_append utf8_valid_append)
  qed
  moreover have "split_on (CHR ''|'') ?s = [k, pid, show_int e]"
    using assms(2,3) by (simp add: split_on_append)
  moreover have "parse_signed 64 (show_int e) = Some e"
    using assms(7,8) by (intro parse_signed_show_int) simp_all
  ultimately show ?thesis
    using assms(1,6) by (simp add: auth_handle_def)
qed

section \<open>Properties\<close>

text \<open>C29: the credentials put into a join response authenticate: for every ICE
  server the node advertises, the TURN handler accepts its user name, whatever
  the realm, with the key derived from exactly the credential that was
  advertised.  The API keys and the participant id hold no bar character, and
  the clock is a positive time.\<close>

theorem advertised_credentials_authenticate:
  assumes "s \<in> set (ice_servers sha256 now_us ip cfg keys pid)"
    and "keys_distinct keys"
    and "\<forall>(k, secret) \<in> set keys. CHR ''|'' \<notin> set k \<and> utf8_valid (str_bytes k)"
    and "CHR ''|'' \<notin> set pid" "utf8_valid (str_bytes pid)"
    and "0 \<le> now_us" "now_us < 2 ^ 63" "tc_ttl cfg < 2 ^ 31"
  shows "auth_handle sha256 gak keys (is_username s) realm
         = Value (Inr (gak (is_username s) realm (is_credential s)))"
proof -
  define e where "e = unix_seconds now_us + max (tc_ttl cfg) 1"
  from assms(1) obtain k secret rest where keys: "keys = (k, secret) # rest"
    and s: "is_username s = turn_username k pid e" "is_credential s = turn_password sha256 secret pid e"
    by (auto simp: ice_servers_def e_def Let_def split: if_splits list.splits prod.splits)
  have "0 \<le> unix_seconds now_us" "unix_seconds now_us < 2 ^ 62"
    using assms(6,7) by (auto simp: unix_seconds_def signed_divide_int_def sgn_if)
  then have e: "e \<noteq> 0" "- (2 ^ 63) \<le> e" "e < 2 ^ 63"
    using assms(8) by (auto simp: e_def max_def)
  have "look keys k = Some secret" by (simp add: keys look_def)
  moreover have "CHR ''|'' \<notin> set k" "utf8_valid (str_bytes k)"
    using assms(3) by (auto simp: keys)
  ultimately show ?thesis
    unfolding s using assms(4,5) e by (intro auth_handle_issued)
qed

text \<open>C29 applied to one key, a one-hour lifetime and a concrete clock.\<close>

theorem advertised_credentials_authenticate_witness:
  "auth_handle (\<lambda>bs. bs) (\<lambda>u r p. str_bytes (u @ r @ p)) [(''devkey'', ''secret'')]
     (is_username (hd (ice_servers (\<lambda>bs. bs) 1700000000000000 ''10.0.0.1''
        \<lparr> tc_enabled = True, tc_udp_port = 3478, tc_ttl = 3600, tc_domain = [] \<rparr>
        [(''devkey'', ''secret'')] ''PA_x''))) ''livekit''
   = Value (Inr (str_bytes
       (is_username (hd (ice_servers (\<lambda>bs. bs) 1700000000000000 ''10.0.0.1''
        \<lparr> tc_enabled = True, tc_udp_port = 3478, tc_ttl = 3600, tc_domain = [] \<rparr>
        [(''devkey'', ''secret'')] ''PA_x''))
        @ ''livekit''
        @ is_credential (hd (ice_servers (\<lambda>bs. bs) 1700000000000000 ''10.0.0.1''
        \<lparr> tc_enabled = True, tc_udp_port = 3478, tc_ttl = 3600, tc_domain = [] \<rparr>
        [(''devkey'', ''secret'')] ''PA_x'')))))"
proof -
  let ?cfg = "\<lparr> tc_enabled = True, tc_udp_port = 3478, tc_ttl = 3600, tc_domain = [] \<rparr>"
  let ?srv = "ice_servers (\<lambda>bs. bs) 1700000000000000 ''10.0.0.1'' ?cfg [(''devkey'', ''secret'')] ''PA_x''"
  have hd: "hd ?srv \<in> set ?srv"
    by (simp add: ice_servers_def Let_def)
  have utf8: "utf8_valid (str_bytes ''devkey'')" "utf8_valid (str_bytes ''PA_x'')"
    by (rule utf8_ascii, simp)+
  show ?thesis
    by (rule advertised_credentials_authenticate [OF hd]) (use utf8 in \<open>simp_all add: keys_distinct_def\<close>)
qed

end
