(* ===== verification/Wkt_Serde.thy ===== *)
theory Wkt_Serde
  imports LK_Strings
begin

text \<open>
  The JSON form of protobuf's \<open>Timestamp\<close> and \<open>Duration\<close>
  (\<open>lk-proto/src/wkt_serde.rs\<close>): the conversion between days and civil dates,
  printing and parsing.  Integers are unbounded; the numbers of a parsed text
  are range-checked where the code parses them (\<open>i64\<close>, \<open>i32\<close>), and sums of
  parsed numbers beyond \<open>i64\<close> are outside the model.  Error messages are the
  constructors of \<open>ts_error\<close>.
\<close>

section \<open>Civil dates\<close>

definition days_from_civil :: "int \<Rightarrow> int \<Rightarrow> int \<Rightarrow> int" where
  "days_from_civil y m d =
     (let y = (if m \<le> 2 then y - 1 else y);
          era = y div 400;
          yoe = y - era * 400;
          mp = (m + 9) mod 12;
          doy = (153 * mp + 2) div 5 + d - 1;
          doe = yoe * 365 + yoe div 4 - yoe div 100 + doy
      in era * 146097 + doe - 719468)"

definition civil_from_days :: "int \<Rightarrow> int \<times> int \<times> int" where
  "civil_from_days z =
     (let z = z + 719468;
          era = z div 146097;
          doe = z - era * 146097;
          yoe = (doe - doe div 1460 + doe div 36524 - doe div 146096) div 365;
          y = yoe + era * 400;
          doy = doe - (365 * yoe + yoe div 4 - yoe div 100);
          mp = (5 * doy + 2) div 153;
          d = doy - (153 * mp + 2) div 5 + 1;
          m = (if mp < 10 then mp + 3 else mp - 9);
          y = (if m \<le> 2 then y + 1 else y)
      in (y, m, d))"

section \<open>Timestamps\<close>

datatype ts_error =
    MissingT | BadDate | BadYear | BadMonth | BadDay | BadTime | BadHour | BadMinute | BadSecond
  | BadOffset | BadFraction | MissingSuffix | BadDuration

definition format_fraction :: "int \<Rightarrow> string" where
  "format_fraction nanos =
     (let (digits, unit) =
            (if nanos smod 1000000 = 0 then (3, 1000000)
             else if nanos smod 1000 = 0 then (6, 1000) else (9, 1))
      in ''.'' @ fmt_pad digits (nanos sdiv unit))"

definition format_timestamp :: "int \<Rightarrow> int \<Rightarrow> string" where
  "format_timestamp seconds nanos =
     (let (year, month, day) = civil_from_days (seconds div 86400);
          secs_of_day = seconds mod 86400;
          hh = secs_of_day div 3600;
          mm = secs_of_day mod 3600 div 60;
          ss = secs_of_day mod 60
      in fmt_pad 4 year @ ''-'' @ fmt_pad 2 month @ ''-'' @ fmt_pad 2 day @ ''T''
         @ fmt_pad 2 hh @ '':'' @ fmt_pad 2 mm @ '':'' @ fmt_pad 2 ss
         @ (if nanos \<noteq> 0 then format_fraction nanos else []) @ ''Z'')"

definition split_offset :: "string \<Rightarrow> string \<times> string option" where
  "split_offset rest =
     (case strip_suffix ''Z'' rest of
        Some off \<Rightarrow> (off, Some ''Z'')
      | None \<Rightarrow>
          (case strip_suffix ''z'' rest of
             Some off \<Rightarrow> (off, Some ''Z'')
           | None \<Rightarrow>
               let pre = takeWhile (\<lambda>c. c \<noteq> CHR ''+'' \<and> c \<noteq> CHR ''-'') rest;
                   post = dropWhile (\<lambda>c. c \<noteq> CHR ''+'' \<and> c \<noteq> CHR ''-'') rest
               in if post = [] then (rest, None) else (pre, Some post)))"

definition parse_fraction :: "string \<Rightarrow> (ts_error, int) result" where
  "parse_fraction frac =
     (if frac = [] \<or> 9 < length frac then Inl BadFraction
      else ok_or BadFraction (parse_signed 32 (frac @ replicate (9 - length frac) (CHR ''0''))))"

definition parse_second :: "string \<Rightarrow> (ts_error, string \<times> int) result" where
  "parse_second s =
     (case split_once (CHR ''.'') s of
        Some (secs, frac) \<Rightarrow> ebind (parse_fraction frac) (\<lambda>n. Inr (secs, n))
      | None \<Rightarrow> Inr (s, 0))"

definition parse_offset :: "string option \<Rightarrow> (ts_error, int \<times> int) result" where
  "parse_offset offset =
     (case offset of
        None \<Rightarrow> Inr (1, 0)
      | Some off \<Rightarrow>
          if off = ''Z'' \<or> off = ''z'' then Inr (1, 0)
          else
            (case off of
               [] \<Rightarrow> Inl BadOffset
             | c # off \<Rightarrow>
                 if c \<noteq> CHR ''+'' \<and> c \<noteq> CHR ''-'' then Inl BadOffset
                 else
                   (case split_on (CHR '':'') off of
                      [h, m] \<Rightarrow>
                        ebind (ok_or BadOffset (parse_signed 64 h)) (\<lambda>oh.
                        ebind (ok_or BadOffset (parse_signed 64 m)) (\<lambda>om.
                          Inr (if c = CHR ''+'' then 1 else - 1, oh * 3600 + om * 60)))
                    | _ \<Rightarrow> Inl BadOffset)))"

definition parse_timestamp :: "string \<Rightarrow> (ts_error, int \<times> int) result" where
  "parse_timestamp v =
     ebind (ok_or MissingT (split_once (CHR ''T'') v)) (\<lambda>(date_part, rest).
     let (time_part, offset) = split_offset rest in
     case split_on (CHR ''-'') date_part of
       [d0, d1, d2] \<Rightarrow>
         ebind (ok_or BadYear (parse_signed 64 d0)) (\<lambda>year.
         ebind (ok_or BadMonth (parse_signed 64 d1)) (\<lambda>month.
         ebind (ok_or BadDay (parse_signed 64 d2)) (\<lambda>day.
         case split_on (CHR '':'') time_part of
           [t0, t1, t2] \<Rightarrow>
             ebind (ok_or BadHour (parse_signed 64 t0)) (\<lambda>hh.
             ebind (ok_or BadMinute (parse_signed 64 t1)) (\<lambda>mm.
             ebind (parse_second t2) (\<lambda>(ss_str, frac_nanos).
             ebind (ok_or BadSecond (parse_signed 64 ss_str)) (\<lambda>ss.
             ebind (parse_offset offset) (\<lambda>(sign, off_secs).
               Inr (days_from_civil year month day * 86400 + hh * 3600 + mm * 60 + ss - sign * off_secs,
                    frac_nanos))))))
         | _ \<Rightarrow> Inl BadTime)))
     | _ \<Rightarrow> Inl BadDate)"

section \<open>Durations\<close>

definition format_duration :: "int \<Rightarrow> int \<Rightarrow> string" where
  "format_duration seconds nanos =
     (if nanos = 0 then show_int seconds @ ''s''
      else
        let sign = (if seconds < 0 \<or> (seconds = 0 \<and> nanos < 0) then ''-'' else []);
            secs = \<bar>seconds\<bar>;
            n = \<bar>nanos\<bar>;
            frac = (if n mod 1000000 = 0 then fmt_pad 3 (n div 1000000)
                    else if n mod 1000 = 0 then fmt_pad 6 (n div 1000)
                    else fmt_pad 9 n)
        in sign @ show_int secs @ ''.'' @ frac @ ''s'')"

definition parse_duration :: "string \<Rightarrow> (ts_error, int \<times> int) result" where
  "parse_duration v =
     (let (sign, rest) = (case strip_prefix ''-'' v of Some rest \<Rightarrow> (- 1, rest) | None \<Rightarrow> (1, v)) in
      ebind (ok_or MissingSuffix (strip_suffix ''s'' rest)) (\<lambda>rest.
      ebind (parse_second rest) (\<lambda>(secs_str, nanos).
      ebind (ok_or BadDuration (parse_signed 64 secs_str)) (\<lambda>secs.
        Inr (sign * secs, sign * nanos)))))"

section \<open>Civil date lemmas\<close>

text \<open>Days of a 400-year cycle before year \<open>y\<close> of the cycle (years start in March).\<close>

definition cycle_days :: "int \<Rightarrow> int" where
  "cycle_days y = 365 * y + y div 4 - y div 100"

definition cycle_num :: "int \<Rightarrow> int" where
  "cycle_num doe = doe - doe div 1460 + doe div 36524 - doe div 146096"

lemma div_diff_le: "a \<le> b \<Longrightarrow> 0 < k \<Longrightarrow> b div k - a div k \<le> b - (a :: int)"
proof -
  assume "a \<le> b" "0 < k"
  have "b div k = (a + (b - a)) div k" by simp
  also have "\<dots> \<le> (a + k * (b - a)) div k"
    using \<open>a \<le> b\<close> \<open>0 < k\<close> by (intro zdiv_mono1 add_left_mono) (auto simp: mult_le_cancel_right1)
  also have "\<dots> = a div k + (b - a)" using \<open>0 < k\<close> by simp
  finally show ?thesis by simp
qed

lemma cycle_num_mono:
  assumes "a \<le> b"
  shows "cycle_num a \<le> cycle_num b"
proof -
  have eq: "x div 146096 = x div 36524 div 4" for x :: int
    by (simp add: zdiv_zmult2_eq [symmetric])
  have "a div 36524 \<le> b div 36524" using assms by (rule zdiv_mono1) simp
  from div_diff_le [OF this, of 4] have "a div 36524 - a div 146096 \<le> b div 36524 - b div 146096"
    by (simp add: eq)
  moreover have "a - a div 1460 \<le> b - b div 1460" using div_diff_le [OF assms, of 1460] by simp
  ultimately show ?thesis by (simp add: cycle_num_def)
qed

lemma cycle_table:
  "\<forall>y \<in> set (map int [0 ..< 400]).
     365 * y \<le> cycle_num (cycle_days y) \<and> cycle_num (cycle_days (y + 1) - 1) < 365 * (y + 1)
     \<and> cycle_days (y + 1) - cycle_days y \<le> 366"
  by code_simp

lemma cycle_year_ex:
  "0 \<le> doe \<Longrightarrow> doe < cycle_days (int n) \<Longrightarrow> \<exists>k < n. cycle_days (int k) \<le> doe \<and> doe < cycle_days (int k + 1)"
proof (induction n)
  case 0
  then show ?case by (simp add: cycle_days_def)
next
  case (Suc n)
  show ?case
  proof (cases "doe < cycle_days (int n)")
    case True
    then show ?thesis using Suc by (auto intro: less_SucI)
  next
    case False
    then show ?thesis using Suc.prems by (intro exI [of _ n]) (auto simp: add.commute)
  qed
qed

lemma cycle_year:
  assumes "0 \<le> doe" "doe < 146097"
  obtains yoe where "cycle_num doe div 365 = yoe" "0 \<le> yoe" "yoe < 400"
    "0 \<le> doe - cycle_days yoe" "doe - cycle_days yoe \<le> 365"
proof (cases "doe = 146096")
  case True
  then show ?thesis by (intro that [of 399]) (simp_all add: cycle_num_def cycle_days_def)
next
  case False
  have "doe < cycle_days (int 400)" using assms(2) False by (simp add: cycle_days_def)
  then obtain k where k: "k < 400" "cycle_days (int k) \<le> doe" "doe < cycle_days (int k + 1)"
    using cycle_year_ex [OF assms(1), of 400] by auto
  have tab: "365 * int k \<le> cycle_num (cycle_days (int k))"
    "cycle_num (cycle_days (int k + 1) - 1) < 365 * (int k + 1)"
    "cycle_days (int k + 1) - cycle_days (int k) \<le> 366"
    using cycle_table k(1) by auto
  have "365 * int k \<le> cycle_num doe"
    using tab(1) cycle_num_mono [OF k(2)] by linarith
  moreover have "cycle_num doe < 365 * (int k + 1)"
    using tab(2) cycle_num_mono [of doe "cycle_days (int k + 1) - 1"] k(3) by linarith
  ultimately have "cycle_num doe div 365 = int k" 
    by (intro int_div_pos_eq [of _ 365 "int k" "cycle_num doe - 365 * int k"]) auto
  then show ?thesis by (rule that) (use k tab(3) in auto)
qed

lemma month_of_day:
  assumes "0 \<le> doy" "doy \<le> (365 :: int)"
  shows "0 \<le> (5 * doy + 2) div 153" "(5 * doy + 2) div 153 \<le> 11"
    "1 \<le> doy - (153 * ((5 * doy + 2) div 153) + 2) div 5 + 1"
    "doy - (153 * ((5 * doy + 2) div 153) + 2) div 5 + 1 \<le> 31"
proof -
  have "\<forall>n \<in> set (map int [0 ..< 366]).
     0 \<le> (5 * n + 2) div 153 \<and> (5 * n + 2) div 153 \<le> 11
     \<and> 1 \<le> n - (153 * ((5 * n + 2) div 153) + 2) div 5 + 1
     \<and> n - (153 * ((5 * n + 2) div 153) + 2) div 5 + 1 \<le> 31"
    by code_simp
  moreover have "doy \<in> set (map int [0 ..< 366])"
    using assms by (auto simp: image_iff intro!: bexI [of _ "nat doy"])
  ultimately show "0 \<le> (5 * doy + 2) div 153" "(5 * doy + 2) div 153 \<le> 11"
    "1 \<le> doy - (153 * ((5 * doy + 2) div 153) + 2) div 5 + 1"
    "doy - (153 * ((5 * doy + 2) div 153) + 2) div 5 + 1 \<le> 31"
    by blast+
qed

lemma civil_from_days_spec:
  obtains era yoe doy mp y where
    "civil_from_days z = (y, if mp < 10 then mp + 3 else mp - 9, doy - (153 * mp + 2) div 5 + 1)"
    "y = (if (if mp < 10 then mp + 3 else mp - 9) \<le> 2 then yoe + era * 400 + 1 else yoe + era * 400)"
    "0 \<le> yoe" "yoe < 400" "0 \<le> doy" "doy \<le> 365" "mp = (5 * doy + 2) div 153"
    "z + 719468 = era * 146097 + (365 * yoe + yoe div 4 - yoe div 100 + doy)"
proof -
  define era where "era = (z + 719468) div 146097"
  define doe where "doe = (z + 719468) - era * 146097"
  have doe: "0 \<le> doe" "doe < 146097"
    unfolding doe_def era_def by (simp_all add: minus_div_mult_eq_mod)
  then obtain yoe where yoe: "cycle_num doe div 365 = yoe" "0 \<le> yoe" "yoe < 400"
    "0 \<le> doe - cycle_days yoe" "doe - cycle_days yoe \<le> 365"
    by (rule cycle_year)
  define doy where "doy = doe - (365 * yoe + yoe div 4 - yoe div 100)"
  define mp where "mp = (5 * doy + 2) div 153"
  have "(doe - doe div 1460 + doe div 36524 - doe div 146096) div 365 = yoe"
    using yoe(1) by (simp only: cycle_num_def)
  then have "civil_from_days z = (if (if mp < 10 then mp + 3 else mp - 9) \<le> 2 then yoe + era * 400 + 1
      else yoe + era * 400, if mp < 10 then mp + 3 else mp - 9, doy - (153 * mp + 2) div 5 + 1)"
    unfolding civil_from_days_def Let_def mp_def doy_def doe_def era_def by (simp only:)
  moreover have "0 \<le> doy" "doy \<le> 365" using yoe(4,5) by (simp_all add: doy_def cycle_days_def)
  moreover have "z + 719468 = era * 146097 + (365 * yoe + yoe div 4 - yoe div 100 + doy)"
    by (simp add: doy_def doe_def)
  ultimately show ?thesis using that yoe(2,3) mp_def by blast
qed

lemma civil_range: "civil_from_days z = (y, m, d) \<Longrightarrow> 1 \<le> m \<and> m \<le> 12 \<and> 1 \<le> d \<and> d \<le> 31"
proof (rule civil_from_days_spec [of z])
  fix era yoe doy mp y'
  assume z: "civil_from_days z = (y, m, d)"
    "civil_from_days z = (y', if mp < 10 then mp + 3 else mp - 9, doy - (153 * mp + 2) div 5 + 1)"
    and doy: "0 \<le> doy" "doy \<le> (365 :: int)" and mp: "mp = (5 * doy + 2) div 153"
  show ?thesis using z month_of_day [OF doy] by (auto simp flip: mp)
qed

lemma days_civil_inverse:
  "civil_from_days z = (y, m, d) \<Longrightarrow> days_from_civil y m d = z"
proof (rule civil_from_days_spec [of z])
  fix era yoe doy mp y'
  assume z: "civil_from_days z = (y, m, d)"
    "civil_from_days z = (y', if mp < 10 then mp + 3 else mp - 9, doy - (153 * mp + 2) div 5 + 1)"
    and y': "y' = (if (if mp < 10 then mp + 3 else mp - 9) \<le> 2 then yoe + era * 400 + 1 else yoe + era * 400)"
    and yoe: "0 \<le> yoe" "yoe < 400" and doy: "0 \<le> doy" "doy \<le> (365 :: int)"
    and mp: "mp = (5 * doy + 2) div 153"
    and tot: "z + 719468 = era * 146097 + (365 * yoe + yoe div 4 - yoe div 100 + doy)"
  have mpr: "0 \<le> mp" "mp \<le> 11" using month_of_day [OF doy] by (simp_all flip: mp)
  have m: "m = (if mp < 10 then mp + 3 else mp - 9)" and d: "d = doy - (153 * mp + 2) div 5 + 1"
    and yy: "y = y'"
    using z by simp_all
  have y: "(if m \<le> 2 then y - 1 else y) = yoe + era * 400"
    unfolding yy y' m by (simp split: if_split)
  have "(m + 9) mod 12 = mp" using mpr by (auto simp: m)
  moreover have "(yoe + era * 400) div 400 = era" using yoe by simp
  ultimately show ?thesis
    using tot by (simp add: days_from_civil_def Let_def y d)
qed

definition leap_year :: "int \<Rightarrow> bool" where
  "leap_year y \<longleftrightarrow> y mod 4 = 0 \<and> (y mod 100 \<noteq> 0 \<or> y mod 400 = 0)"

definition days_in_month :: "int \<Rightarrow> int \<Rightarrow> int" where
  "days_in_month y m =
     (if m = 2 then (if leap_year y then 29 else 28)
      else if m = 4 \<or> m = 6 \<or> m = 9 \<or> m = 11 then 30 else 31)"

definition valid_date :: "int \<Rightarrow> int \<Rightarrow> int \<Rightarrow> bool" where
  "valid_date y m d \<longleftrightarrow> 1 \<le> m \<and> m \<le> 12 \<and> 1 \<le> d \<and> d \<le> days_in_month y m"

lemma month_table:
  "\<forall>m \<in> set (map int [1 ..< 13]). \<forall>d \<in> set (map int [1 ..< 32]).
     d \<le> (if m = 2 then 29 else if m = 4 \<or> m = 6 \<or> m = 9 \<or> m = 11 then 30 else 31) \<longrightarrow>
     (let mp = (m + 9) mod 12; doy = (153 * mp + 2) div 5 + d - 1 in
      (5 * doy + 2) div 153 = mp \<and> 0 \<le> doy \<and> (if mp < 10 then mp + 3 else mp - 9) = m
      \<and> doy \<le> (if m = 2 then 336 + d else 364))"
  by code_simp

lemma in_int_upt: "int a \<le> x \<Longrightarrow> x < int b \<Longrightarrow> x \<in> set (map int [a ..< b])"
  by (auto simp: image_iff intro!: bexI [of _ "nat x"])

lemma div_succ:
  assumes "0 < (k :: int)"
  shows "(a + 1) div k = (if (a + 1) mod k = 0 then a div k + 1 else a div k)"
proof -
  let ?r = "a mod k"
  have a: "a + 1 = k * (a div k) + (?r + 1)" and r: "0 \<le> ?r" "?r < k" using assms by simp_all
  show ?thesis
  proof (cases "?r + 1 = k")
    case True
    then have "a + 1 = k * (a div k + 1)" using a by (simp add: algebra_simps)
    then show ?thesis using assms by simp
  next
    case False
    then have "(a + 1) div k = a div k" "(a + 1) mod k = ?r + 1"
      using int_div_pos_eq [OF a] int_mod_pos_eq [OF a] r by simp_all
    then show ?thesis using r by simp
  qed
qed

lemma leap_step:
  assumes "0 \<le> yoe" "yoe < 399" "leap_year (yoe + era * 400 + 1)"
  shows "cycle_days (yoe + 1) - cycle_days yoe = 366"
proof -
  let ?y = "yoe + era * 400 + 1"
  have "?y = (yoe + 1) + 4 * (era * 100)" "?y = (yoe + 1) + 100 * (era * 4)" "?y = (yoe + 1) + 400 * era"
    by simp_all
  then have "?y mod 4 = (yoe + 1) mod 4" "?y mod 100 = (yoe + 1) mod 100" "?y mod 400 = (yoe + 1) mod 400"
    by (metis mod_mult_self2)+
  then have "(yoe + 1) mod 4 = 0" "(yoe + 1) mod 100 \<noteq> 0"
    using assms by (auto simp: leap_year_def)
  then show ?thesis by (simp add: cycle_days_def div_succ)
qed

lemma cycle_step_ge: "cycle_days yoe + 365 \<le> cycle_days (yoe + 1)"
proof -
  have d: "x div 100 = x div 4 div 25" for x :: int by (simp add: zdiv_zmult2_eq [symmetric])
  have "yoe div 4 \<le> (yoe + 1) div 4" by (rule zdiv_mono1) simp_all
  from div_diff_le [OF this, of 25] show ?thesis by (simp add: cycle_days_def d)
qed

lemma cycle_year_unique:
  assumes "0 \<le> yoe" "yoe < 400" "0 \<le> doy"
    and "doy < cycle_days (yoe + 1) - cycle_days yoe \<or> (yoe = 399 \<and> doy \<le> 365)"
  shows "cycle_num (cycle_days yoe + doy) div 365 = yoe"
proof (cases "doy < cycle_days (yoe + 1) - cycle_days yoe")
  case True
  have tab: "365 * yoe \<le> cycle_num (cycle_days yoe)" "cycle_num (cycle_days (yoe + 1) - 1) < 365 * (yoe + 1)"
    using bspec [OF cycle_table in_int_upt [of 0 yoe 400]] assms(1,2) by simp_all
  have "365 * yoe \<le> cycle_num (cycle_days yoe + doy)"
    using tab(1) cycle_num_mono [of "cycle_days yoe" "cycle_days yoe + doy"] assms(3) by linarith
  moreover have "cycle_num (cycle_days yoe + doy) < 365 * (yoe + 1)"
    using tab(2) cycle_num_mono [of "cycle_days yoe + doy" "cycle_days (yoe + 1) - 1"] True by linarith
  ultimately show ?thesis
    by (intro int_div_pos_eq [of _ 365 yoe "cycle_num (cycle_days yoe + doy) - 365 * yoe"]) auto
next
  case False
  then have "yoe = 399" "doy = 365" using assms(4) by (auto simp: cycle_days_def)
  then show ?thesis by (simp add: cycle_num_def cycle_days_def)
qed

lemma civil_days_inverse:
  assumes "valid_date y m d"
  shows "civil_from_days (days_from_civil y m d) = (y, m, d)"
proof -
  define y0 where "y0 = (if m \<le> 2 then y - 1 else y)"
  define era where "era = y0 div 400"
  define yoe where "yoe = y0 - era * 400"
  define mp where "mp = (m + 9) mod 12"
  define doy where "doy = (153 * mp + 2) div 5 + d - 1"
  have yoe: "0 \<le> yoe" "yoe < 400" by (simp_all add: yoe_def era_def minus_div_mult_eq_mod)
  have md: "1 \<le> m" "m \<le> 12" "1 \<le> d"
    "d \<le> (if m = 2 then 29 else if m = 4 \<or> m = 6 \<or> m = 9 \<or> m = 11 then 30 else 31)"
    using assms by (auto simp: valid_date_def days_in_month_def split: if_splits)
  then have "m \<in> set (map int [1 ..< 13])" "d \<in> set (map int [1 ..< 32])"
    by (intro in_int_upt; simp split: if_splits)+
  with month_table md(4) have mon: "(5 * doy + 2) div 153 = mp" "0 \<le> doy"
    "(if mp < 10 then mp + 3 else mp - 9) = m" "doy \<le> (if m = 2 then 336 + d else 364)"
    unfolding Let_def mp_def doy_def by blast+
  have fit: "doy < cycle_days (yoe + 1) - cycle_days yoe \<or> (yoe = 399 \<and> doy \<le> 365)"
  proof (cases "m = 2 \<and> d = 29")
    case True
    then have "leap_year y" using assms by (auto simp: valid_date_def days_in_month_def split: if_splits)
    moreover have "y = yoe + era * 400 + 1" using True by (simp add: yoe_def y0_def)
    ultimately show ?thesis
      using mon(4) True leap_step [of yoe era] yoe by (cases "yoe = 399") auto
  next
    case False
    then have "doy \<le> 364" using mon(4) md(4) by (auto split: if_splits)
    then show ?thesis using cycle_step_ge [of yoe] by linarith
  qed
  have num: "(doe - doe div 1460 + doe div 36524 - doe div 146096) div 365 = yoe"
    if "doe = cycle_days yoe + doy" for doe
    using cycle_year_unique [OF yoe mon(2) fit] by (simp only: that cycle_num_def)
  have doe: "0 \<le> cycle_days yoe + doy" "cycle_days yoe + doy < 146097"
  proof -
    have "cycle_days yoe \<le> cycle_days 399"
      using zdiv_mono1 [of yoe 399 4] yoe div_diff_le [of yoe 399 100] by (simp add: cycle_days_def)
    moreover have "cycle_days (yoe + 1) \<le> 146096"
      using zdiv_mono1 [of "yoe + 1" 400 4] yoe div_diff_le [of "yoe + 1" 400 100]
      by (simp add: cycle_days_def)
    ultimately show "cycle_days yoe + doy < 146097" using fit by (auto simp: cycle_days_def)
    show "0 \<le> cycle_days yoe + doy"
      using yoe mon(2) div_diff_le [of 0 yoe 100] by (simp add: cycle_days_def)
  qed
  have z: "days_from_civil y m d + 719468 = era * 146097 + (cycle_days yoe + doy)"
    by (simp add: days_from_civil_def Let_def cycle_days_def mp_def doy_def yoe_def era_def y0_def)
  have e: "(days_from_civil y m d + 719468) div 146097 = era" using doe by (simp add: z)
  have de: "days_from_civil y m d + 719468 - era * 146097 = cycle_days yoe + doy" by (simp add: z)
  have dy: "cycle_days yoe + doy - (365 * yoe + yoe div 4 - yoe div 100) = doy"
    by (simp add: cycle_days_def)
  have yy: "(if m \<le> 2 then yoe + era * 400 + 1 else yoe + era * 400) = y"
    by (simp add: yoe_def y0_def)
  have dd: "doy - (153 * mp + 2) div 5 + 1 = d" by (simp add: doy_def)
  show ?thesis
    unfolding civil_from_days_def Let_def e de num [OF refl] dy mon(1,3) dd yy ..
qed

section \<open>Printing and parsing\<close>

lemma fmt_pad_digits: "0 \<le> i \<Longrightarrow> list_all is_digit (fmt_pad w i)"
  by (simp add: fmt_pad_def show_nat_digits)

lemma fmt_pad_char: "0 \<le> i \<Longrightarrow> \<not> is_digit c \<Longrightarrow> c \<notin> set (fmt_pad w i)"
  using fmt_pad_digits [of i w] by (auto simp: list_all_iff)

lemma not_digit [simp]:
  "\<not> is_digit (CHR ''T'')" "\<not> is_digit (CHR ''-'')" "\<not> is_digit (CHR '':'')"
  "\<not> is_digit (CHR ''.'')" "\<not> is_digit (CHR ''s'')" "\<not> is_digit (CHR ''Z'')"
  by (simp_all add: is_digit_def)

text \<open>Padding a fraction to nine digits multiplies it by the unit that was divided out.\<close>

lemma digits_val_append_zeros: "digits_val (s @ replicate k (CHR ''0'')) = digits_val s * 10 ^ k"
proof (induction k)
  case (Suc k)
  have "digits_val (s @ replicate (Suc k) (CHR ''0'')) = digits_val ((s @ replicate k (CHR ''0'')) @ [CHR ''0''])"
    by (simp add: replicate_append_same)
  also have "\<dots> = 10 * digits_val (s @ replicate k (CHR ''0''))"
    by (simp only: digits_val_snoc) (simp add: digit_val_def)
  finally show ?case using Suc by simp
qed simp

lemma parse_fraction_pad:
  assumes "0 \<le> q" "q < 10 ^ w" "0 < w" "w \<le> 9"
  shows "parse_fraction (fmt_pad w q) = Inr (q * 10 ^ (9 - w))"
proof -
  let ?s = "fmt_pad w q"
  have "nat q < 10 ^ w" using assms(1,2) by (simp add: nat_less_iff)
  then have len: "length ?s = w" using length_pad0_show [of "nat q" w] assms(1,3) by (simp add: fmt_pad_def)
  let ?p = "?s @ replicate (9 - w) (CHR ''0'')"
  have dig: "list_all is_digit ?p"
    using fmt_pad_digits [OF assms(1)] by (auto simp: list_all_iff is_digit_def)
  have val: "digits_val ?p = nat q * 10 ^ (9 - w)"
    using assms(1) by (simp add: digits_val_append_zeros fmt_pad_def)
  have lt: "nat q * 10 ^ (9 - w) < 10 ^ 9"
  proof -
    have "nat q * 10 ^ (9 - w) < 10 ^ w * 10 ^ (9 - w)" using \<open>nat q < 10 ^ w\<close> by simp
    then show ?thesis using assms(4) by (simp flip: power_add)
  qed
  have "parse_signed 32 ?p = Some (int (nat q * 10 ^ (9 - w)))"
  proof -
    have "?p \<noteq> []" using len assms(3) by auto
    then show ?thesis using parse_signed_digits [OF dig, of 32] lt by (simp add: val)
  qed
  then show ?thesis
    using len assms(1,3,4) by (auto simp: parse_fraction_def)
qed

definition frac_digits :: "int \<Rightarrow> string" where
  "frac_digits n =
     (if n mod 1000000 = 0 then fmt_pad 3 (n div 1000000)
      else if n mod 1000 = 0 then fmt_pad 6 (n div 1000) else fmt_pad 9 n)"

lemma parse_frac_digits:
  assumes "0 \<le> n" "n < 1000000000"
  shows "parse_fraction (frac_digits n) = Inr n"
proof -
  consider "n mod 1000000 = 0" | "n mod 1000000 \<noteq> 0" "n mod 1000 = 0" | "n mod 1000000 \<noteq> 0" "n mod 1000 \<noteq> 0"
    by blast
  then show ?thesis
  proof cases
    case 1
    then have "n div 1000000 * 1000000 = n" by auto
    then show ?thesis
      using 1 assms parse_fraction_pad [of "n div 1000000" 3] by (simp add: frac_digits_def)
  next
    case 2
    then have "n div 1000 * 1000 = n" by auto
    then show ?thesis
      using 2 assms parse_fraction_pad [of "n div 1000" 6] by (simp add: frac_digits_def)
  next
    case 3
    then show ?thesis
      using assms parse_fraction_pad [of n 9] by (simp add: frac_digits_def)
  qed
qed

lemma frac_digits_char: "0 \<le> n \<Longrightarrow> \<not> is_digit c \<Longrightarrow> c \<notin> set (frac_digits n)"
  by (simp add: frac_digits_def fmt_pad_char)

lemma format_fraction_digits:
  assumes "0 \<le> n"
  shows "format_fraction n = ''.'' @ frac_digits n"
proof -
  have "n smod k = n mod k" "n sdiv k = n div k" if "0 < k" for k
    using assms that by (simp_all add: signed_modulo_int_def signed_divide_int_def sgn_if minus_div_mult_eq_mod)
  then show ?thesis by (simp add: format_fraction_def frac_digits_def Let_def)
qed

lemma parse_second_format:
  assumes "0 \<le> ss" "0 \<le> n" "n < 1000000000"
  shows "parse_second (fmt_pad 2 ss @ (if n \<noteq> 0 then format_fraction n else [])) = Inr (fmt_pad 2 ss, n)"
proof (cases "n = 0")
  case True
  then show ?thesis using assms(1) by (simp add: parse_second_def fmt_pad_char)
next
  case False
  then show ?thesis
    using assms by (simp add: parse_second_def fmt_pad_char format_fraction_digits parse_frac_digits)
qed

lemma timestamp_format_parse:
  assumes "0 \<le> nanos" "nanos < 1000000000"
    and "civil_from_days (seconds div 86400) = (year, month, day)" "0 \<le> year" "year < 2 ^ 63"
  shows "parse_timestamp (format_timestamp seconds nanos) = Inr (seconds, nanos)"
proof -
  define sod where "sod = seconds mod 86400"
  define hh where "hh = sod div 3600"
  define mm where "mm = sod mod 3600 div 60"
  define ss where "ss = sod mod 60"
  let ?frac = "if nanos \<noteq> 0 then format_fraction nanos else []"
  define date where "date = fmt_pad 4 year @ ''-'' @ fmt_pad 2 month @ ''-'' @ fmt_pad 2 day"
  define time where "time = fmt_pad 2 hh @ '':'' @ fmt_pad 2 mm @ '':'' @ fmt_pad 2 ss @ ?frac"
  have sod: "0 \<le> sod" "sod < 86400" by (simp_all add: sod_def)
  have t: "0 \<le> hh" "0 \<le> mm" "0 \<le> ss" "hh < 2 ^ 63" "mm < 2 ^ 63" "ss < 2 ^ 63"
    using sod by (simp_all add: hh_def mm_def ss_def)
  have mdr: "1 \<le> month" "month \<le> 12" "1 \<le> day" "day \<le> 31"
    using civil_range [OF assms(3)] by auto
  have f: "format_timestamp seconds nanos = date @ ''T'' @ (time @ ''Z'')"
    by (simp add: format_timestamp_def assms(3) Let_def sod_def hh_def mm_def ss_def date_def time_def)
  have frac_chars: "CHR '':'' \<notin> set ?frac"
    using assms(1) by (simp add: format_fraction_digits frac_digits_char)
  have "split_once (CHR ''T'') (format_timestamp seconds nanos) = Some (date, time @ ''Z'')"
    unfolding f using assms(4) mdr split_once_append [of "CHR ''T''" date "time @ ''Z''"]
    by (simp add: fmt_pad_char date_def)
  moreover have "split_offset (time @ ''Z'') = (time, Some ''Z'')"
    using strip_suffix_append [of "''Z''" time] by (simp only: split_offset_def option.case)
  moreover have "split_on (CHR ''-'') date = [fmt_pad 4 year, fmt_pad 2 month, fmt_pad 2 day]"
    using assms(4) mdr by (simp add: date_def split_on_append fmt_pad_char)
  moreover have "split_on (CHR '':'') time = [fmt_pad 2 hh, fmt_pad 2 mm, fmt_pad 2 ss @ ?frac]"
    using t(1-3) frac_chars by (simp add: time_def split_on_append fmt_pad_char)
  moreover have "parse_signed 64 (fmt_pad 4 year) = Some year" "parse_signed 64 (fmt_pad 2 month) = Some month"
    "parse_signed 64 (fmt_pad 2 day) = Some day" "parse_signed 64 (fmt_pad 2 hh) = Some hh"
    "parse_signed 64 (fmt_pad 2 mm) = Some mm" "parse_signed 64 (fmt_pad 2 ss) = Some ss"
    using assms(4,5) mdr t by (simp_all add: parse_signed_fmt_pad)
  moreover have "parse_second (fmt_pad 2 ss @ ?frac) = Inr (fmt_pad 2 ss, nanos)"
    by (rule parse_second_format) (use t assms in auto)
  moreover have "days_from_civil year month day * 86400 + hh * 3600 + mm * 60 + ss = seconds"
  proof -
    have "hh * 3600 + mm * 60 + ss = sod"
    proof -
      have "sod mod 3600 mod 60 = ss" by (simp add: ss_def mod_mod_cancel)
      then have "mm * 60 + ss = sod mod 3600" unfolding mm_def by (metis div_mult_mod_eq)
      then show ?thesis unfolding hh_def by (metis add.assoc div_mult_mod_eq)
    qed
    moreover have "seconds div 86400 * 86400 + sod = seconds" by (simp add: sod_def)
    ultimately show ?thesis using days_civil_inverse [OF assms(3)] by linarith
  qed
  ultimately show ?thesis
    by (simp add: parse_timestamp_def parse_offset_def)
qed

lemma duration_format_parse:
  assumes "\<bar>nanos\<bar> < 1000000000" "\<bar>seconds\<bar> < 2 ^ 63"
    and "0 < seconds \<longrightarrow> 0 \<le> nanos" "seconds < 0 \<longrightarrow> nanos \<le> 0"
  shows "parse_duration (format_duration seconds nanos) = Inr (seconds, nanos)"
proof -
  let ?neg = "seconds < 0 \<or> (seconds = 0 \<and> nanos < 0)"
  define body where "body = show_nat (nat \<bar>seconds\<bar>) @ (if nanos = 0 then [] else ''.'' @ frac_digits \<bar>nanos\<bar>)"
  have fmt: "format_duration seconds nanos = (if ?neg then ''-'' else []) @ body @ ''s''"
    by (auto simp: format_duration_def frac_digits_def show_int_def Let_def body_def)
  have sec: "parse_second body = Inr (show_nat (nat \<bar>seconds\<bar>), \<bar>nanos\<bar>)"
  proof -
    have "CHR ''.'' \<notin> set (show_nat (nat \<bar>seconds\<bar>))"
      by (rule digits_not_in [OF show_nat_digits]) simp
    then show ?thesis
      using assms(1) by (auto simp: body_def parse_second_def parse_frac_digits)
  qed
  have num: "parse_signed 64 (show_nat (nat \<bar>seconds\<bar>)) = Some \<bar>seconds\<bar>"
    using parse_signed_digits [OF show_nat_digits, of "nat \<bar>seconds\<bar>" 64] assms(2) by (simp add: nat_less_iff)
  have suf: "strip_suffix ''s'' (body @ ''s'') = Some body" by (rule strip_suffix_append)
  have pre: "strip_prefix ''-'' (body @ ''s'') = None"
  proof -
    obtain c t where c: "show_nat (nat \<bar>seconds\<bar>) = c # t" by (cases "show_nat (nat \<bar>seconds\<bar>)") auto
    then have "c \<noteq> CHR ''-''" using digits_hd(1) [OF show_nat_digits, of "nat \<bar>seconds\<bar>"] by simp
    then show ?thesis by (simp add: c body_def)
  qed
  show ?thesis
  proof (cases ?neg)
    case True
    then have "- \<bar>seconds\<bar> = seconds" "- \<bar>nanos\<bar> = nanos" using assms(3,4) by auto
    moreover have "strip_prefix ''-'' (''-'' @ body @ ''s'') = Some (body @ ''s'')"
      by (rule strip_prefix_append)
    ultimately show ?thesis
      using True suf sec num by (simp add: parse_duration_def fmt)
  next
    case False
    then have "\<bar>seconds\<bar> = seconds" "\<bar>nanos\<bar> = nanos" using assms(3,4) by auto
    then show ?thesis
      using False suf pre sec num by (auto simp: parse_duration_def fmt)
  qed
qed

section \<open>Properties\<close>

text \<open>The two civil date conversions are inverse to each other: every day
  number becomes a month between 1 and 12 and a day between 1 and 31 and comes
  back from it, and every date of the Gregorian calendar, leap days included,
  comes back from its day number.\<close>

theorem civil_dates_bijective:
  "(case civil_from_days z of (y', m', d') \<Rightarrow>
      1 \<le> m' \<and> m' \<le> 12 \<and> 1 \<le> d' \<and> d' \<le> 31 \<and> days_from_civil y' m' d' = z)
   \<and> (valid_date y m d \<longrightarrow> civil_from_days (days_from_civil y m d) = (y, m, d))"
  using civil_range [of z] days_civil_inverse [of z] civil_days_inverse [of y m d]
  by (cases "civil_from_days z") auto

text \<open>At the leap day of the year 2000.\<close>

theorem civil_dates_bijective_witness:
  "valid_date 2000 2 29 \<and> civil_from_days (days_from_civil 2000 2 29) = (2000, 2, 29)"
  using civil_dates_bijective [of 0 2000 2 29]
  by (simp add: valid_date_def days_in_month_def leap_year_def)

text \<open>C33: a timestamp of year 0 or later with a fraction below one second is
  parsed back from its JSON string unchanged, whatever of the three precisions
  the fraction is printed with.\<close>

theorem timestamp_round_trip:
  assumes "0 \<le> nanos" "nanos < 1000000000"
    and "0 \<le> fst (civil_from_days (seconds div 86400))" "fst (civil_from_days (seconds div 86400)) < 2 ^ 63"
  shows "parse_timestamp (format_timestamp seconds nanos) = Inr (seconds, nanos)"
  using assms by (cases "civil_from_days (seconds div 86400)") (auto intro: timestamp_format_parse)

text \<open>C33 at 2024-02-29T12:34:56.000123Z.\<close>

theorem timestamp_round_trip_witness:
  "format_timestamp 1709210096 123000 = ''2024-02-29T12:34:56.000123Z''
   \<and> parse_timestamp (format_timestamp 1709210096 123000) = Inr (1709210096, 123000)"
proof -
  have "civil_from_days (1709210096 div 86400) = (2024, 2, 29)" by code_simp
  moreover have "format_timestamp 1709210096 123000 = ''2024-02-29T12:34:56.000123Z''" by code_simp
  ultimately show ?thesis using timestamp_round_trip [of 123000 1709210096] by simp
qed

text \<open>A duration whose nanoseconds carry the sign of its seconds is parsed
  back from its JSON string unchanged, negative ones included.\<close>

theorem duration_round_trip:
  assumes "\<bar>nanos\<bar> < 1000000000" "\<bar>seconds\<bar> < 2 ^ 63"
    and "0 < seconds \<longrightarrow> 0 \<le> nanos" "seconds < 0 \<longrightarrow> nanos \<le> 0"
  shows "parse_duration (format_duration seconds nanos) = Inr (seconds, nanos)"
  using assms by (rule duration_format_parse)

text \<open>At minus half a second.\<close>

theorem duration_round_trip_witness:
  "format_duration 0 (- 500000000) = ''-0.500s''
   \<and> parse_duration (format_duration 0 (- 500000000)) = Inr (0, - 500000000)"
proof -
  have "format_duration 0 (- 500000000) = ''-0.500s''" by code_simp
  then show ?thesis using duration_round_trip [of "- 500000000" 0] by simp
qed

end
