(* ===== verification/Auth.thy ===== *)
theory Auth
  imports LK_Strings
begin

text \<open>
  Access tokens (\<open>lk-server/src/auth.rs\<close>): the verified claims, the grants in
  them and the verification against the configured API keys.  JSON values are a
  datatype with the accessors of \<open>serde_json\<close> the code uses.  Two library
  calls are arguments: \<open>payload\<close> decodes the base64 JSON payload of a token
  part, and \<open>jwt_decode\<close> is \<open>jsonwebtoken::decode\<close> with the validation the code
  sets up (secret, issuer, required expiry, not-before, 60 seconds of leeway).
\<close>

section \<open>JSON values\<close>

datatype json = JNull | JBool bool | JInt int | JFloat | JStr string | JArr "json list" | JObj "(string \<times> json) list"

definition jget :: "json \<Rightarrow> string \<Rightarrow> json option" where
  "jget v k = (case v of JObj kvs \<Rightarrow> look kvs k | _ \<Rightarrow> None)"

definition as_str :: "json \<Rightarrow> string option" where
  "as_str v = (case v of JStr s \<Rightarrow> Some s | _ \<Rightarrow> None)"

definition as_bool :: "json \<Rightarrow> bool option" where
  "as_bool v = (case v of JBool b \<Rightarrow> Some b | _ \<Rightarrow> None)"

definition as_u64 :: "json \<Rightarrow> nat option" where
  "as_u64 v = (case v of JInt i \<Rightarrow> if 0 \<le> i \<and> i < 2 ^ 64 then Some (nat i) else None | _ \<Rightarrow> None)"

definition as_i64 :: "json \<Rightarrow> int option" where
  "as_i64 v = (case v of JInt i \<Rightarrow> if - (2 ^ 63) \<le> i \<and> i < 2 ^ 63 then Some i else None | _ \<Rightarrow> None)"

definition as_array :: "json \<Rightarrow> json list option" where
  "as_array v = (case v of JArr vs \<Rightarrow> Some vs | _ \<Rightarrow> None)"

definition as_object :: "json \<Rightarrow> (string \<times> json) list option" where
  "as_object v = (case v of JObj kvs \<Rightarrow> Some kvs | _ \<Rightarrow> None)"

definition or_else :: "'a option \<Rightarrow> 'a option \<Rightarrow> 'a option" where
  "or_else a b = (case a of None \<Rightarrow> b | Some _ \<Rightarrow> a)"

definition unwrap_or :: "'a \<Rightarrow> 'a option \<Rightarrow> 'a" where
  "unwrap_or d a = (case a of None \<Rightarrow> d | Some x \<Rightarrow> x)"

section \<open>Tokens and grants\<close>

record video_grant =
  vg_room_create :: bool
  vg_room_list :: bool
  vg_room_record :: bool
  vg_room_admin :: bool
  vg_room_join :: bool
  vg_room :: string
  vg_can_publish :: "bool option"
  vg_can_subscribe :: "bool option"
  vg_can_publish_data :: "bool option"
  vg_can_publish_sources :: "string list"
  vg_can_update_own_metadata :: "bool option"
  vg_hidden :: bool
  vg_recorder :: bool
  vg_agent :: bool
  vg_can_subscribe_metrics :: "bool option"
  vg_destination_room :: string

definition video_grant_default :: video_grant where
  "video_grant_default =
     \<lparr> vg_room_create = False, vg_room_list = False, vg_room_record = False, vg_room_admin = False,
       vg_room_join = False, vg_room = [], vg_can_publish = None, vg_can_subscribe = None,
       vg_can_publish_data = None, vg_can_publish_sources = [], vg_can_update_own_metadata = None,
       vg_hidden = False, vg_recorder = False, vg_agent = False, vg_can_subscribe_metrics = None,
       vg_destination_room = [] \<rparr>"

record sip_grant =
  sg_admin :: bool
  sg_call :: bool

record room_agent_dispatch =
  rad_agent_name :: string
  rad_metadata :: string
  rad_deployment :: string
  rad_attributes :: attrs

record room_configuration =
  rc_name :: string
  rc_empty_timeout :: "32 word"
  rc_departure_timeout :: "32 word"
  rc_max_participants :: "32 word"
  rc_metadata :: string
  rc_agents :: "room_agent_dispatch list"

record verified_token =
  vt_api_key :: string
  vt_identity :: string
  vt_name :: string
  vt_metadata :: string
  vt_attributes :: attrs
  vt_kind :: string
  vt_video :: video_grant
  vt_sip :: sip_grant
  vt_room_config :: "room_configuration option"
  vt_room_preset :: string
  vt_sha256 :: string
  vt_nbf :: "int option"

definition token_can_publish :: "verified_token \<Rightarrow> bool" where
  "token_can_publish t = unwrap_or True (vg_can_publish (vt_video t))"

definition token_can_subscribe :: "verified_token \<Rightarrow> bool" where
  "token_can_subscribe t = unwrap_or True (vg_can_subscribe (vt_video t))"

definition token_can_publish_data :: "verified_token \<Rightarrow> bool" where
  "token_can_publish_data t = unwrap_or (token_can_publish t) (vg_can_publish_data (vt_video t))"

section \<open>Claims\<close>

fun get_str :: "json \<Rightarrow> string list \<Rightarrow> string" where
  "get_str m [] = []"
| "get_str m (n # ns) =
     (case Option.bind (jget m n) as_str of Some s \<Rightarrow> s | None \<Rightarrow> get_str m ns)"

fun get_bool :: "json \<Rightarrow> string list \<Rightarrow> bool" where
  "get_bool m [] = False"
| "get_bool m (n # ns) =
     (case Option.bind (jget m n) as_bool of Some b \<Rightarrow> b | None \<Rightarrow> get_bool m ns)"

fun get_optional_bool :: "json \<Rightarrow> string list \<Rightarrow> bool option" where
  "get_optional_bool m [] = None"
| "get_optional_bool m (n # ns) =
     (case jget m n of Some v \<Rightarrow> as_bool v | None \<Rightarrow> get_optional_bool m ns)"

definition get_string_map :: "json \<Rightarrow> attrs" where
  "get_string_map obj =
     (case Option.bind (or_else (jget obj ''attributes'') (jget obj ''participantAttributes'')) as_object of
        None \<Rightarrow> []
      | Some kvs \<Rightarrow> List.map_filter (\<lambda>(k, v). map_option (\<lambda>s. (k, s)) (as_str v)) kvs)"

definition get_u32 :: "json \<Rightarrow> string \<Rightarrow> string \<Rightarrow> 32 word" where
  "get_u32 m a b = unwrap_or 0 (map_option of_nat (Option.bind (or_else (jget m a) (jget m b)) as_u64))"

definition parse_video :: "json \<Rightarrow> video_grant" where
  "parse_video v =
     \<lparr> vg_room_create = get_bool v [''roomCreate'', ''room_create''],
       vg_room_list = get_bool v [''roomList'', ''room_list''],
       vg_room_record = get_bool v [''roomRecord'', ''room_record''],
       vg_room_admin = get_bool v [''roomAdmin'', ''room_admin''],
       vg_room_join = get_bool v [''roomJoin'', ''room_join''],
       vg_room = get_str v [''room''],
       vg_can_publish = get_optional_bool v [''canPublish'', ''can_publish''],
       vg_can_subscribe = get_optional_bool v [''canSubscribe'', ''can_subscribe''],
       vg_can_publish_data = get_optional_bool v [''canPublishData'', ''can_publish_data''],
       vg_can_publish_sources =
         (case Option.bind (or_else (jget v ''canPublishSources'') (jget v ''can_publish_sources'')) as_array of
            None \<Rightarrow> [] | Some a \<Rightarrow> List.map_filter as_str a),
       vg_can_update_own_metadata = get_optional_bool v [''canUpdateOwnMetadata'', ''can_update_own_metadata''],
       vg_hidden = get_bool v [''hidden''],
       vg_recorder = get_bool v [''recorder''],
       vg_agent = get_bool v [''agent''],
       vg_can_subscribe_metrics = get_optional_bool v [''canSubscribeMetrics'', ''can_subscribe_metrics''],
       vg_destination_room = get_str v [''destinationRoom'', ''destination_room''] \<rparr>"

definition parse_dispatch :: "json \<Rightarrow> room_agent_dispatch" where
  "parse_dispatch d =
     \<lparr> rad_agent_name = get_str d [''agentName'', ''agent_name''],
       rad_metadata = get_str d [''metadata''],
       rad_deployment = get_str d [''deployment''],
       rad_attributes = get_string_map d \<rparr>"

definition parse_room_config :: "json \<Rightarrow> room_configuration" where
  "parse_room_config rc =
     \<lparr> rc_name = get_str rc [''name''],
       rc_empty_timeout = get_u32 rc ''emptyTimeout'' ''empty_timeout'',
       rc_departure_timeout = get_u32 rc ''departureTimeout'' ''departure_timeout'',
       rc_max_participants = get_u32 rc ''maxParticipants'' ''max_participants'',
       rc_metadata = get_str rc [''metadata''],
       rc_agents =
         (case Option.bind (jget rc ''agents'') as_array of
            None \<Rightarrow> []
          | Some a \<Rightarrow> map (\<lambda>kvs. parse_dispatch (JObj kvs)) (List.map_filter as_object a)) \<rparr>"

definition parse_claims :: "string \<Rightarrow> json \<Rightarrow> verified_token" where
  "parse_claims api_key claims =
     \<lparr> vt_api_key = api_key,
       vt_identity = get_str claims [''sub'', ''identity'', ''jti''],
       vt_name = get_str claims [''name''],
       vt_metadata = get_str claims [''metadata''],
       vt_attributes = get_string_map claims,
       vt_kind = get_str claims [''kind''],
       vt_video =
         (case Option.bind (or_else (jget claims ''video'') (jget claims ''vid'')) as_object of
            None \<Rightarrow> video_grant_default | Some kvs \<Rightarrow> parse_video (JObj kvs)),
       vt_sip =
         (case Option.bind (jget claims ''sip'') as_object of
            None \<Rightarrow> \<lparr> sg_admin = False, sg_call = False \<rparr>
          | Some kvs \<Rightarrow> \<lparr> sg_admin = get_bool (JObj kvs) [''admin''], sg_call = get_bool (JObj kvs) [''call''] \<rparr>),
       vt_room_config =
         map_option (\<lambda>kvs. parse_room_config (JObj kvs))
           (Option.bind (or_else (jget claims ''roomConfig'') (jget claims ''room_config'')) as_object),
       vt_room_preset = get_str claims [''roomPreset'', ''room_preset''],
       vt_sha256 = get_str claims [''sha256''],
       vt_nbf = Option.bind (jget claims ''nbf'') as_i64 \<rparr>"

section \<open>Verification\<close>

datatype auth_error = MissingAuthorization | InvalidAuthorization | InvalidApiKey | InvalidToken string

definition decode_payload_unverified ::
    "(string \<Rightarrow> (string, json) result) \<Rightarrow> string \<Rightarrow> (auth_error, json) result" where
  "decode_payload_unverified payload token =
     (case split_on (CHR ''.'') token of
        [_, p, _] \<Rightarrow> (case payload p of Inl e \<Rightarrow> Inl (InvalidToken e) | Inr v \<Rightarrow> Inr v)
      | _ \<Rightarrow> Inl (InvalidToken ''malformed token''))"

definition verify ::
    "(string \<Rightarrow> (string, json) result) \<Rightarrow> (string \<Rightarrow> string \<Rightarrow> string \<Rightarrow> (string, json) result)
     \<Rightarrow> (string, string) assoc \<Rightarrow> string \<Rightarrow> (auth_error, verified_token) result" where
  "verify payload jwt_decode keys token =
     ebind (decode_payload_unverified payload token) (\<lambda>unverified.
     ebind (ok_or InvalidApiKey (Option.bind (jget unverified ''iss'') as_str)) (\<lambda>api_key.
     ebind (ok_or InvalidApiKey (look keys api_key)) (\<lambda>secret.
     (case jwt_decode token secret api_key of
        Inl e \<Rightarrow> Inl (InvalidToken e)
      | Inr claims \<Rightarrow> Inr (parse_claims api_key claims)))))"

definition bearer_token :: "string option \<Rightarrow> (auth_error, string) result" where
  "bearer_token header =
     (case header of
        None \<Rightarrow> Inl MissingAuthorization
      | Some h \<Rightarrow>
          (case strip_prefix ''Bearer '' h of
             Some token \<Rightarrow> Inr (trim token)
           | None \<Rightarrow> Inl InvalidAuthorization))"

section \<open>Lemmas\<close>

lemma ebind_InrE:
  assumes "ebind r f = Inr b"
  obtains a where "r = Inr a" "f a = Inr b"
  using assms by (cases r) auto

lemma ok_or_Inr [simp]: "ok_or e a = Inr x \<longleftrightarrow> a = Some x"
  by (cases a) auto

lemma verify_InrE:
  assumes "verify payload jwt_decode keys token = Inr t"
  obtains secret claims where "look keys (vt_api_key t) = Some secret"
    "jwt_decode token secret (vt_api_key t) = Inr claims" "t = parse_claims (vt_api_key t) claims"
  using assms unfolding verify_def
  by (elim ebind_InrE) (auto simp: parse_claims_def split: sum.splits)

text \<open>Grants of claims without a \<open>video\<close> object.\<close>

lemma parse_claims_no_video:
  assumes "jget claims ''video'' = None" "jget claims ''vid'' = None"
  shows "vt_video (parse_claims k claims) = video_grant_default"
  using assms by (simp add: parse_claims_def or_else_def)

section \<open>Properties\<close>



end
