(* ===== verification/Audio_Level.thy ===== *)
theory Audio_Level
  imports LK_Strings Complex_Main
begin

text \<open>
  Active-speaker detection (\<open>lk-server/src/audio_level.rs\<close>): the negotiated
  id of the audio-level header extension, and the detector that decides from
  the packets of an update interval whether the track's owner is speaking.
  Instants are nanoseconds, counters are \<open>u32\<close> words, the linear level is the
  exact real number that the code computes in \<open>f32\<close>.
\<close>

section \<open>The extension id\<close>

datatype 'a scan = Found 'a | GiveUp | Continue

definition extmap_line :: "string \<Rightarrow> nat scan" where
  "extmap_line line =
     (case strip_prefix ''a=extmap:'' line of
        None \<Rightarrow> Continue
      | Some ext \<Rightarrow>
          (case split_whitespace ext of
             [] \<Rightarrow> GiveUp
           | idt # parts \<Rightarrow>
               (case parse_unsigned 255 idt of
                  None \<Rightarrow> GiveUp
                | Some i \<Rightarrow>
                    (case parts of
                       [] \<Rightarrow> GiveUp
                     | uri # _ \<Rightarrow> if str_contains ''ssrc-audio-level'' uri then Found i else Continue))))"

fun ext_id_loop :: "bool \<Rightarrow> string list \<Rightarrow> nat option" where
  "ext_id_loop in_audio [] = None"
| "ext_id_loop in_audio (l # ls) =
     (let line = trim l in
      if starts_with ''m='' line then ext_id_loop (starts_with ''m=audio'' line) ls
      else if \<not> in_audio then ext_id_loop in_audio ls
      else
        (case extmap_line line of
           Found i \<Rightarrow> Some i
         | GiveUp \<Rightarrow> None
         | Continue \<Rightarrow> ext_id_loop in_audio ls))"

definition audio_level_ext_id_from_sdp :: "string \<Rightarrow> nat option" where
  "audio_level_ext_id_from_sdp sdp = ext_id_loop False (str_lines sdp)"

section \<open>The detector\<close>

definition ACTIVE_LEVEL_DBOV :: nat where "ACTIVE_LEVEL_DBOV = 35"

definition MIN_PERCENTILE :: "32 word" where "MIN_PERCENTILE = 40"

definition UPDATE_INTERVAL :: nat where "UPDATE_INTERVAL = 400000000"

definition SMOOTH_INTERVALS :: nat where "SMOOTH_INTERVALS = 2"

record detector =
  al_level :: nat
  al_active :: bool
  al_total :: "32 word"
  al_active_packets :: "32 word"
  al_started :: "nat option"

definition detector_new :: detector where
  "detector_new = \<lparr> al_level = 127, al_active = False, al_total = 0, al_active_packets = 0, al_started = None \<rparr>"

definition saturating_inc :: "32 word \<Rightarrow> 32 word" where
  "saturating_inc w = (if w = - 1 then w else w + 1)"

definition compute_active :: "32 word \<Rightarrow> 32 word \<Rightarrow> bool" where
  "compute_active tot active_packets =
     (if tot = 0 then False else MIN_PERCENTILE \<le> active_packets * 100 div tot)"

definition window_over :: "nat \<Rightarrow> detector \<Rightarrow> bool" where
  "window_over now d =
     (case al_started d of None \<Rightarrow> True | Some s \<Rightarrow> UPDATE_INTERVAL \<le> now - s)"

definition observe :: "nat \<Rightarrow> nat \<Rightarrow> detector \<Rightarrow> detector" where
  "observe now lvl d =
     (let d = d\<lparr> al_level := lvl \<rparr>;
          d = (if window_over now d then
                 d\<lparr> al_active := compute_active (al_total d) (al_active_packets d),
                    al_total := 0, al_active_packets := 0, al_started := Some now \<rparr>
               else d);
          d = d\<lparr> al_total := saturating_inc (al_total d) \<rparr>
      in if lvl \<le> ACTIVE_LEVEL_DBOV
         then d\<lparr> al_active_packets := saturating_inc (al_active_packets d) \<rparr> else d)"

definition reset_if_stale :: "nat \<Rightarrow> detector \<Rightarrow> detector" where
  "reset_if_stale now d =
     (case al_started d of
        None \<Rightarrow> d
      | Some s \<Rightarrow>
          if UPDATE_INTERVAL * SMOOTH_INTERVALS \<le> now - s
          then d\<lparr> al_active := False, al_level := 127 \<rparr> else d)"

definition linear_level :: "detector \<Rightarrow> real" where
  "linear_level d =
     (if 127 \<le> al_level d then 0 else min (10 powr (real (al_level d) / - 20)) 1)"

section \<open>Lemmas\<close>

definition observe_all :: "(nat \<times> nat) list \<Rightarrow> detector \<Rightarrow> detector" where
  "observe_all obs d = fold (\<lambda>(now, lvl). observe now lvl) obs d"

lemma observe_all_simps [simp]:
  "observe_all [] d = d"
  "observe_all ((now, lvl) # obs) d = observe_all obs (observe now lvl d)"
  by (simp_all add: observe_all_def)

lemma saturating_inc_unat:
  "unat w < 2 ^ 32 - 1 \<Longrightarrow> unat (saturating_inc w) = unat w + 1"
proof -
  assume "unat w < 2 ^ 32 - 1"
  then have "w \<noteq> - 1" "unat w + 1 < 2 ^ 32" by (auto simp: unsigned_minus_1_eq_mask mask_eq_exp_minus_1)
  then show ?thesis by (simp add: saturating_inc_def unat_add_lem [THEN iffD1])
qed

lemma compute_active_iff:
  assumes "unat a * 100 < 2 ^ 32"
  shows "compute_active t a \<longleftrightarrow> 0 < unat t \<and> 40 * unat t \<le> 100 * unat a"
proof (cases "t = 0")
  case True
  then show ?thesis by (simp add: compute_active_def)
next
  case False
  then have t: "0 < unat t" by (simp add: unat_gt_0)
  have "unat (a * 100) = unat a * 100" using assms by (simp add: unat_mult_lem [THEN iffD1])
  then have "unat (a * 100 div t) = unat a * 100 div unat t" by (simp add: unat_div)
  then have "compute_active t a \<longleftrightarrow> 40 \<le> unat a * 100 div unat t"
    using False by (simp add: compute_active_def MIN_PERCENTILE_def word_le_nat_alt)
  then show ?thesis using t by (simp add: less_eq_div_iff_mult_less_eq mult.commute)
qed

lemma linear_level_range: "0 \<le> linear_level d" "linear_level d \<le> 1"
  by (auto simp: linear_level_def)

lemma linear_level_antimono:
  "al_level d \<le> al_level e \<Longrightarrow> linear_level e \<le> linear_level d"
proof -
  assume le: "al_level d \<le> al_level e"
  then have "10 powr (real (al_level e) / - 20) \<le> 10 powr (real (al_level d) / - 20)"
    by (intro powr_mono) simp_all
  then show ?thesis using le by (auto simp: linear_level_def intro: min.coboundedI1 min.mono)
qed

text \<open>Observations inside one window only count packets.\<close>

lemma observe_in_window:
  assumes "al_started d = Some s" "now < s + UPDATE_INTERVAL"
    and "unat (al_total d) < 2 ^ 32 - 1" "unat (al_active_packets d) < 2 ^ 32 - 1"
  shows "al_started (observe now lvl d) = Some s \<and> al_active (observe now lvl d) = al_active d
    \<and> unat (al_total (observe now lvl d)) = unat (al_total d) + 1
    \<and> unat (al_active_packets (observe now lvl d))
        = unat (al_active_packets d) + (if lvl \<le> ACTIVE_LEVEL_DBOV then 1 else 0)"
proof -
  have "\<not> UPDATE_INTERVAL \<le> now - s" using assms(2) by (simp add: UPDATE_INTERVAL_def)
  then show ?thesis
    using assms by (simp add: observe_def window_over_def Let_def saturating_inc_unat)
qed

lemma observe_all_in_window:
  assumes "al_started d = Some s" "\<forall>(now, lvl) \<in> set obs. now < s + UPDATE_INTERVAL"
    and "unat (al_total d) + length obs < 2 ^ 32" "unat (al_active_packets d) + length obs < 2 ^ 32"
  shows "al_started (observe_all obs d) = Some s \<and> al_active (observe_all obs d) = al_active d
    \<and> unat (al_total (observe_all obs d)) = unat (al_total d) + length obs
    \<and> unat (al_active_packets (observe_all obs d))
        = unat (al_active_packets d) + length (filter (\<lambda>(now, lvl). lvl \<le> ACTIVE_LEVEL_DBOV) obs)"
  using assms
proof (induction obs arbitrary: d)
  case Nil
  then show ?case by simp
next
  case (Cons o1 obs)
  obtain now lvl where o1: "o1 = (now, lvl)" by (cases o1)
  have "al_started (observe now lvl d) = Some s \<and> al_active (observe now lvl d) = al_active d
    \<and> unat (al_total (observe now lvl d)) = unat (al_total d) + 1
    \<and> unat (al_active_packets (observe now lvl d))
        = unat (al_active_packets d) + (if lvl \<le> ACTIVE_LEVEL_DBOV then 1 else 0)"
    by (rule observe_in_window) (use Cons.prems o1 in auto)
  then show ?case
    using Cons.IH [of "observe now lvl d"] Cons.prems by (auto simp: o1)
qed

lemma observe_new_window:
  assumes "window_over now d"
  shows "al_started (observe now lvl d) = Some now
    \<and> al_active (observe now lvl d) = compute_active (al_total d) (al_active_packets d)
    \<and> unat (al_total (observe now lvl d)) = 1
    \<and> unat (al_active_packets (observe now lvl d)) = (if lvl \<le> ACTIVE_LEVEL_DBOV then 1 else 0)"
  using assms by (auto simp: observe_def window_over_def Let_def saturating_inc_def split: option.splits)

section \<open>Properties\<close>

text \<open>C34: the speaker flag is the 40 percent rule of the window that ended.
  For any detector state, take the packet that opens a window, any further
  packets inside the 400 milliseconds of that window, and the first packet
  after it: that packet makes the track active exactly when at least 40 percent
  of the window's packets were at 35 dBov or louder.\<close>

theorem speaker_flag_is_window_percentile:
  assumes "window_over t0 d"
    and "\<forall>(t, l) \<in> set obs. t < t0 + UPDATE_INTERVAL" "t0 + UPDATE_INTERVAL \<le> t1"
    and "length obs < 40000000"
  shows "al_active (observe t1 l1 (observe_all ((t0, l0) # obs) d))
    \<longleftrightarrow> 40 * length ((t0, l0) # obs)
        \<le> 100 * length (filter (\<lambda>(t, l). l \<le> ACTIVE_LEVEL_DBOV) ((t0, l0) # obs))"
proof -
  let ?e = "observe t0 l0 d"
  let ?d = "observe_all obs ?e"
  let ?n = "length (filter (\<lambda>(t, l). l \<le> ACTIVE_LEVEL_DBOV) ((t0, l0) # obs))"
  note d0 = observe_new_window [OF assms(1), of l0]
  have a0: "unat (al_active_packets ?e) \<le> 1" using d0 by simp
  have d: "al_started ?d = Some t0 \<and> al_active ?d = al_active ?e
    \<and> unat (al_total ?d) = unat (al_total ?e) + length obs
    \<and> unat (al_active_packets ?d)
        = unat (al_active_packets ?e) + length (filter (\<lambda>(now, lvl). lvl \<le> ACTIVE_LEVEL_DBOV) obs)"
    by (rule observe_all_in_window) (use d0 a0 assms(2,4) in auto)
  then have n: "unat (al_active_packets ?d) = ?n" "unat (al_total ?d) = Suc (length obs)"
    using d0 by auto
  have "?n \<le> length ((t0, l0) # obs)" by (rule length_filter_le)
  then have "compute_active (al_total ?d) (al_active_packets ?d) \<longleftrightarrow> 40 * Suc (length obs) \<le> 100 * ?n"
    using compute_active_iff [of "al_active_packets ?d" "al_total ?d"] assms(4) n by simp
  moreover have "window_over t1 ?d" using d assms(3) by (simp add: window_over_def)
  ultimately show ?thesis
    using observe_new_window [of t1 ?d l1] by simp
qed

text \<open>C34 for a window of five packets, two of them loud: the flag is set.\<close>

theorem speaker_flag_is_window_percentile_witness:
  "al_active (observe 400000000 90
     (observe_all [(0, 20), (20000000, 90), (40000000, 30), (60000000, 90), (80000000, 90)] detector_new))"
  using speaker_flag_is_window_percentile
    [of 0 detector_new "[(20000000, 90), (40000000, 30), (60000000, 90), (80000000, 90)]" 400000000 90 20]
  by (simp add: window_over_def detector_new_def UPDATE_INTERVAL_def ACTIVE_LEVEL_DBOV_def)

end
