(* ===== verification/Rtp_Stats.thy ===== *)
theory Rtp_Stats
  imports LK_Prelude Complex_Main
begin

text \<open>
  The receive statistics of a published track and the connection quality
  derived from them (\<open>lk-server/src/media.rs\<close>, \<open>RtpStats\<close>, \<open>record_quality\<close>,
  \<open>quality_score\<close>, \<open>quality_rating\<close>, \<open>ntp_to_unix_ns\<close>, \<open>rtt_ms_from_report\<close>).
  Sequence numbers and RTP times are words that wrap; the \<open>u64\<close> counters are
  natural numbers; floating point values are exact rationals.
\<close>

unbundle bit_operations_syntax

section \<open>Definitions\<close>

record rtp_stats =
  st_packets :: nat
  st_expected :: nat
  st_lost :: nat
  st_out_of_order :: nat
  st_jitter_ts :: rat
  st_max_seq :: "16 word option"
  st_last_rtp_ts :: "32 word option"
  st_last_arrival_ms :: "int option"

definition rtp_stats_default :: rtp_stats where
  "rtp_stats_default =
     \<lparr> st_packets = 0, st_expected = 0, st_lost = 0, st_out_of_order = 0, st_jitter_ts = 0,
       st_max_seq = None, st_last_rtp_ts = None, st_last_arrival_ms = None \<rparr>"

definition observe_seq :: "16 word \<Rightarrow> rtp_stats \<Rightarrow> rtp_stats" where
  "observe_seq seq st =
     (case st_max_seq st of
        None \<Rightarrow> st\<lparr> st_max_seq := Some seq, st_expected := 1 \<rparr>
      | Some mx \<Rightarrow>
          let behind = unat (mx - seq) in
          if 0 < behind \<and> behind < 32768 then
            st\<lparr> st_out_of_order := st_out_of_order st + 1,
                st_expected := st_expected st + 1,
                st_lost := (if 0 < st_lost st then st_lost st - 1 else st_lost st) \<rparr>
          else
            let gap = unat (seq - mx) in
            if 0 < gap \<and> gap < 32768 then
              st\<lparr> st_expected := st_expected st + gap,
                  st_lost := st_lost st + (gap - 1),
                  st_max_seq := Some seq \<rparr>
            else st\<lparr> st_expected := st_expected st + 1 \<rparr>)"

definition observe_jitter :: "32 word \<Rightarrow> int \<Rightarrow> rtp_stats \<Rightarrow> rtp_stats" where
  "observe_jitter rtp_ts arrival_ms st =
     (case (st_last_rtp_ts st, st_last_arrival_ms st) of
        (Some prev_ts, Some prev_arr) \<Rightarrow>
          let d = uint (rtp_ts - prev_ts) - (arrival_ms - prev_arr) * 48 in
          st\<lparr> st_jitter_ts := st_jitter_ts st + (of_int \<bar>d\<bar> - st_jitter_ts st) / 16 \<rparr>
      | _ \<Rightarrow> st)"

definition rtp_observe :: "16 word \<Rightarrow> 32 word \<Rightarrow> int \<Rightarrow> rtp_stats \<Rightarrow> rtp_stats" where
  "rtp_observe seq rtp_ts arrival_ms st =
     (let st = st\<lparr> st_packets := st_packets st + 1 \<rparr>;
          st = observe_seq seq st;
          st = observe_jitter rtp_ts arrival_ms st
      in st\<lparr> st_last_rtp_ts := Some rtp_ts, st_last_arrival_ms := Some arrival_ms \<rparr>)"

definition loss_percent :: "rtp_stats \<Rightarrow> rat" where
  "loss_percent st =
     (if 0 < st_expected st then of_nat (st_lost st) / of_nat (st_expected st) * 100 else 0)"

definition out_of_order_percent :: "rtp_stats \<Rightarrow> rat" where
  "out_of_order_percent st =
     (if 0 < st_expected st then of_nat (st_out_of_order st) / of_nat (st_expected st) * 100 else 0)"

definition jitter_us :: "rtp_stats \<Rightarrow> rat" where
  "jitter_us st = st_jitter_ts st / 48 * 1000000"

definition quality_score :: "rat \<Rightarrow> rat \<Rightarrow> rat" where
  "quality_score loss_pct jitter_ms = max 0 (min 5 (5 - 8 * (loss_pct / 100) - jitter_ms / 50))"

definition quality_rating :: "rat \<Rightarrow> int" where
  "quality_rating score =
     (if 4 \<le> score then 0 else if 3 \<le> score then 1 else if 3 / 2 \<le> score then 2 else 3)"

text \<open>What \<open>record_quality\<close> reads and writes: the counts it reported last, the
  two cumulative counters, and the values put into the histograms.\<close>

record quality_metrics =
  qm_reported :: "nat \<times> nat"
  qm_loss_total :: nat
  qm_ooo_total :: nat
  qm_scores :: "rat list"
  qm_ratings :: "int list"
  qm_loss_pct :: "rat list"
  qm_ooo_pct :: "rat list"
  qm_jitter :: "rat list"

definition record_quality :: "rtp_stats \<Rightarrow> quality_metrics \<Rightarrow> quality_metrics" where
  "record_quality st q =
     (let loss_pct = loss_percent st;
          ooo_pct = out_of_order_percent st;
          jit = jitter_us st;
          score = quality_score loss_pct (jit / 1000);
          d_loss = st_lost st - fst (qm_reported q);
          d_ooo = st_out_of_order st - snd (qm_reported q)
      in q\<lparr> qm_scores := qm_scores q @ [score],
            qm_ratings := qm_ratings q @ [quality_rating score],
            qm_loss_pct := qm_loss_pct q @ (if 0 < loss_pct then [loss_pct] else []),
            qm_ooo_pct := qm_ooo_pct q @ (if 0 < ooo_pct then [ooo_pct] else []),
            qm_jitter := qm_jitter q @ (if 0 < jit then [jit] else []),
            qm_loss_total := qm_loss_total q + (if 0 < d_loss then d_loss else 0),
            qm_ooo_total := qm_ooo_total q + (if 0 < d_ooo then d_ooo else 0),
            qm_reported := (st_lost st, st_out_of_order st) \<rparr>)"

record forward_latency =
  fl_jitter :: rat
  fl_last :: "rat option"

definition observe_forward_latency :: "rat \<Rightarrow> forward_latency \<Rightarrow> forward_latency" where
  "observe_forward_latency latency_ns f =
     (let f = (case fl_last f of
                 None \<Rightarrow> f
               | Some prev \<Rightarrow> f\<lparr> fl_jitter := fl_jitter f + (\<bar>latency_ns - prev\<bar> - fl_jitter f) / 16 \<rparr>)
      in f\<lparr> fl_last := Some latency_ns \<rparr>)"

definition ntp_to_unix_ns :: "64 word \<Rightarrow> int" where
  "ntp_to_unix_ns ntp =
     (let seconds = uint (drop_bit 32 ntp);
          fraction = uint (ntp AND 0xffffffff);
          unix_secs = seconds - 2208988800
      in unix_secs * 1000000000 + fraction * 1000000000 sdiv 2 ^ 32)"

definition rtt_ms_from_report :: "int \<Rightarrow> 32 word \<Rightarrow> 32 word \<Rightarrow> rat" where
  "rtt_ms_from_report now_unix_secs lsr dlsr =
     (let now_sec32 = (now_unix_secs + 2208988800) mod 2 ^ 32;
          secs = of_int (now_sec32 - uint lsr) - of_int (uint dlsr) / 65536
      in max 0 (secs * 1000))"

section \<open>Lemmas\<close>

definition rtp_run :: "(16 word \<times> 32 word \<times> int) list \<Rightarrow> rtp_stats \<Rightarrow> rtp_stats" where
  "rtp_run ps st = fold (\<lambda>(s, t, a). rtp_observe s t a) ps st"

lemma rtp_run_simps [simp]:
  "rtp_run [] st = st"
  "rtp_run (p # ps) st = rtp_run ps (case p of (s, t, a) \<Rightarrow> rtp_observe s t a st)"
  by (simp_all add: rtp_run_def split: prod.splits)

text \<open>The counters of any packet sequence: every packet is counted, losses and
  received packets together never exceed the expected count, and the excess is
  at most the number of reordered packets.\<close>

definition stats_inv :: "rtp_stats \<Rightarrow> bool" where
  "stats_inv st \<longleftrightarrow>
     (st_max_seq st = None \<longleftrightarrow> st_packets st = 0) \<and>
     (st_packets st = 0 \<longrightarrow> st_expected st = 0 \<and> st_lost st = 0 \<and> st_out_of_order st = 0) \<and>
     st_packets st + st_lost st \<le> st_expected st \<and>
     st_expected st \<le> st_packets st + st_lost st + st_out_of_order st \<and>
     st_out_of_order st \<le> st_packets st \<and>
     0 \<le> st_jitter_ts st"

lemma jitter_counts [simp]:
  "st_packets (observe_jitter t a st) = st_packets st"
  "st_expected (observe_jitter t a st) = st_expected st"
  "st_lost (observe_jitter t a st) = st_lost st"
  "st_out_of_order (observe_jitter t a st) = st_out_of_order st"
  "st_max_seq (observe_jitter t a st) = st_max_seq st"
  by (simp_all add: observe_jitter_def Let_def split: option.splits)

lemma ewma_nonneg: "0 \<le> x \<Longrightarrow> 0 \<le> d \<Longrightarrow> 0 \<le> x + (d - x) / (16 :: rat)"
  by (simp add: field_simps)

lemma jitter_nonneg: "0 \<le> st_jitter_ts st \<Longrightarrow> 0 \<le> st_jitter_ts (observe_jitter t a st)"
  unfolding observe_jitter_def Let_def by (auto intro!: ewma_nonneg split: option.splits)

lemma seq_jitter [simp]:
  "st_jitter_ts (observe_seq s st) = st_jitter_ts st"
  "st_packets (observe_seq s st) = st_packets st"
  by (simp_all add: observe_seq_def Let_def split: option.splits)

lemma observe_seq_inv:
  assumes "stats_inv st"
  shows "let st' = observe_seq s (st\<lparr> st_packets := st_packets st + 1 \<rparr>) in
     st_max_seq st' \<noteq> None \<and> st_packets st' + st_lost st' \<le> st_expected st' \<and>
     st_expected st' \<le> st_packets st' + st_lost st' + st_out_of_order st' \<and>
     st_out_of_order st' \<le> st_packets st'"
  using assms by (auto simp: stats_inv_def observe_seq_def Let_def split: option.splits)

lemma rtp_observe_inv:
  assumes "stats_inv st"
  shows "stats_inv (rtp_observe s t a st)"
  using observe_seq_inv [OF assms, of s] assms
  by (simp add: stats_inv_def rtp_observe_def Let_def jitter_nonneg)

lemma rtp_run_inv: "stats_inv st \<Longrightarrow> stats_inv (rtp_run ps st)"
  by (induction ps arbitrary: st) (auto simp: rtp_observe_inv split: prod.splits)

lemma stats_inv_default [simp]: "stats_inv rtp_stats_default"
  by (simp add: stats_inv_def rtp_stats_default_def)

lemma percent_range:
  assumes "a \<le> b"
  shows "0 \<le> (if 0 < b then of_nat a / of_nat b * 100 else (0 :: rat))"
    and "(if 0 < b then of_nat a / of_nat b * 100 else (0 :: rat)) \<le> 100"
  using assms by (auto simp: divide_simps)

lemma loss_percent_range:
  assumes "stats_inv st"
  shows "0 \<le> loss_percent st" "loss_percent st \<le> 100"
  unfolding loss_percent_def
  by (rule percent_range, use assms in \<open>simp add: stats_inv_def\<close>)+

lemma out_of_order_percent_range:
  assumes "stats_inv st"
  shows "0 \<le> out_of_order_percent st" "out_of_order_percent st \<le> 100"
  unfolding out_of_order_percent_def
  by (rule percent_range, use assms in \<open>simp add: stats_inv_def\<close>)+

lemma quality_score_range: "0 \<le> quality_score l j" "quality_score l j \<le> 5"
  by (simp_all add: quality_score_def)

lemma quality_rating_antimono: "s \<le> s' \<Longrightarrow> quality_rating s' \<le> quality_rating s"
  by (simp add: quality_rating_def)

lemma quality_score_antimono: "l \<le> l' \<Longrightarrow> j \<le> j' \<Longrightarrow> quality_score l' j' \<le> quality_score l j"
proof -
  assume "l \<le> l'" "j \<le> j'"
  then have "l / 100 \<le> l' / 100" "j / 50 \<le> j' / 50" by (simp_all add: divide_right_mono)
  then show ?thesis unfolding quality_score_def by (intro max.mono min.mono order_refl) linarith
qed

text \<open>A stream received in order, given by its gaps.\<close>

fun gap_stream :: "16 word \<Rightarrow> nat list \<Rightarrow> 16 word list" where
  "gap_stream s [] = []"
| "gap_stream s (g # gs) = (s + of_nat g) # gap_stream (s + of_nat g) gs"

lemma observe_seq_gap:
  assumes "st_max_seq st = Some s" "1 \<le> g" "g < 32768"
  shows "observe_seq (s + of_nat g) st =
    st\<lparr> st_expected := st_expected st + g, st_lost := st_lost st + (g - 1), st_max_seq := Some (s + of_nat g) \<rparr>"
proof -
  have g: "unat (of_nat g :: 16 word) = g" using assms(3) by (simp add: unat_of_nat)
  have "unat (s - (s + of_nat g)) = unat (- (of_nat g :: 16 word))" by simp
  also have "\<dots> = 65536 - g"
  proof -
    have "- (of_nat g :: 16 word) = of_nat 65536 - of_nat g" by simp
    also have "\<dots> = of_nat (65536 - g)" using assms(3) by (intro of_nat_diff [symmetric]) simp
    finally show ?thesis using assms(2) by (simp only: unat_of_nat) simp
  qed
  finally have "\<not> unat (s - (s + of_nat g)) < 32768" using assms(3) by simp
  then show ?thesis using assms g by (simp add: observe_seq_def Let_def)
qed

lemma rtp_run_in_order:
  assumes "st_max_seq st = Some s" "\<forall>g \<in> set gs. 1 \<le> g \<and> g < 32768" "map fst ps = gap_stream s gs"
  shows "st_packets (rtp_run ps st) = st_packets st + length gs
    \<and> st_expected (rtp_run ps st) = st_expected st + sum_list gs
    \<and> st_lost (rtp_run ps st) = st_lost st + (sum_list gs - length gs)
    \<and> st_out_of_order (rtp_run ps st) = st_out_of_order st"
  using assms
proof (induction gs arbitrary: st s ps)
  case Nil
  then show ?case by simp
next
  case (Cons g gs)
  then obtain t a ps' where ps: "ps = (s + of_nat g, t, a) # ps'" "map fst ps' = gap_stream (s + of_nat g) gs"
    by (cases ps) auto
  define st1 where "st1 = rtp_observe (s + of_nat g) t a st"
  have st1: "st_max_seq st1 = Some (s + of_nat g)" "st_packets st1 = st_packets st + 1"
    "st_expected st1 = st_expected st + g" "st_lost st1 = st_lost st + (g - 1)"
    "st_out_of_order st1 = st_out_of_order st"
    using Cons.prems(1,2) observe_seq_gap [of "st\<lparr> st_packets := st_packets st + 1 \<rparr>" s g]
    by (simp_all add: st1_def rtp_observe_def Let_def)
  have "length gs \<le> sum_list gs"
    using Cons.prems(2) by (induction gs) auto
  then show ?case
    using Cons.IH [OF st1(1) _ ps(2)] Cons.prems(2) st1 by (auto simp: ps(1) simp flip: st1_def)
qed

text \<open>The forwarding loop interleaves packets with periodic reports.\<close>

datatype rtp_event = Packet "16 word" "32 word" int | Report

fun rtp_step :: "rtp_event \<Rightarrow> rtp_stats \<times> quality_metrics \<Rightarrow> rtp_stats \<times> quality_metrics" where
  "rtp_step (Packet s t a) (st, q) = (rtp_observe s t a st, q)"
| "rtp_step Report (st, q) = (st, record_quality st q)"

definition quality_metrics_default :: quality_metrics where
  "quality_metrics_default =
     \<lparr> qm_reported = (0, 0), qm_loss_total = 0, qm_ooo_total = 0, qm_scores = [], qm_ratings = [],
       qm_loss_pct = [], qm_ooo_pct = [], qm_jitter = [] \<rparr>"

definition report_inv :: "rtp_stats \<times> quality_metrics \<Rightarrow> bool" where
  "report_inv sq \<longleftrightarrow> (case sq of (st, q) \<Rightarrow>
     stats_inv st \<and> qm_ooo_total q = snd (qm_reported q) \<and> snd (qm_reported q) \<le> st_out_of_order st
     \<and> fst (qm_reported q) \<le> qm_loss_total q
     \<and> (\<forall>s \<in> set (qm_scores q). 0 \<le> s \<and> s \<le> 5) \<and> (\<forall>r \<in> set (qm_ratings q). 0 \<le> r \<and> r \<le> 3)
     \<and> (\<forall>p \<in> set (qm_loss_pct q) \<union> set (qm_ooo_pct q). 0 < p \<and> p \<le> 100))"

lemma observe_seq_ooo: "st_out_of_order st \<le> st_out_of_order (observe_seq s st)"
  by (simp add: observe_seq_def Let_def split: option.splits)

lemma rtp_observe_ooo: "st_out_of_order st \<le> st_out_of_order (rtp_observe s t a st)"
  using observe_seq_ooo [of "st\<lparr> st_packets := st_packets st + 1 \<rparr>" s]
  by (simp add: rtp_observe_def Let_def)

lemma record_quality_inv: "report_inv (st, q) \<Longrightarrow> report_inv (st, record_quality st q)"
proof -
  assume i: "report_inv (st, q)"
  then have st: "stats_inv st" by (simp add: report_inv_def)
  have "quality_rating x \<in> {0 .. 3}" for x by (simp add: quality_rating_def)
  then show ?thesis
    using i loss_percent_range [OF st] out_of_order_percent_range [OF st] quality_score_range
    by (auto simp: report_inv_def record_quality_def Let_def)
qed

lemma rtp_step_inv: "report_inv sq \<Longrightarrow> report_inv (rtp_step e sq)"
proof (cases sq)
  case (Pair st q)
  assume i: "report_inv sq"
  show ?thesis
  proof (cases e)
    case (Packet s t a)
    have "st_out_of_order st \<le> st_out_of_order (rtp_observe s t a st)" by (rule rtp_observe_ooo)
    then show ?thesis using i rtp_observe_inv by (auto simp: Packet Pair report_inv_def)
  next
    case Report
    then show ?thesis using i record_quality_inv by (simp add: Pair)
  qed
qed

lemma rtp_steps_inv: "report_inv sq \<Longrightarrow> report_inv (fold rtp_step es sq)"
  by (induction es arbitrary: sq) (auto simp: rtp_step_inv)

lemma report_inv_default: "report_inv (rtp_stats_default, quality_metrics_default)"
  by (simp add: report_inv_def quality_metrics_default_def)

section \<open>Properties\<close>

text \<open>The receive counters of every packet sequence, wrapped sequence
  numbers, reordering and duplicates included: all packets are counted, packets
  and losses together are covered by the expected count, and the expected count
  exceeds them by at most the number of reordered packets.  So the loss and
  reordering percentages lie between 0 and 100 and the score between 0 and 5.\<close>

theorem rtp_counters_consistent:
  "let st = rtp_run ps rtp_stats_default in
     st_packets st = length ps
     \<and> st_packets st + st_lost st \<le> st_expected st
     \<and> st_expected st \<le> st_packets st + st_lost st + st_out_of_order st
     \<and> 0 \<le> loss_percent st \<and> loss_percent st \<le> 100
     \<and> 0 \<le> out_of_order_percent st \<and> out_of_order_percent st \<le> 100
     \<and> 0 \<le> quality_score (loss_percent st) (jitter_us st / 1000)
     \<and> quality_score (loss_percent st) (jitter_us st / 1000) \<le> 5"
proof -
  have "st_packets (rtp_run ps st) = st_packets st + length ps" for st
    by (induction ps arbitrary: st) (auto simp: rtp_observe_def Let_def split: prod.splits)
  then have "st_packets (rtp_run ps rtp_stats_default) = length ps"
    by (simp add: rtp_stats_default_def)
  moreover have inv: "stats_inv (rtp_run ps rtp_stats_default)" by (rule rtp_run_inv) simp
  ultimately show ?thesis
    using loss_percent_range [OF inv] out_of_order_percent_range [OF inv] quality_score_range
    by (simp add: Let_def stats_inv_def)
qed

text \<open>For a stream received in order, with gaps below half the sequence
  space and any starting sequence number, the expected count is the number of
  sequence numbers from the first to the last packet, the loss count is the
  number of those that did not arrive, and nothing is counted as reordered.\<close>

theorem rtp_in_order_exact:
  assumes "\<forall>g \<in> set gs. 1 \<le> g \<and> g < 32768" "map fst ps = s # gap_stream s gs"
  shows "let st = rtp_run ps rtp_stats_default in
     st_expected st = 1 + sum_list gs \<and> st_lost st = sum_list gs - length gs
     \<and> st_packets st = 1 + length gs \<and> st_out_of_order st = 0"
proof -
  obtain t a ps' where ps: "ps = (s, t, a) # ps'" "map fst ps' = gap_stream s gs"
    using assms(2) by (cases ps) auto
  define st1 where "st1 = rtp_observe s t a rtp_stats_default"
  have st1: "st_max_seq st1 = Some s" "st_packets st1 = 1" "st_expected st1 = 1" "st_lost st1 = 0"
    "st_out_of_order st1 = 0"
    by (simp_all add: st1_def rtp_observe_def observe_seq_def rtp_stats_default_def Let_def)
  show ?thesis
    using rtp_run_in_order [OF st1(1) assms(1) ps(2)] st1 by (simp add: ps(1) Let_def flip: st1_def)
qed

text \<open>Across the wrap of the sequence number: 65535 is followed by 1.\<close>

theorem rtp_in_order_exact_witness:
  "let st = rtp_run [(65535, 0, 0), (1, 960, 20), (2, 1920, 40)] rtp_stats_default in
     st_expected st = 4 \<and> st_lost st = 1 \<and> st_packets st = 3 \<and> st_out_of_order st = 0"
  using rtp_in_order_exact [of "[2, 1]" "[(65535, 0, 0), (1, 960, 20), (2, 1920, 40)]" 65535]
  by (simp add: Let_def numeral_3_eq_3)

text \<open>The counters reported while packets arrive: the reordering counter is
  exactly the count of the last report, the loss counter never falls below the
  loss count of the last report, and every score, rating and percentage put
  into the histograms is in its range.\<close>

theorem reported_quality_consistent:
  "report_inv (fold rtp_step es (rtp_stats_default, quality_metrics_default))"
  by (intro rtp_steps_inv report_inv_default)

text \<open>A reordered packet is added to the expected count although its slot was
  counted when the later packet arrived: three sequence numbers give four.\<close>

theorem reordered_slot_counted_twice:
  "let st = rtp_run [(s, t0, a0), (s + 2, t1, a1), (s + 1, t2, a2)] rtp_stats_default in
     st_expected st = 4 \<and> st_packets st = 3 \<and> st_lost st = 0"
  by (simp add: rtp_observe_def observe_seq_def rtp_stats_default_def Let_def unsigned_minus_1_eq_mask
      mask_eq_exp_minus_1)

text \<open>A receiver report carries the middle 32 bits of the NTP time in its LSR
  field.  For a report that answers at once a sender report sent now, the round
  trip time comes out as more than a year.\<close>

definition lsr_of_ntp :: "64 word \<Rightarrow> 32 word" where
  "lsr_of_ntp ntp = ucast (drop_bit 16 ntp)"

theorem rtt_from_middle_bits_wrong:
  "365 * 24 * 3600 * 1000 < rtt_ms_from_report 1700000000 (lsr_of_ntp (push_bit 32 (1700000000 + 2208988800))) 0"
  by code_simp

end
