(* ===== verification/Media.thy ===== *)
theory Media
  imports Core_Types Audio_Level Rtp_Stats
begin

text \<open>
  The media state of a participant (\<open>lk-server/src/media.rs\<close>,
  \<open>ParticipantMedia\<close> and \<open>Forwarder\<close>) and the operations that touch only one
  participant's state: forwarder subscribers, the candidates that arrive before
  a peer connection exists, data channels, and the speaker list.  A peer
  connection of the webrtc library is represented by what the program hands to
  it: the local tracks attached through senders and the ICE candidates.  An
  attached track gets a sender of its own, and removing a sender detaches that
  track only.
\<close>

section \<open>State\<close>

record pc =
  pc_senders :: "(nat, string) assoc"
  pc_next :: nat
  pc_candidates :: "string list"

definition pc_new :: pc where
  "pc_new = \<lparr> pc_senders = [], pc_next = 0, pc_candidates = [] \<rparr>"

definition pc_add_track :: "string \<Rightarrow> pc \<Rightarrow> nat \<times> pc" where
  "pc_add_track tid c = (pc_next c, c\<lparr> pc_senders := put (pc_next c) tid (pc_senders c), pc_next := Suc (pc_next c) \<rparr>)"

definition pc_remove_track :: "nat \<Rightarrow> pc \<Rightarrow> pc" where
  "pc_remove_track snd_id c = c\<lparr> pc_senders := del snd_id (pc_senders c) \<rparr>"

definition pc_add_candidate :: "string \<Rightarrow> pc \<Rightarrow> pc" where
  "pc_add_candidate cand c = c\<lparr> pc_candidates := pc_candidates c @ [cand] \<rparr>"

datatype packet_value = UserPacket string "string list" | OtherPacket string

datatype packet_kind = Reliable | Lossy

record data_packet =
  dp_kind :: int
  dp_identity :: string
  dp_sid :: string
  dp_dest_identities :: "string list"
  dp_value :: packet_value

text \<open>\<open>data_packet::Kind::try_from\<close>: 0 is reliable, 1 is lossy.\<close>

definition kind_try_from :: "int \<Rightarrow> packet_kind option" where
  "kind_try_from v = (if v = 0 then Some Reliable else if v = 1 then Some Lossy else None)"

record forwarder =
  f_track_sid :: string
  f_publisher_sid :: string
  f_audio :: detector
  f_ext_id :: "nat option"
  f_subscribers :: "(string, nat) assoc"
  f_closed :: bool
  f_stats :: rtp_stats
  f_quality :: quality_metrics
  f_latency :: forward_latency
  f_source :: string
  f_sender_report :: "(32 word \<times> int) option"

record media =
  m_publisher :: "pc option"
  m_subscriber :: "pc option"
  m_forwarders :: "(string, forwarder) assoc"
  m_subscriber_tracks :: "(string, string) assoc"
  m_subscriber_senders :: "(string, nat) assoc"
  m_publisher_mids :: attrs
  m_audio_level_ext :: "nat option"
  m_reliable :: "data_packet list option"
  m_lossy :: "data_packet list option"
  m_pending_candidates :: "(int, string list) assoc"
  m_answer_pending :: bool
  m_needs_negotiation :: bool
  m_offer_seq :: "32 word"
  m_tasks :: "bool list"

definition media_default :: media where
  "media_default =
     \<lparr> m_publisher = None, m_subscriber = None, m_forwarders = [], m_subscriber_tracks = [],
       m_subscriber_senders = [], m_publisher_mids = [], m_audio_level_ext = None,
       m_reliable = None, m_lossy = None, m_pending_candidates = [],
       m_answer_pending = False, m_needs_negotiation = False, m_offer_seq = 0, m_tasks = [] \<rparr>"

section \<open>Forwarders\<close>

definition forwarder_new :: "string \<Rightarrow> string \<Rightarrow> nat option \<Rightarrow> string \<Rightarrow> forwarder" where
  "forwarder_new track_sid publisher_sid ext_id source =
     \<lparr> f_track_sid = track_sid, f_publisher_sid = publisher_sid, f_audio = detector_new,
       f_ext_id = ext_id, f_subscribers = [], f_closed = False, f_stats = rtp_stats_default,
       f_quality = quality_metrics_default, f_latency = \<lparr> fl_jitter = 0, fl_last = None \<rparr>,
       f_source = source, f_sender_report = None \<rparr>"

definition add_subscriber :: "string \<Rightarrow> nat \<Rightarrow> forwarder \<Rightarrow> forwarder" where
  "add_subscriber sid tr f = f\<lparr> f_subscribers := put sid tr (f_subscribers f) \<rparr>"

definition remove_subscriber :: "string \<Rightarrow> forwarder \<Rightarrow> forwarder" where
  "remove_subscriber sid f = f\<lparr> f_subscribers := del sid (f_subscribers f) \<rparr>"

definition set_sender_report :: "32 word \<Rightarrow> int \<Rightarrow> forwarder \<Rightarrow> forwarder" where
  "set_sender_report rtp_time ntp_ns f = f\<lparr> f_sender_report := Some (rtp_time, ntp_ns) \<rparr>"

text \<open>An incoming packet: header extensions, header fields and payload.\<close>

record rtp_packet =
  rp_extensions :: "(nat \<times> nat list) list"
  rp_seq :: "16 word"
  rp_ts :: "32 word"
  rp_payload :: "nat list"

fun ext_audio_level :: "nat \<Rightarrow> (nat \<times> nat list) list \<Rightarrow> nat option" where
  "ext_audio_level i [] = None"
| "ext_audio_level i ((j, pl) # es) =
     (if j = i \<and> pl \<noteq> [] then Some (hd pl mod 128) else ext_audio_level i es)"

text \<open>One round of the forwarding loop: the forwarder's new state, and the
  packet written to each subscriber.\<close>

definition forward_packet ::
    "nat \<Rightarrow> int \<Rightarrow> rtp_packet \<Rightarrow> forwarder \<Rightarrow> forwarder \<times> (string \<times> rtp_packet) list" where
  "forward_packet now_ns now_unix_ns pkt f =
     (let f = (case f_ext_id f of
                 None \<Rightarrow> f
               | Some i \<Rightarrow>
                   (case ext_audio_level i (rp_extensions pkt) of
                      None \<Rightarrow> f
                    | Some l \<Rightarrow> f\<lparr> f_audio := observe now_ns l (f_audio f) \<rparr>));
          pkt = pkt\<lparr> rp_extensions := [] \<rparr>;
          f = f\<lparr> f_stats := rtp_observe (rp_seq pkt) (rp_ts pkt) (now_unix_ns div 1000000) (f_stats f) \<rparr>;
          f = (case f_sender_report f of
                 None \<Rightarrow> f
               | Some (sr_rtp, sr_ntp_ns) \<Rightarrow>
                   let ts_delta_ns = of_int (uint (rp_ts pkt - sr_rtp)) / 48000 * 1000000000;
                       latency_ns = of_int now_unix_ns - (of_int sr_ntp_ns + ts_delta_ns)
                   in f\<lparr> f_latency := observe_forward_latency latency_ns (f_latency f) \<rparr>);
          f = (if st_packets (f_stats f) mod 100 = 0
               then f\<lparr> f_quality := record_quality (f_stats f) (f_quality f) \<rparr> else f)
      in (f, map (\<lambda>(sid, _). (sid, pkt)) (f_subscribers f)))"

section \<open>Candidates and data\<close>

definition target_pc :: "int \<Rightarrow> media \<Rightarrow> pc option" where
  "target_pc target m = (if target = 0 then m_publisher m else m_subscriber m)"

definition set_target_pc :: "int \<Rightarrow> pc \<Rightarrow> media \<Rightarrow> media" where
  "set_target_pc target c m =
     (if target = 0 then m\<lparr> m_publisher := Some c \<rparr> else m\<lparr> m_subscriber := Some c \<rparr>)"

text \<open>The JSON decoder of a candidate is the argument \<open>decode\<close>.\<close>

definition add_ice_candidate ::
    "(string \<Rightarrow> string option) \<Rightarrow> string \<Rightarrow> int \<Rightarrow> media \<Rightarrow> (string, unit) result \<times> media" where
  "add_ice_candidate decode candidate target m =
     (case decode candidate of
        None \<Rightarrow> (Inl (''invalid ice candidate json: '' @ candidate), m)
      | Some cand \<Rightarrow>
          (case target_pc target m of
             None \<Rightarrow>
               (Inr (), m\<lparr> m_pending_candidates :=
                  put target ((case look (m_pending_candidates m) target of None \<Rightarrow> [] | Some cs \<Rightarrow> cs) @ [cand])
                    (m_pending_candidates m) \<rparr>)
           | Some c \<Rightarrow> (Inr (), set_target_pc target (pc_add_candidate cand c) m)))"

definition TARGET_PUBLISHER :: int where "TARGET_PUBLISHER = 0"

definition TARGET_SUBSCRIBER :: int where "TARGET_SUBSCRIBER = 1"

definition take_pending :: "int \<Rightarrow> media \<Rightarrow> string list \<times> media" where
  "take_pending target m =
     ((case look (m_pending_candidates m) target of None \<Rightarrow> [] | Some cs \<Rightarrow> cs),
      m\<lparr> m_pending_candidates := del target (m_pending_candidates m) \<rparr>)"

text \<open>\<open>setup_subscriber\<close> and \<open>ensure_publisher\<close> when webrtc creates the
  connection: an existing connection is kept, a new one takes over the
  candidates that arrived early.\<close>

definition commit_subscriber :: "string list \<Rightarrow> media \<Rightarrow> media" where
  "commit_subscriber pending m =
     m\<lparr> m_subscriber := Some (fold pc_add_candidate pending pc_new),
        m_reliable := Some [], m_lossy := Some [] \<rparr>"

definition setup_subscriber :: "media \<Rightarrow> media" where
  "setup_subscriber m =
     (case m_subscriber m of
        Some _ \<Rightarrow> m
      | None \<Rightarrow> let (pending, m) = take_pending TARGET_SUBSCRIBER m in commit_subscriber pending m)"

definition ensure_publisher :: "media \<Rightarrow> media" where
  "ensure_publisher m =
     (case m_publisher m of
        Some _ \<Rightarrow> m
      | None \<Rightarrow>
          let (pending, m) = take_pending TARGET_PUBLISHER m
          in m\<lparr> m_publisher := Some (fold pc_add_candidate pending pc_new) \<rparr>)"

definition send_data :: "data_packet \<Rightarrow> media \<Rightarrow> media" where
  "send_data packet m =
     (case (case kind_try_from (dp_kind packet) of None \<Rightarrow> Reliable | Some k \<Rightarrow> k) of
        Reliable \<Rightarrow> m\<lparr> m_reliable := map_option (\<lambda>ps. ps @ [packet]) (m_reliable m) \<rparr>
      | Lossy \<Rightarrow> m\<lparr> m_lossy := map_option (\<lambda>ps. ps @ [packet]) (m_lossy m) \<rparr>)"

text \<open>The part of \<open>close_participant_media\<close> that clears the participant's own state.\<close>

definition clear_media :: "media \<Rightarrow> media" where
  "clear_media m =
     m\<lparr> m_publisher := None, m_subscriber := None, m_forwarders := [],
        m_subscriber_tracks := [], m_subscriber_senders := [] \<rparr>"

definition drop_subscriber :: "string \<Rightarrow> media \<Rightarrow> media" where
  "drop_subscriber sid m = m\<lparr> m_forwarders := map (\<lambda>(k, f). (k, remove_subscriber sid f)) (m_forwarders m) \<rparr>"

section \<open>Speakers\<close>

record speaker =
  sp_sid :: string
  sp_level :: real
  sp_active :: bool

fun first_active :: "nat \<Rightarrow> (string, forwarder) assoc \<Rightarrow> detector option \<times> (string, forwarder) assoc" where
  "first_active now [] = (None, [])"
| "first_active now ((k, f) # fs) =
     (let f = f\<lparr> f_audio := reset_if_stale now (f_audio f) \<rparr> in
      if al_active (f_audio f) then (Some (f_audio f), (k, f) # fs)
      else let (r, fs') = first_active now fs in (r, (k, f) # fs'))"

definition speaker_of :: "nat \<Rightarrow> string \<Rightarrow> media \<Rightarrow> speaker list \<times> media" where
  "speaker_of now sid m =
     (let (r, fs) = first_active now (m_forwarders m) in
      (case r of
         None \<Rightarrow> []
       | Some d \<Rightarrow> [\<lparr> sp_sid = sid, sp_level = linear_level d, sp_active = True \<rparr>],
       m\<lparr> m_forwarders := fs \<rparr>))"

section \<open>Lemmas\<close>

lemma look_map_values: "look (map (\<lambda>(k, v). (k, g v)) m) k' = map_option g (look m k')"
  by (induction m) (auto simp: look_def)

lemma drop_subscriber_look:
  "look (m_forwarders (drop_subscriber sid m)) k = map_option (remove_subscriber sid) (look (m_forwarders m) k)"
  by (simp add: drop_subscriber_def look_map_values)

lemma look_remove_subscriber [simp]:
  "look (f_subscribers (remove_subscriber sid f)) s = (if s = sid then None else look (f_subscribers f) s)"
  by (simp add: remove_subscriber_def)

lemma look_add_subscriber [simp]:
  "look (f_subscribers (add_subscriber sid tr f)) s = (if s = sid then Some tr else look (f_subscribers f) s)"
  by (simp add: add_subscriber_def)

text \<open>The subscriber set of a forwarder is a keyed container of its own.\<close>

lemma forward_packet_targets:
  "snd (forward_packet now un pkt f) = map (\<lambda>(sid, _). (sid, pkt\<lparr> rp_extensions := [] \<rparr>)) (f_subscribers f)"
  by (simp add: forward_packet_def Let_def split: option.splits prod.splits)

lemma fold_candidates: "pc_candidates (fold pc_add_candidate cs c) = pc_candidates c @ cs"
  by (induction cs arbitrary: c) (auto simp: pc_add_candidate_def)

definition add_candidates :: "(string \<Rightarrow> string option) \<Rightarrow> string list \<Rightarrow> int \<Rightarrow> media \<Rightarrow> media" where
  "add_candidates decode cs target m = fold (\<lambda>c m. snd (add_ice_candidate decode c target m)) cs m"

lemma add_candidates_buffered:
  assumes "target_pc target m = None"
  shows "target_pc target (add_candidates Some cs target m) = None
    \<and> (cs \<noteq> [] \<longrightarrow> look (m_pending_candidates (add_candidates Some cs target m)) target
         = Some ((case look (m_pending_candidates m) target of None \<Rightarrow> [] | Some ds \<Rightarrow> ds) @ cs))"
  using assms
proof (induction cs arbitrary: m)
  case Nil
  then show ?case by (simp add: add_candidates_def)
next
  case (Cons c cs)
  let ?m = "snd (add_ice_candidate Some c target m)"
  have "target_pc target ?m = None"
    using Cons.prems by (simp add: add_ice_candidate_def target_pc_def split: if_splits)
  moreover have "look (m_pending_candidates ?m) target
      = Some ((case look (m_pending_candidates m) target of None \<Rightarrow> [] | Some ds \<Rightarrow> ds) @ [c])"
    using Cons.prems by (simp add: add_ice_candidate_def)
  ultimately show ?case
    using Cons.IH [of ?m] by (cases cs) (auto simp: add_candidates_def)
qed

lemma add_candidates_direct:
  assumes "target_pc target m = Some c"
  shows "target_pc target (add_candidates Some cs target m)
     = Some (fold pc_add_candidate cs c)"
  using assms
proof (induction cs arbitrary: m c)
  case Nil
  then show ?case by (simp add: add_candidates_def)
next
  case (Cons d cs)
  let ?m = "snd (add_ice_candidate Some d target m)"
  have "target_pc target ?m = Some (pc_add_candidate d c)"
    using Cons.prems by (simp add: add_ice_candidate_def target_pc_def set_target_pc_def)
  from Cons.IH [OF this] show ?case by (simp add: add_candidates_def)
qed

section \<open>Properties\<close>

text \<open>No trickled ICE candidate is lost or reordered around the creation of
  the subscriber connection: the candidates that arrive before it exists and
  those that arrive after reach the connection, in the order they came.\<close>

theorem candidates_survive_setup:
  assumes "m_subscriber m = None" "look (m_pending_candidates m) TARGET_SUBSCRIBER = None"
  shows "map_option pc_candidates (m_subscriber
      (add_candidates Some late TARGET_SUBSCRIBER
        (setup_subscriber (add_candidates Some early TARGET_SUBSCRIBER m))))
    = Some (early @ late)"
proof -
  let ?m1 = "add_candidates Some early TARGET_SUBSCRIBER m"
  have b: "target_pc TARGET_SUBSCRIBER ?m1 = None"
      "early \<noteq> [] \<longrightarrow> look (m_pending_candidates ?m1) TARGET_SUBSCRIBER = Some early"
    using add_candidates_buffered [of TARGET_SUBSCRIBER m early] assms
    by (auto simp: target_pc_def TARGET_SUBSCRIBER_def)
  then have "(case look (m_pending_candidates ?m1) TARGET_SUBSCRIBER of None \<Rightarrow> [] | Some cs \<Rightarrow> cs) = early"
    using assms(2) by (cases "early = []") (auto simp: add_candidates_def)
  then have "target_pc TARGET_SUBSCRIBER (setup_subscriber ?m1) = Some (fold pc_add_candidate early pc_new)"
    using b(1) by (simp add: setup_subscriber_def take_pending_def commit_subscriber_def target_pc_def
        TARGET_SUBSCRIBER_def)
  from add_candidates_direct [OF this, of late] show ?thesis
    by (simp add: target_pc_def TARGET_SUBSCRIBER_def fold_candidates pc_new_def)
qed

text \<open>With two early candidates and one late.\<close>

theorem candidates_survive_setup_witness:
  "map_option pc_candidates (m_subscriber
      (add_candidates Some [''c''] TARGET_SUBSCRIBER
        (setup_subscriber (add_candidates Some [''a'', ''b''] TARGET_SUBSCRIBER media_default))))
    = Some [''a'', ''b'', ''c'']"
  using candidates_survive_setup [of media_default "[''c'']" "[''a'', ''b'']"]
  by (simp add: media_default_def)

text \<open>A candidate that arrives while the connection is being created, after the
  early candidates were taken and before the connection is stored, is buffered
  and never handed over.\<close>

theorem candidate_during_setup_lost:
  assumes "m_subscriber m = None" "take_pending TARGET_SUBSCRIBER m = (early, m1)"
  shows "let m2 = commit_subscriber early (snd (add_ice_candidate Some c TARGET_SUBSCRIBER m1)) in
    map_option pc_candidates (m_subscriber m2) = Some early
    \<and> look (m_pending_candidates m2) TARGET_SUBSCRIBER = Some [c]"
  using assms
  by (auto simp: take_pending_def commit_subscriber_def add_ice_candidate_def target_pc_def
      TARGET_SUBSCRIBER_def fold_candidates pc_new_def Let_def)

end
