(* ===== verification/Wire.thy ===== *)
theory Wire
  imports Core_Types Auth Media Turn
begin

text \<open>
  The protocol messages the server builds and reads, with the fields the code
  sets or inspects (the message types themselves are generated from the protocol
  files; fields the code leaves at their default are left out).  Enumerations
  that only travel through the server keep their constructors.
\<close>

datatype disconnect_reason =
  UnknownReason | ClientInitiated | DuplicateIdentity | ServerShutdown | ParticipantRemoved
| RoomDeleted | RoomClosed | SignalClose | OtherReason int

record permission =
  pm_can_subscribe :: bool
  pm_can_publish :: bool
  pm_can_publish_data :: bool
  pm_can_publish_sources :: "int list"
  pm_hidden :: bool
  pm_recorder :: bool
  pm_can_update_metadata :: bool
  pm_agent :: bool
  pm_can_subscribe_metrics :: bool

definition permission_default :: permission where
  "permission_default =
     \<lparr> pm_can_subscribe = False, pm_can_publish = False, pm_can_publish_data = False,
       pm_can_publish_sources = [], pm_hidden = False, pm_recorder = False,
       pm_can_update_metadata = False, pm_agent = False, pm_can_subscribe_metrics = False \<rparr>"

record participant_info =
  pi_sid :: string
  pi_identity :: string
  pi_state :: participant_state
  pi_tracks :: "track_info list"
  pi_metadata :: string
  pi_joined_at :: int
  pi_joined_at_ms :: int
  pi_name :: string
  pi_version :: "32 word"
  pi_permission :: permission
  pi_is_publisher :: bool
  pi_kind :: int
  pi_attributes :: attrs
  pi_disconnect_reason :: disconnect_reason
  pi_client_protocol :: int

record room_info =
  ri_sid :: string
  ri_name :: string
  ri_empty_timeout :: "32 word"
  ri_departure_timeout :: "32 word"
  ri_max_participants :: "32 word"
  ri_creation_time :: int
  ri_creation_time_ms :: int
  ri_metadata :: string
  ri_num_participants :: "32 word"
  ri_num_publishers :: "32 word"
  ri_active_recording :: bool
  ri_version :: timed_version

record session_description =
  sd_type :: string
  sd_sdp :: string
  sd_id :: "32 word"
  sd_mid_to_track_id :: attrs

record add_track_request =
  at_cid :: string
  at_name :: string
  at_type :: int
  at_source :: int
  at_stream :: string
  at_muted :: bool
  at_disable_red :: bool
  at_encryption :: int
  at_stereo :: bool
  at_disable_dtx :: bool
  at_audio_features :: "int list"
  at_backup_codec_policy :: int

record server_info_msg =
  si_version :: string
  si_protocol :: int
  si_region :: string
  si_node_id :: string
  si_agent_protocol :: int

record join_response =
  jr_room :: room_info
  jr_participant :: participant_info
  jr_other_participants :: "participant_info list"
  jr_server_version :: string
  jr_ice_servers :: "ice_server list"
  jr_subscriber_primary :: bool
  jr_server_region :: string
  jr_ping_timeout :: int
  jr_ping_interval :: int
  jr_server_info :: server_info_msg
  jr_enabled_publish_codecs :: "string list"
  jr_fast_publish :: bool

record reconnect_response =
  rr_ice_servers :: "ice_server list"
  rr_server_info :: server_info_msg

datatype request_reason = NotAllowed | UnsupportedType

datatype signal_response =
  RespJoin join_response
| RespReconnect reconnect_response
| RespAnswer session_description
| RespOffer session_description
| RespUpdate "participant_info list"
| RespRoomUpdate room_info
| RespTrackPublished string track_info
| RespTrackUnpublished string
| RespRequestResponse request_reason add_track_request
| RespMute string bool
| RespLeave disconnect_reason
| RespSpeakersChanged "speaker list"
| RespPongResp int int
| RespPong int

record participant_tracks =
  pt_participant_sid :: string
  pt_track_sids :: "string list"

record update_subscription =
  us_track_sids :: "string list"
  us_subscribe :: bool
  us_participant_tracks :: "participant_tracks list"

record update_metadata_msg =
  um_metadata :: string
  um_name :: string
  um_attributes :: attrs

record published_track_msg =
  pb_cid :: string
  pb_track :: "track_info option"

datatype signal_request =
  ReqOffer session_description
| ReqAnswer session_description
| ReqTrickle string int
| ReqAddTrack add_track_request
| ReqMute string bool
| ReqSubscription update_subscription
| ReqTrackSetting
| ReqLeave int
| ReqUpdateMetadata update_metadata_msg
| ReqPingReq int
| ReqPing int
| ReqSyncState "published_track_msg list"
| ReqSubscriptionPermission
| ReqIgnored

text \<open>The participant kind a token asks for.\<close>

definition participant_kind_from_token :: "verified_token \<Rightarrow> participant_kind" where
  "participant_kind_from_token t =
     (let k = to_uppercase (vt_kind t) in
      if k = ''AGENT'' then Agent else if k = ''EGRESS'' then Egress else if k = ''SIP'' then Sip
      else if k = ''INGRESS'' then Ingress else Standard)"

end
