(* ===== verification/Participant.thy ===== *)
theory Participant
  imports Wire
begin

text \<open>
  A participant (\<open>lk-server/src/participant.rs\<close>): its state machine, the outbound
  signal channel, attributes, permissions and published tracks.  The published
  tracks are shared between the two track maps of the source, so \<open>p_tracks\<close>
  holds them and \<open>p_tracks_by_cid\<close> points to their ids.  The channel to the
  websocket writer is the number of messages waiting in it and whether the
  writer still receives; \<open>p_sent\<close> lists the messages the channels accepted.
\<close>

section \<open>State\<close>

definition SIGNAL_CHANNEL_CAPACITY :: nat where
  "SIGNAL_CHANNEL_CAPACITY = 4096"

record sink =
  sk_queued :: nat
  sk_open :: bool

record participant =
  p_sid :: string
  p_identity :: string
  p_name :: string
  p_metadata :: string
  p_attributes :: attrs
  p_kind :: participant_kind
  p_joined_at_ms :: int
  p_client_protocol :: int
  p_is_publisher :: bool
  p_permission :: permission
  p_auto_subscribe :: bool
  p_state :: participant_state
  p_version :: version_counter
  p_disconnected_reason :: disconnect_reason
  p_resume_gen :: "64 word"
  p_tx :: "sink option"
  p_sent :: "signal_response list"
  p_tracks :: "(string, track) assoc"
  p_tracks_by_cid :: attrs
  p_media :: media

definition participant_new ::
    "nat list \<Rightarrow> int \<Rightarrow> string \<Rightarrow> string \<Rightarrow> string \<Rightarrow> participant_kind \<Rightarrow> participant" where
  "participant_new draws now identity nm metadata knd =
     \<lparr> p_sid = new_participant_sid draws, p_identity = identity, p_name = nm, p_metadata = metadata,
       p_attributes = [], p_kind = knd, p_joined_at_ms = unix_millis now, p_client_protocol = 0,
       p_is_publisher = False, p_permission = permission_default, p_auto_subscribe = True,
       p_state = Joining, p_version = 0, p_disconnected_reason = UnknownReason, p_resume_gen = 0,
       p_tx = None, p_sent = [], p_tracks = [], p_tracks_by_cid = [], p_media = media_default \<rparr>"

section \<open>State machine\<close>

definition set_state :: "participant_state \<Rightarrow> participant \<Rightarrow> bool \<times> participant" where
  "set_state s p =
     (if state_u8 s \<le> state_u8 (p_state p) then (False, p) else (True, p\<lparr> p_state := s \<rparr>))"

text \<open>The compare-and-exchange loop as several tasks run it on the shared state
  byte: a task that is about to load, one that retries with the value it saw
  last, and one that has returned.\<close>

datatype setter = Load nat | Retry nat nat | Returned nat bool

inductive cas_step :: "nat \<times> setter list \<Rightarrow> nat \<times> setter list \<Rightarrow> bool" where
  cas_load: "i < length ts \<Longrightarrow> ts ! i = Load new \<Longrightarrow>
     cas_step (cur, ts) (cur, ts[i := Retry new cur])"
| cas_refuse: "i < length ts \<Longrightarrow> ts ! i = Retry new prev \<Longrightarrow> new \<le> prev \<Longrightarrow>
     cas_step (cur, ts) (cur, ts[i := Returned new False])"
| cas_swap: "i < length ts \<Longrightarrow> ts ! i = Retry new prev \<Longrightarrow> \<not> new \<le> prev \<Longrightarrow> cur = prev \<Longrightarrow>
     cas_step (cur, ts) (new, ts[i := Returned new True])"
| cas_fail: "i < length ts \<Longrightarrow> ts ! i = Retry new prev \<Longrightarrow> \<not> new \<le> prev \<Longrightarrow> cur \<noteq> prev \<Longrightarrow>
     cas_step (cur, ts) (cur, ts[i := Retry new cur])"

inductive_cases cas_stepE: "cas_step c c'"

section \<open>Outbound channel\<close>

definition set_signal_sink :: "participant \<Rightarrow> participant" where
  "set_signal_sink p = p\<lparr> p_tx := Some \<lparr> sk_queued = 0, sk_open = True \<rparr> \<rparr>"

definition clear_signal_sink :: "participant \<Rightarrow> participant" where
  "clear_signal_sink p = p\<lparr> p_tx := None \<rparr>"

text \<open>\<open>send\<close> waits for a free slot, which appears when the writer takes a message.\<close>

definition p_send :: "signal_response \<Rightarrow> participant \<Rightarrow> bool \<times> participant" where
  "p_send resp p =
     (case p_tx p of
        None \<Rightarrow> (False, p)
      | Some k \<Rightarrow>
          if sk_open k
          then (True, p\<lparr> p_tx := Some (k\<lparr> sk_queued := min (Suc (sk_queued k)) SIGNAL_CHANNEL_CAPACITY \<rparr>),
                         p_sent := p_sent p @ [resp] \<rparr>)
          else (False, p))"

definition send_update :: "signal_response \<Rightarrow> participant \<Rightarrow> bool \<times> participant" where
  "send_update resp p =
     (case p_tx p of
        None \<Rightarrow> (False, p)
      | Some k \<Rightarrow>
          if sk_open k \<and> sk_queued k < SIGNAL_CHANNEL_CAPACITY
          then (True, p\<lparr> p_tx := Some (k\<lparr> sk_queued := Suc (sk_queued k) \<rparr>), p_sent := p_sent p @ [resp] \<rparr>)
          else (False, p))"

section \<open>Attributes, metadata, permission\<close>

definition set_attribute :: "string \<times> string \<Rightarrow> bool \<times> attrs \<Rightarrow> bool \<times> attrs" where
  "set_attribute kv acc =
     (let (k, v) = kv; (changed, m) = acc in
      if v = [] then (changed \<or> look m k \<noteq> None, del k m)
      else (changed \<or> look m k \<noteq> Some v, put k v m))"

definition set_attributes :: "attrs \<Rightarrow> participant \<Rightarrow> bool \<times> participant" where
  "set_attributes new p =
     (let (changed, m) = fold set_attribute new (False, p_attributes p)
      in (changed, p\<lparr> p_attributes := m \<rparr>))"

definition update_metadata :: "string \<Rightarrow> string option \<Rightarrow> participant \<Rightarrow> bool \<times> participant" where
  "update_metadata metadata nm p =
     (let (changed, p) =
            (if metadata \<noteq> [] \<and> p_metadata p \<noteq> metadata then (True, p\<lparr> p_metadata := metadata \<rparr>)
             else (False, p))
      in (case nm of
            None \<Rightarrow> (changed, p)
          | Some n \<Rightarrow>
              if n \<noteq> [] \<and> p_name p \<noteq> n then (True, p\<lparr> p_name := n \<rparr>) else (changed, p)))"

definition update_permission :: "permission \<Rightarrow> participant \<Rightarrow> bool \<times> participant" where
  "update_permission perm p =
     (if p_permission p = perm then (False, p) else (True, p\<lparr> p_permission := perm \<rparr>))"

definition permission_from_grant :: "video_grant \<Rightarrow> permission" where
  "permission_from_grant g =
     \<lparr> pm_can_subscribe = unwrap_or True (vg_can_subscribe g),
       pm_can_publish = unwrap_or True (vg_can_publish g),
       pm_can_publish_data = unwrap_or (unwrap_or True (vg_can_publish g)) (vg_can_publish_data g),
       pm_can_publish_sources =
         map (\<lambda>s. source_to_proto (source_from_proto (source_from_str s))) (vg_can_publish_sources g),
       pm_hidden = vg_hidden g,
       pm_recorder = vg_recorder g,
       pm_can_update_metadata = unwrap_or False (vg_can_update_own_metadata g),
       pm_agent = vg_agent g,
       pm_can_subscribe_metrics = unwrap_or False (vg_can_subscribe_metrics g) \<rparr>"

section \<open>Published tracks\<close>

definition add_track :: "track \<Rightarrow> participant \<Rightarrow> participant" where
  "add_track t p =
     p\<lparr> p_tracks := put (t_sid t) t (p_tracks p), p_tracks_by_cid := put (t_cid t) (t_sid t) (p_tracks_by_cid p) \<rparr>"

definition remove_track :: "string \<Rightarrow> participant \<Rightarrow> track option \<times> participant" where
  "remove_track sid p =
     (case look (p_tracks p) sid of
        None \<Rightarrow> (None, p)
      | Some t \<Rightarrow>
          (Some t, p\<lparr> p_tracks := del sid (p_tracks p), p_tracks_by_cid := del (t_cid t) (p_tracks_by_cid p) \<rparr>))"

definition get_track :: "string \<Rightarrow> participant \<Rightarrow> track option" where
  "get_track sid p = look (p_tracks p) sid"

definition get_track_by_cid :: "string \<Rightarrow> participant \<Rightarrow> track option" where
  "get_track_by_cid cid p = Option.bind (look (p_tracks_by_cid p) cid) (\<lambda>sid. get_track sid p)"

definition set_track :: "track \<Rightarrow> participant \<Rightarrow> participant" where
  "set_track t p = p\<lparr> p_tracks := adjust (t_sid t) (\<lambda>_. t) (p_tracks p) \<rparr>"

definition participant_to_proto :: "participant \<Rightarrow> participant_info \<times> participant" where
  "participant_to_proto p =
     (let (version, counter) = vc_next (p_version p) in
      (\<lparr> pi_sid = p_sid p, pi_identity = p_identity p, pi_state = p_state p,
         pi_tracks = map (track_to_proto \<circ> snd) (p_tracks p), pi_metadata = p_metadata p,
         pi_joined_at = p_joined_at_ms p sdiv 1000, pi_joined_at_ms = p_joined_at_ms p,
         pi_name = p_name p, pi_version = version, pi_permission = p_permission p,
         pi_is_publisher = p_is_publisher p, pi_kind = kind_to_proto (p_kind p),
         pi_attributes = p_attributes p, pi_disconnect_reason = p_disconnected_reason p,
         pi_client_protocol = p_client_protocol p \<rparr>,
       p\<lparr> p_version := counter \<rparr>))"

section \<open>Lemmas\<close>

text \<open>The fields that identify a participant survive every operation.\<close>

lemma set_state_immut [simp, immut_simps]:
  "p_sid (snd (set_state s p)) = p_sid p"
  "p_identity (snd (set_state s p)) = p_identity p"
  "p_kind (snd (set_state s p)) = p_kind p"
  "p_permission (snd (set_state s p)) = p_permission p"
  "p_media (snd (set_state s p)) = p_media p"
  "p_sent (snd (set_state s p)) = p_sent p"
  "p_tx (snd (set_state s p)) = p_tx p"
  "p_tracks (snd (set_state s p)) = p_tracks p"
  by (simp_all add: set_state_def)

lemma p_send_immut [simp, immut_simps]:
  "p_sid (snd (p_send r p)) = p_sid p"
  "p_identity (snd (p_send r p)) = p_identity p"
  "p_kind (snd (p_send r p)) = p_kind p"
  "p_permission (snd (p_send r p)) = p_permission p"
  "p_media (snd (p_send r p)) = p_media p"
  "p_state (snd (p_send r p)) = p_state p"
  "p_tracks (snd (p_send r p)) = p_tracks p"
  "p_tracks_by_cid (snd (p_send r p)) = p_tracks_by_cid p"
  "p_auto_subscribe (snd (p_send r p)) = p_auto_subscribe p"
  by (simp_all add: p_send_def split: option.splits)

lemma send_update_immut [simp, immut_simps]:
  "p_sid (snd (send_update r p)) = p_sid p"
  "p_identity (snd (send_update r p)) = p_identity p"
  "p_kind (snd (send_update r p)) = p_kind p"
  "p_permission (snd (send_update r p)) = p_permission p"
  "p_media (snd (send_update r p)) = p_media p"
  "p_state (snd (send_update r p)) = p_state p"
  "p_tracks (snd (send_update r p)) = p_tracks p"
  "p_tracks_by_cid (snd (send_update r p)) = p_tracks_by_cid p"
  "p_auto_subscribe (snd (send_update r p)) = p_auto_subscribe p"
  by (simp_all add: send_update_def split: option.splits)

lemma to_proto_immut [simp, immut_simps]:
  "p_sid (snd (participant_to_proto p)) = p_sid p"
  "p_identity (snd (participant_to_proto p)) = p_identity p"
  "p_kind (snd (participant_to_proto p)) = p_kind p"
  "p_permission (snd (participant_to_proto p)) = p_permission p"
  "p_media (snd (participant_to_proto p)) = p_media p"
  "p_state (snd (participant_to_proto p)) = p_state p"
  "p_tx (snd (participant_to_proto p)) = p_tx p"
  "p_sent (snd (participant_to_proto p)) = p_sent p"
  "p_tracks (snd (participant_to_proto p)) = p_tracks p"
  "p_tracks_by_cid (snd (participant_to_proto p)) = p_tracks_by_cid p"
  "p_auto_subscribe (snd (participant_to_proto p)) = p_auto_subscribe p"
  by (simp_all add: participant_to_proto_def split: prod.splits)

lemma to_proto_info [simp]:
  "pi_sid (fst (participant_to_proto p)) = p_sid p"
  "pi_identity (fst (participant_to_proto p)) = p_identity p"
  "pi_permission (fst (participant_to_proto p)) = p_permission p"
  "pi_state (fst (participant_to_proto p)) = p_state p"
  by (simp_all add: participant_to_proto_def split: prod.splits)

lemma send_update_sent:
  "p_sent (snd (send_update r p)) = p_sent p @ (if fst (send_update r p) then [r] else [])"
  by (simp add: send_update_def split: option.splits)

lemma send_update_no_sink: "p_tx p = None \<Longrightarrow> send_update r p = (False, p)"
  by (simp add: send_update_def)

lemma p_send_no_sink: "p_tx p = None \<Longrightarrow> p_send r p = (False, p)"
  by (simp add: p_send_def)

text \<open>\<open>set_state\<close> as a maximum.\<close>

lemma set_state_max: "p_state (snd (set_state s p)) = max (p_state p) s"
  by (cases s; cases "p_state p") (simp_all add: set_state_def max_def less_eq_participant_state_def)

lemma set_state_flag: "fst (set_state s p) \<longleftrightarrow> p_state p < s"
  by (auto simp: set_state_def less_participant_state_def)

subsection \<open>Concurrent transitions\<close>

fun setter_target :: "setter \<Rightarrow> nat" where
  "setter_target (Load n) = n"
| "setter_target (Retry n _) = n"
| "setter_target (Returned n _) = n"

definition cas_inv :: "nat \<Rightarrow> nat list \<Rightarrow> nat \<times> setter list \<Rightarrow> bool" where
  "cas_inv s0 ns c \<longleftrightarrow>
     (let (cur, ts) = c in
      map setter_target ts = ns \<and> s0 \<le> cur \<and> (cur = s0 \<or> Returned cur True \<in> set ts) \<and>
      (\<forall>i < length ts. case ts ! i of
          Load _ \<Rightarrow> True
        | Retry _ p \<Rightarrow> p \<le> cur
        | Returned n won \<Rightarrow> n \<le> cur \<and> (won \<longrightarrow> s0 < n)) \<and>
      (\<forall>i < length ts. \<forall>j < length ts. \<forall>n. ts ! i = Returned n True \<longrightarrow> ts ! j = Returned n True \<longrightarrow> i = j))"

lemma cas_inv_init: "cas_inv s0 ns (s0, map Load ns)"
  by (simp add: cas_inv_def comp_def)

lemma map_setter_update:
  "i < length ts \<Longrightarrow> setter_target t = setter_target (ts ! i) \<Longrightarrow> map setter_target (ts[i := t]) = map setter_target ts"
  by (simp add: map_update) (metis list_update_id map_update nth_map length_map)

lemma cas_inv_step:
  assumes "cas_step c c'" "cas_inv s0 ns c"
  shows "cas_inv s0 ns c'"
  using assms
proof (cases rule: cas_step.cases)
  case (cas_load i ts new cur)
  then have "Returned cur True \<in> set (ts[i := Retry new cur])" if "Returned cur True \<in> set ts"
    using that by (metis in_set_conv_nth length_list_update nth_list_update_neq setter.distinct(3))
  with cas_load assms(2) show ?thesis
    unfolding cas_inv_def by (auto simp: map_setter_update nth_list_update split: setter.splits)
next
  case (cas_refuse i ts new prev cur)
  have "Returned cur True \<in> set (ts[i := Returned new False])" if "Returned cur True \<in> set ts"
    using that cas_refuse by (metis in_set_conv_nth length_list_update nth_list_update_neq setter.distinct(5))
  moreover have "prev \<le> cur" using cas_refuse assms(2) by (force simp: cas_inv_def)
  ultimately show ?thesis
    using cas_refuse assms(2) unfolding cas_inv_def
    by (auto simp: map_setter_update nth_list_update split: setter.splits)
next
  case (cas_swap i ts new prev cur)
  have "Returned new True \<in> set (ts[i := Returned new True])"
    using cas_swap by (simp add: set_update_memI)
  moreover have "n < new" if "j < length ts" "ts ! j = Returned n w" for j n w
    using that cas_swap assms(2) by (force simp: cas_inv_def)
  ultimately show ?thesis
    using cas_swap assms(2) unfolding cas_inv_def
    by (auto simp: map_setter_update nth_list_update split: setter.splits)
next
  case (cas_fail i ts new prev cur)
  have "Returned cur True \<in> set (ts[i := Retry new cur])" if "Returned cur True \<in> set ts"
    using that cas_fail by (metis in_set_conv_nth length_list_update nth_list_update_neq setter.distinct(5))
  with cas_fail assms(2) show ?thesis
    unfolding cas_inv_def by (auto simp: map_setter_update nth_list_update split: setter.splits)
qed

lemma cas_inv_unique:
  assumes "cas_inv s0 ns (cur, ts)" "i < length ts" "j < length ts" "ts ! i = Returned n True" "ts ! j = Returned n True"
  shows "i = j"
proof -
  have "\<forall>i < length ts. \<forall>j < length ts. \<forall>n. ts ! i = Returned n True \<longrightarrow> ts ! j = Returned n True \<longrightarrow> i = j"
    using assms(1) unfolding cas_inv_def by simp
  with assms(2-5) show ?thesis by blast
qed

lemma cas_inv_returned: "cas_inv s0 ns (cur, ts) \<Longrightarrow> i < length ts \<Longrightarrow> ts ! i = Returned n w \<Longrightarrow> n \<le> cur"
  by (force simp: cas_inv_def)

lemma cas_inv_reachable:
  "cas_step\<^sup>*\<^sup>* (s0, map Load ns) c \<Longrightarrow> cas_inv s0 ns c"
  by (induction rule: rtranclp_induct) (auto intro: cas_inv_init cas_inv_step)

subsection \<open>Attributes\<close>

lemma fold_set_attribute:
  assumes "keys_distinct new"
  shows "\<exists>changed m'. fold set_attribute new (c, m) = (changed, m')
     \<and> (\<forall>k. look m' k = (case look new k of None \<Rightarrow> look m k | Some v \<Rightarrow> if v = [] then None else Some v))
     \<and> (changed \<longleftrightarrow> c \<or> look m' \<noteq> look m)"
  using assms
proof (induction new arbitrary: c m)
  case Nil
  then show ?case by simp
next
  case (Cons kv new)
  obtain a b where kv: "kv = (a, b)" by (cases kv)
  have a: "look new a = None" and d: "keys_distinct new"
    using Cons.prems by (auto simp: kv keys_distinct_def look_eq_None)
  obtain c1 m1 where 1: "set_attribute (a, b) (c, m) = (c1, m1)" by fastforce
  have m1: "look m1 = (look m)(a := if b = [] then None else Some b)"
    and c1: "c1 \<longleftrightarrow> c \<or> look m a \<noteq> (if b = [] then None else Some b)"
    using 1 by (auto simp: set_attribute_def Let_def fun_eq_iff split: if_splits)
  from Cons.IH [OF d, of c1 m1] obtain c2 m2 where 2: "fold set_attribute new (c1, m1) = (c2, m2)"
    "\<forall>k. look m2 k = (case look new k of None \<Rightarrow> look m1 k | Some v \<Rightarrow> if v = [] then None else Some v)"
    "c2 \<longleftrightarrow> c1 \<or> look m2 \<noteq> look m1" by blast
  have m2a: "look m2 a = look m1 a" using 2(2) a by simp
  have "look m2 = look m \<longleftrightarrow> look m1 = look m \<and> look m2 = look m1"
  proof
    assume e: "look m2 = look m"
    then have "look m1 a = look m a" using m2a by metis
    then have "look m1 = look m" unfolding m1 by auto
    with e show "look m1 = look m \<and> look m2 = look m1" by simp
  qed simp
  moreover have "look m1 = look m \<longleftrightarrow> look m a = (if b = [] then None else Some b)"
    unfolding m1 by (auto simp: fun_eq_iff)
  ultimately have "c2 \<longleftrightarrow> c \<or> look m2 \<noteq> look m" using 2(3) c1 by metis
  moreover have "look m2 k = (case look (kv # new) k of None \<Rightarrow> look m k | Some v \<Rightarrow> if v = [] then None else Some v)" for k
    using 2(2) a by (auto simp: kv m1 look_def split: option.splits)
  ultimately show ?case using 1 2(1) by (simp add: kv)
qed

subsection \<open>The track index\<close>

definition tracks_wf :: "participant \<Rightarrow> bool" where
  "tracks_wf p \<longleftrightarrow>
     (\<forall>sid t. look (p_tracks p) sid = Some t \<longrightarrow> t_sid t = sid) \<and>
     (\<forall>cid sid. look (p_tracks_by_cid p) cid = Some sid \<longrightarrow>
        (\<exists>t. look (p_tracks p) sid = Some t \<and> t_cid t = cid))"

lemma tracks_wf_new [simp]: "tracks_wf (participant_new draws now i n m k)"
  by (simp add: tracks_wf_def participant_new_def)

lemma tracks_wf_add: "tracks_wf p \<Longrightarrow> look (p_tracks p) (t_sid t) = None \<Longrightarrow> tracks_wf (add_track t p)"
  unfolding tracks_wf_def add_track_def by (auto split: if_splits) fastforce+

lemma tracks_wf_remove:
  assumes "tracks_wf p"
  shows "tracks_wf (snd (remove_track sid p))"
proof (cases "look (p_tracks p) sid")
  case None
  then show ?thesis using assms by (simp add: remove_track_def)
next
  case (Some t)
  show ?thesis
    unfolding tracks_wf_def
  proof (intro conjI allI impI)
    fix s u assume "look (p_tracks (snd (remove_track sid p))) s = Some u"
    then show "t_sid u = s" using assms Some by (simp add: tracks_wf_def remove_track_def split: if_splits)
  next
    fix c s assume "look (p_tracks_by_cid (snd (remove_track sid p))) c = Some s"
    then have c: "look (p_tracks_by_cid p) c = Some s" "c \<noteq> t_cid t"
      using Some by (simp_all add: remove_track_def split: if_splits)
    then obtain u where "look (p_tracks p) s = Some u" "t_cid u = c"
      using assms unfolding tracks_wf_def by blast
    moreover from this c(2) Some have "s \<noteq> sid" by auto
    ultimately show "\<exists>u. look (p_tracks (snd (remove_track sid p))) s = Some u \<and> t_cid u = c"
      using Some by (simp add: remove_track_def)
  qed
qed

lemma tracks_wf_set:
  assumes "tracks_wf p" "look (p_tracks p) (t_sid t) = Some t0" "t_cid t0 = t_cid t"
  shows "tracks_wf (set_track t p)"
  unfolding tracks_wf_def
proof (intro conjI allI impI)
  fix s u assume "look (p_tracks (set_track t p)) s = Some u"
  then show "t_sid u = s" using assms by (auto simp: tracks_wf_def set_track_def split: if_splits)
next
  fix c s assume "look (p_tracks_by_cid (set_track t p)) c = Some s"
  then obtain u where "look (p_tracks p) s = Some u" "t_cid u = c"
    using assms(1) unfolding tracks_wf_def set_track_def by fastforce
  then show "\<exists>u. look (p_tracks (set_track t p)) s = Some u \<and> t_cid u = c"
    using assms(2,3) by (cases "s = t_sid t") (auto simp: set_track_def)
qed

section \<open>Properties\<close>

text \<open>C13: however many tasks change the state of a participant at once, and
  however their loads and exchanges interleave, when all of them have returned
  the state is the highest of the initial state and the requested ones, every
  state was entered by at most one task, and if the state changed, the task that
  requested the final state was told so.\<close>

theorem concurrent_state_transitions:
  assumes "cas_step\<^sup>*\<^sup>* (s0, map Load ns) (cur, ts)"
    and "\<forall>t \<in> set ts. \<exists>n won. t = Returned n won"
  shows "cur = Max (insert s0 (set ns))
    \<and> (\<forall>i < length ts. \<forall>j < length ts. \<forall>n. ts ! i = Returned n True \<and> ts ! j = Returned n True \<longrightarrow> i = j)
    \<and> (cur \<noteq> s0 \<longrightarrow> Returned cur True \<in> set ts)"
proof -
  have inv: "cas_inv s0 ns (cur, ts)" using assms(1) by (rule cas_inv_reachable)
  have "n \<le> cur" if "n \<in> set ns" for n
  proof -
    from that inv obtain i where i: "i < length ts" "setter_target (ts ! i) = n"
      unfolding cas_inv_def by (auto simp: in_set_conv_nth)
    obtain w where "ts ! i = Returned n w" using assms(2) i by (metis nth_mem setter_target.simps(3))
    with inv i(1) show ?thesis by (rule cas_inv_returned)
  qed
  moreover have "cur \<in> insert s0 (set ns)"
  proof (cases "cur = s0")
    case False
    then have "Returned cur True \<in> set ts" using inv by (simp add: cas_inv_def)
    then have "setter_target (Returned cur True) \<in> setter_target ` set ts" by (rule imageI)
    then show ?thesis using inv by (auto simp: cas_inv_def)
  qed simp
  moreover have "s0 \<le> cur" using inv by (simp add: cas_inv_def)
  ultimately have "cur = Max (insert s0 (set ns))" by (intro Max_eqI [symmetric]) auto
  moreover have "\<forall>i < length ts. \<forall>j < length ts. \<forall>n. ts ! i = Returned n True \<and> ts ! j = Returned n True \<longrightarrow> i = j"
    using cas_inv_unique [OF inv] by blast
  moreover have "cur \<noteq> s0 \<longrightarrow> Returned cur True \<in> set ts" using inv by (auto simp: cas_inv_def)
  ultimately show ?thesis by blast
qed

text \<open>C13 with a disconnect overtaking a join: the joining task loses the exchange
  and gives up.\<close>

theorem concurrent_state_transitions_witness:
  "(3 :: nat) = Max (insert 0 (set [1, 3])) \<and> Returned 3 True \<in> set [Returned 1 False, Returned 3 True]"
proof -
  have "cas_step (0, [Load 1, Load 3]) (0, [Retry 1 0, Load 3])"
    using cas_load [of 0 "[Load 1, Load 3]" 1 0] by simp
  also have "cas_step\<^sup>*\<^sup>* \<dots> (0, [Retry 1 0, Retry 3 0])"
    using cas_load [of 1 "[Retry 1 0, Load 3]" 3 0] by (simp add: r_into_rtranclp)
  also have "cas_step\<^sup>*\<^sup>* \<dots> (3, [Retry 1 0, Returned 3 True])"
    using cas_swap [of 1 "[Retry 1 0, Retry 3 0]" 3 0 0] by (simp add: r_into_rtranclp)
  also have "cas_step\<^sup>*\<^sup>* \<dots> (3, [Retry 1 3, Returned 3 True])"
    using cas_fail [of 0 "[Retry 1 0, Returned 3 True]" 1 0 3] by (simp add: r_into_rtranclp)
  also have "cas_step\<^sup>*\<^sup>* \<dots> (3, [Returned 1 False, Returned 3 True])"
    using cas_refuse [of 0 "[Retry 1 3, Returned 3 True]" 1 3 3] by (simp add: r_into_rtranclp)
  finally have "cas_step\<^sup>*\<^sup>* (0, map Load [1, 3]) (3, [Returned 1 False, Returned 3 True])" by simp
  from concurrent_state_transitions [OF this] show ?thesis by simp
qed

text \<open>Setting attributes removes the keys with an empty value, sets the
  others, leaves all keys not mentioned alone, and reports a change exactly when
  the attributes differ afterwards.\<close>

theorem set_attributes_spec:
  assumes "keys_distinct new"
  shows "(\<forall>k. look (p_attributes (snd (set_attributes new p))) k
        = (case look new k of None \<Rightarrow> look (p_attributes p) k | Some v \<Rightarrow> if v = [] then None else Some v))
    \<and> (fst (set_attributes new p) \<longleftrightarrow> look (p_attributes (snd (set_attributes new p))) \<noteq> look (p_attributes p))"
proof -
  obtain c m where "fold set_attribute new (False, p_attributes p) = (c, m)"
     "\<forall>k. look m k = (case look new k of None \<Rightarrow> look (p_attributes p) k | Some v \<Rightarrow> if v = [] then None else Some v)"
     "c \<longleftrightarrow> False \<or> look m \<noteq> look (p_attributes p)"
    using fold_set_attribute [OF assms, of False "p_attributes p"] by blast
  then show ?thesis by (simp add: set_attributes_def)
qed

text \<open>With one attribute removed and one added.\<close>

theorem set_attributes_spec_witness:
  "look (p_attributes (snd (set_attributes [(''a'', []), (''b'', ''2'')]
      (participant_new [] 0 ''i'' ''n'' ''m'' Standard \<lparr> p_attributes := [(''a'', ''1'')] \<rparr>)))) ''b'' = Some ''2''
   \<and> look (p_attributes (snd (set_attributes [(''a'', []), (''b'', ''2'')]
      (participant_new [] 0 ''i'' ''n'' ''m'' Standard \<lparr> p_attributes := [(''a'', ''1'')] \<rparr>)))) ''a'' = None"
proof -
  have "keys_distinct [(''a'', []), (''b'', ''2'')]" by (simp add: keys_distinct_def)
  from set_attributes_spec [OF this, of "participant_new [] 0 ''i'' ''n'' ''m'' Standard \<lparr> p_attributes := [(''a'', ''1'')] \<rparr>"]
  show ?thesis by (simp add: look_def)
qed

text \<open>The client-id index of the published tracks stays consistent (an entry
  names a published track with that client id) when a track with a new id is
  added, and the added track is found under both of its ids.\<close>

theorem added_track_found:
  assumes "tracks_wf p" "get_track (t_sid t) p = None"
  shows "tracks_wf (add_track t p) \<and> get_track (t_sid t) (add_track t p) = Some t
    \<and> get_track_by_cid (t_cid t) (add_track t p) = Some t
    \<and> tracks_wf (snd (remove_track (t_sid t) (add_track t p)))
    \<and> get_track (t_sid t) (snd (remove_track (t_sid t) (add_track t p))) = None
    \<and> get_track_by_cid (t_cid t) (snd (remove_track (t_sid t) (add_track t p))) = None"
proof -
  have wf: "tracks_wf (add_track t p)" using assms tracks_wf_add by (simp add: get_track_def)
  then have "tracks_wf (snd (remove_track (t_sid t) (add_track t p)))" by (rule tracks_wf_remove)
  with wf show ?thesis by (simp add: get_track_def get_track_by_cid_def add_track_def remove_track_def)
qed

text \<open>On a new participant.\<close>

theorem added_track_found_witness:
  "get_track_by_cid ''c1'' (add_track (track_new [0] 0 ''mic'' ''c1'' Microphone [])
     (participant_new [] 0 ''i'' ''n'' ''m'' Standard)) = Some (track_new [0] 0 ''mic'' ''c1'' Microphone [])"
proof -
  let ?p = "participant_new [] 0 ''i'' ''n'' ''m'' Standard" and ?t = "track_new [0] 0 ''mic'' ''c1'' Microphone []"
  have "get_track (t_sid ?t) ?p = None" by (simp add: participant_new_def get_track_def)
  from added_track_found [OF tracks_wf_new this] show ?thesis by (simp add: track_new_def)
qed

text \<open>When a client publishes a second track under a client id already in use,
  unpublishing the first track removes the index entry of the second, which is
  then published but cannot be matched to its media.\<close>

theorem shared_cid_unpublish_hides_track:
  assumes "t_sid t1 \<noteq> t_sid t2" "t_cid t1 = t_cid t2"
  shows "get_track (t_sid t2) (snd (remove_track (t_sid t1) (add_track t2 (add_track t1 p)))) = Some t2
    \<and> get_track_by_cid (t_cid t2) (snd (remove_track (t_sid t1) (add_track t2 (add_track t1 p)))) = None"
  using assms by (simp add: get_track_def get_track_by_cid_def add_track_def remove_track_def)

end
