(* ===== verification/Room.thy ===== *)
theory Room
  imports Participant
begin

text \<open>
  A room (\<open>lk-server/src/room.rs\<close>): membership, capacity, the broadcasts to its
  participants and the rule that decides when an empty room closes.  The
  participants are held by value under their ids.  \<open>now\<close> is the clock in
  microseconds.  Closing a room also calls the agent manager, the cluster and
  the webhooks; it is in \<open>Server\<close>, on top of the operations defined here.
\<close>

section \<open>State\<close>

record room_config =
  cf_empty_timeout :: "32 word"
  cf_departure_timeout :: "32 word"
  cf_max_participants :: "32 word"

record room =
  r_sid :: string
  r_name :: string
  r_metadata :: string
  r_empty_timeout :: "32 word"
  r_departure_timeout :: "32 word"
  r_max_participants :: "32 word"
  r_creation_time_ms :: int
  r_version :: timed_version
  r_active_recording :: bool
  r_agents :: "room_agent_dispatch list"
  r_launched :: "string list"
  r_closed :: bool
  r_participants :: "(string, participant) assoc"
  r_on_close :: bool
  r_empty_since :: "int option"
  r_ever_joined :: bool

definition room_new :: "room_config \<Rightarrow> nat list \<Rightarrow> int \<Rightarrow> string \<Rightarrow> room" where
  "room_new c draws now nm =
     \<lparr> r_sid = new_room_sid draws, r_name = nm, r_metadata = [], r_empty_timeout = cf_empty_timeout c,
       r_departure_timeout = cf_departure_timeout c, r_max_participants = cf_max_participants c,
       r_creation_time_ms = unix_millis now, r_version = tv_new now, r_active_recording = False,
       r_agents = [], r_launched = [], r_closed = False, r_participants = [], r_on_close = False,
       r_empty_since = None, r_ever_joined = False \<rparr>"

definition room_bump_version :: "int \<Rightarrow> room \<Rightarrow> room" where
  "room_bump_version now r = r\<lparr> r_version := tv_bump now (r_version r) \<rparr>"

definition room_update_metadata :: "int \<Rightarrow> string \<Rightarrow> room \<Rightarrow> bool \<times> room" where
  "room_update_metadata now metadata r =
     (if r_metadata r = metadata then (False, r)
      else (True, room_bump_version now (r\<lparr> r_metadata := metadata \<rparr>)))"

definition set_empty_timeout :: "32 word \<Rightarrow> room \<Rightarrow> room" where
  "set_empty_timeout v r = r\<lparr> r_empty_timeout := v \<rparr>"

definition set_departure_timeout :: "32 word \<Rightarrow> room \<Rightarrow> room" where
  "set_departure_timeout v r = r\<lparr> r_departure_timeout := v \<rparr>"

definition set_max_participants :: "32 word \<Rightarrow> room \<Rightarrow> room" where
  "set_max_participants v r = r\<lparr> r_max_participants := v \<rparr>"

section \<open>Membership\<close>

definition participants :: "room \<Rightarrow> participant list" where
  "participants r = map snd (r_participants r)"

definition get_participant :: "string \<Rightarrow> room \<Rightarrow> participant option" where
  "get_participant sid r = look (r_participants r) sid"

definition get_participant_by_identity :: "string \<Rightarrow> room \<Rightarrow> participant option" where
  "get_participant_by_identity identity r = List.find (\<lambda>p. p_identity p = identity) (participants r)"

definition real_count :: "room \<Rightarrow> nat" where
  "real_count r = length (filter (\<lambda>p. \<not> is_dependent (p_kind p)) (participants r))"

definition is_full :: "room \<Rightarrow> bool" where
  "is_full r = (if r_max_participants r = 0 then False else unat (r_max_participants r) \<le> real_count r)"

definition room_join :: "int \<Rightarrow> participant \<Rightarrow> room \<Rightarrow> bool \<times> room" where
  "room_join now p r =
     (if r_closed r then (False, r)
      else if \<not> is_dependent (p_kind p) \<and> is_full r then (False, r)
      else if list_ex (\<lambda>q. p_identity q = p_identity p) (participants r) then (False, r)
      else
        let r = r\<lparr> r_participants := put (p_sid p) p (r_participants r) \<rparr>;
            r = (if is_dependent (p_kind p) then r else r\<lparr> r_ever_joined := True, r_empty_since := None \<rparr>)
        in (True, room_bump_version now r))"

definition remove_participant :: "int \<Rightarrow> string \<Rightarrow> room \<Rightarrow> participant option \<times> room" where
  "remove_participant now sid r =
     (case look (r_participants r) sid of
        None \<Rightarrow> (None, r)
      | Some p \<Rightarrow>
          let r = room_bump_version now (r\<lparr> r_participants := del sid (r_participants r) \<rparr>)
          in (Some p, if r_participants r = [] then r\<lparr> r_empty_since := Some (unix_millis now) \<rparr> else r))"

definition has_non_dependent :: "room \<Rightarrow> bool" where
  "has_non_dependent r = list_ex (\<lambda>p. \<not> is_dependent (p_kind p)) (participants r)"

definition on_participant_left :: "int \<Rightarrow> room \<Rightarrow> room" where
  "on_participant_left now r =
     (if has_non_dependent r then r
      else (case r_empty_since r of None \<Rightarrow> r\<lparr> r_empty_since := Some (unix_millis now) \<rparr> | Some _ \<Rightarrow> r))"

definition empty_since_ms :: "int \<Rightarrow> room \<Rightarrow> int option" where
  "empty_since_ms now r = map_option (\<lambda>t. unix_millis now - t) (r_empty_since r)"

definition should_close :: "int \<Rightarrow> room \<Rightarrow> bool" where
  "should_close now r =
     (if r_closed r \<or> has_non_dependent r then False
      else
        let timeout = (if r_ever_joined r then r_departure_timeout r else r_empty_timeout r) in
        if timeout = 0 then False
        else
          (case (if r_ever_joined r then empty_since_ms now r else Some (unix_millis now - r_creation_time_ms r)) of
             None \<Rightarrow> False
           | Some elapsed \<Rightarrow> uint timeout * 1000 \<le> elapsed))"

definition room_to_proto :: "room \<Rightarrow> room_info" where
  "room_to_proto r =
     \<lparr> ri_sid = r_sid r, ri_name = r_name r, ri_empty_timeout = r_empty_timeout r,
       ri_departure_timeout = r_departure_timeout r, ri_max_participants = r_max_participants r,
       ri_creation_time = r_creation_time_ms r sdiv 1000, ri_creation_time_ms = r_creation_time_ms r,
       ri_metadata = r_metadata r, ri_num_participants = of_nat (length (r_participants r)),
       ri_num_publishers = of_nat (length (filter p_is_publisher (participants r))),
       ri_active_recording = r_active_recording r, ri_version = r_version r \<rparr>"

definition add_agent_dispatch :: "room_agent_dispatch \<Rightarrow> room \<Rightarrow> bool \<times> room" where
  "add_agent_dispatch d r =
     (let key = (\<lambda>a. rad_agent_name a @ [CHR 0x00] @ rad_metadata a) in
      if list_ex (\<lambda>a. key a = key d) (r_agents r) then (False, r)
      else (True, r\<lparr> r_agents := r_agents r @ [d] \<rparr>))"

definition mark_dispatch_launched :: "string \<Rightarrow> room \<Rightarrow> room" where
  "mark_dispatch_launched key r = r\<lparr> r_launched := List.insert key (r_launched r) \<rparr>"

section \<open>Broadcasts\<close>

definition map_participants :: "(participant \<Rightarrow> participant) \<Rightarrow> room \<Rightarrow> room" where
  "map_participants f r = r\<lparr> r_participants := map (\<lambda>(k, p). (k, f p)) (r_participants r) \<rparr>"

definition broadcast_participant_update :: "participant_info list \<Rightarrow> string option \<Rightarrow> room \<Rightarrow> room" where
  "broadcast_participant_update infos except r =
     (let hidden_sids = remdups (map pi_sid (filter (\<lambda>i. pm_hidden (pi_permission i)) infos));
          hidden_only = (hidden_sids \<noteq> [] \<and> length hidden_sids = length infos)
      in map_participants
           (\<lambda>p. if except \<noteq> Some (p_sid p) \<and> (\<not> hidden_only \<or> p_sid p \<in> set hidden_sids)
                then snd (send_update (RespUpdate infos) p) else p) r)"

definition broadcast_room_update :: "room \<Rightarrow> room" where
  "broadcast_room_update r =
     (let resp = RespRoomUpdate (room_to_proto r) in map_participants (\<lambda>p. snd (send_update resp p)) r)"

definition broadcast_data :: "data_packet \<Rightarrow> string list \<Rightarrow> room \<Rightarrow> room" where
  "broadcast_data packet destinations r =
     map_participants
       (\<lambda>p. if destinations = [] \<or> p_identity p \<in> set destinations
            then p\<lparr> p_media := send_data packet (p_media p) \<rparr> else p) r"

text \<open>The part of \<open>close_participant_media\<close> that touches the other participants.\<close>

definition release_subscriber :: "string \<Rightarrow> room \<Rightarrow> room" where
  "release_subscriber sid r = map_participants (\<lambda>p. p\<lparr> p_media := drop_subscriber sid (p_media p) \<rparr>) r"

section \<open>Invariant\<close>

text \<open>Participants are stored under their own ids, no identity is in the room
  twice, and the clock of the departure timeout does not run while a real
  participant is there.\<close>

definition members_inv :: "(string, participant) assoc \<Rightarrow> bool" where
  "members_inv ps \<longleftrightarrow> keys_distinct ps \<and> (\<forall>k p. look ps k = Some p \<longrightarrow> p_sid p = k)
     \<and> (\<forall>k l p q. look ps k = Some p \<longrightarrow> look ps l = Some q \<longrightarrow> p_identity p = p_identity q \<longrightarrow> k = l)"

definition room_inv :: "room \<Rightarrow> bool" where
  "room_inv r \<longleftrightarrow> members_inv (r_participants r)
     \<and> (has_non_dependent r \<longrightarrow> r_ever_joined r \<and> r_empty_since r = None)
     \<and> (r_ever_joined r \<longrightarrow> \<not> has_non_dependent r \<longrightarrow> r_empty_since r \<noteq> None)"

text \<open>The events in the life of a room until it closes.  A joining participant
  has a freshly drawn id.\<close>

definition keeps_identity :: "(participant \<Rightarrow> participant) \<Rightarrow> bool" where
  "keeps_identity f \<longleftrightarrow> (\<forall>p. p_sid (f p) = p_sid p \<and> p_identity (f p) = p_identity p \<and> p_kind (f p) = p_kind p)"

inductive room_event :: "room \<Rightarrow> room \<Rightarrow> bool" where
  ev_join: "get_participant (p_sid p) r = None \<Longrightarrow> room_event r (snd (room_join now p r))"
| ev_leave: "get_participant sid r \<noteq> None \<Longrightarrow>
     room_event r (on_participant_left now (snd (remove_participant now sid r)))"
| ev_participants: "keeps_identity f \<Longrightarrow> room_event r (map_participants f r)"
| ev_metadata: "room_event r (snd (room_update_metadata now m r))"
| ev_empty_timeout: "room_event r (set_empty_timeout v r)"
| ev_departure_timeout: "room_event r (set_departure_timeout v r)"
| ev_max_participants: "room_event r (set_max_participants v r)"
| ev_agent: "room_event r (snd (add_agent_dispatch d r))"
| ev_launched: "room_event r (mark_dispatch_launched key r)"

inductive_cases room_eventE: "room_event r r'"

section \<open>Lemmas\<close>

lemma participants_map [simp]: "participants (map_participants f r) = map f (participants r)"
  by (simp add: participants_def map_participants_def comp_def split_def)

lemma look_map_participants [simp]:
  "look (r_participants (map_participants f r)) k = map_option f (look (r_participants r) k)"
  by (simp add: map_participants_def look_map_values)

lemma map_participants_immut [simp, immut_simps]:
  "r_name (map_participants f r) = r_name r"
  "r_closed (map_participants f r) = r_closed r"
  "r_on_close (map_participants f r) = r_on_close r"
  "r_empty_since (map_participants f r) = r_empty_since r"
  "r_ever_joined (map_participants f r) = r_ever_joined r"
  "r_max_participants (map_participants f r) = r_max_participants r"
  "map fst (r_participants (map_participants f r)) = map fst (r_participants r)"
  by (simp_all add: map_participants_def comp_def split_def)

lemma room_bump_version_immut [simp, immut_simps]:
  "r_name (room_bump_version now r) = r_name r"
  "r_closed (room_bump_version now r) = r_closed r"
  "r_on_close (room_bump_version now r) = r_on_close r"
  "r_participants (room_bump_version now r) = r_participants r"
  "r_empty_since (room_bump_version now r) = r_empty_since r"
  "r_ever_joined (room_bump_version now r) = r_ever_joined r"
  "r_max_participants (room_bump_version now r) = r_max_participants r"
  by (simp_all add: room_bump_version_def)

lemma has_non_dependent_iff: "has_non_dependent r \<longleftrightarrow> (\<exists>(k, p) \<in> set (r_participants r). \<not> is_dependent (p_kind p))"
  by (force simp: has_non_dependent_def participants_def list_ex_iff)

lemma has_non_dependent_map: "keeps_identity f \<Longrightarrow> has_non_dependent (map_participants f r) = has_non_dependent r"
  by (simp add: has_non_dependent_def keeps_identity_def list_ex_iff)

lemma keys_distinct_map_participants [simp]:
  "keys_distinct (r_participants (map_participants f r)) = keys_distinct (r_participants r)"
  by (simp add: keys_distinct_def)

lemma members_inv_map:
  assumes "keeps_identity f" "members_inv (r_participants r)"
  shows "members_inv (r_participants (map_participants f r))"
  using assms unfolding members_inv_def keeps_identity_def by fastforce

lemma look_participants: "keys_distinct (r_participants r) \<Longrightarrow> q \<in> set (participants r) \<longleftrightarrow> (\<exists>k. look (r_participants r) k = Some q)"
  by (force simp: participants_def look_Some_iff)

lemma members_inv_put:
  assumes "members_inv ps" "\<forall>k q. look ps k = Some q \<longrightarrow> p_identity q \<noteq> p_identity p"
  shows "members_inv (put (p_sid p) p ps)"
  unfolding members_inv_def
proof (intro conjI allI impI)
  show "keys_distinct (put (p_sid p) p ps)" using assms(1) by (simp add: members_inv_def)
next
  fix k q assume "look (put (p_sid p) p ps) k = Some q"
  then show "p_sid q = k" using assms(1) by (auto simp: members_inv_def split: if_splits)
next
  fix k l q q'
  assume "look (put (p_sid p) p ps) k = Some q" "look (put (p_sid p) p ps) l = Some q'" "p_identity q = p_identity q'"
  then show "k = l"
    using assms by (auto simp: members_inv_def split: if_splits)
qed

lemma members_inv_del:
  assumes "members_inv ps"
  shows "members_inv (del k ps)"
  using assms unfolding members_inv_def by (simp split: if_splits)

lemma room_inv_new [simp]: "room_inv (room_new c draws now nm)"
  by (simp add: room_inv_def room_new_def members_inv_def has_non_dependent_def participants_def)

lemma has_non_dependent_look:
  "keys_distinct (r_participants r) \<Longrightarrow>
   has_non_dependent r \<longleftrightarrow> (\<exists>k p. look (r_participants r) k = Some p \<and> \<not> is_dependent (p_kind p))"
  by (auto simp: has_non_dependent_iff look_Some_iff)

lemma room_join_cases:
  obtains (rejected) "room_join now p r = (False, r)"
        "r_closed r \<or> (\<not> is_dependent (p_kind p) \<and> is_full r) \<or> (\<exists>q \<in> set (participants r). p_identity q = p_identity p)"
  | (accepted) r' where "room_join now p r = (True, r')" "\<not> r_closed r"
        "is_dependent (p_kind p) \<or> \<not> is_full r" "\<forall>q \<in> set (participants r). p_identity q \<noteq> p_identity p"
        "r_participants r' = put (p_sid p) p (r_participants r)"
        "r_ever_joined r' \<longleftrightarrow> r_ever_joined r \<or> \<not> is_dependent (p_kind p)"
        "r_empty_since r' = (if is_dependent (p_kind p) then r_empty_since r else None)"
        "r_closed r' = r_closed r" "r_max_participants r' = r_max_participants r" "r_name r' = r_name r"
proof (cases "r_closed r \<or> (\<not> is_dependent (p_kind p) \<and> is_full r) \<or> (\<exists>q \<in> set (participants r). p_identity q = p_identity p)")
  case True
  then have "room_join now p r = (False, r)" by (auto simp: room_join_def list_ex_iff)
  then show ?thesis using True by (rule rejected)
next
  case False
  then have "room_join now p r = (True, room_bump_version now
      (if is_dependent (p_kind p) then r\<lparr> r_participants := put (p_sid p) p (r_participants r) \<rparr>
       else r\<lparr> r_participants := put (p_sid p) p (r_participants r), r_ever_joined := True, r_empty_since := None \<rparr>))"
    by (auto simp: room_join_def list_ex_iff Let_def)
  then show ?thesis by (rule accepted) (use False in auto)
qed

lemma room_inv_join:
  assumes "room_inv r" "get_participant (p_sid p) r = None"
  shows "room_inv (snd (room_join now p r))"
proof (cases rule: room_join_cases [of now p r])
  case rejected
  then show ?thesis using assms by simp
next
  case (accepted r')
  have kd: "keys_distinct (r_participants r)" using assms by (simp add: room_inv_def members_inv_def)
  have "members_inv (r_participants r')"
    using assms accepted(4) unfolding accepted(5)
    by (intro members_inv_put) (auto simp: room_inv_def look_participants [OF kd])
  moreover have "has_non_dependent r' \<longleftrightarrow> has_non_dependent r \<or> \<not> is_dependent (p_kind p)"
  proof -
    have "keys_distinct (r_participants r')" by (simp add: accepted(5) kd)
    then show ?thesis using assms(2)
      unfolding has_non_dependent_look [OF kd] get_participant_def
      by (simp add: has_non_dependent_look accepted(5)) (metis option.distinct(1))
  qed
  ultimately show ?thesis
    using assms accepted unfolding room_inv_def by (auto split: if_splits)
qed

lemma remove_participant_simps:
  assumes "look (r_participants r) sid = Some p"
  shows "fst (remove_participant now sid r) = Some p"
    "r_participants (snd (remove_participant now sid r)) = del sid (r_participants r)"
    "r_ever_joined (snd (remove_participant now sid r)) = r_ever_joined r"
    "r_closed (snd (remove_participant now sid r)) = r_closed r"
    "r_name (snd (remove_participant now sid r)) = r_name r"
    "r_on_close (snd (remove_participant now sid r)) = r_on_close r"
    "r_empty_since (snd (remove_participant now sid r)) =
       (if del sid (r_participants r) = [] then Some (unix_millis now) else r_empty_since r)"
  using assms by (simp_all add: remove_participant_def Let_def)

lemma on_participant_left_immut [simp, immut_simps]:
  "r_participants (on_participant_left now r) = r_participants r"
  "r_ever_joined (on_participant_left now r) = r_ever_joined r"
  "r_closed (on_participant_left now r) = r_closed r"
  "r_name (on_participant_left now r) = r_name r"
  "r_on_close (on_participant_left now r) = r_on_close r"
  by (simp_all add: on_participant_left_def split: option.splits)

lemma has_non_dependent_left [simp]:
  "has_non_dependent (on_participant_left now r) = has_non_dependent r"
  by (simp add: has_non_dependent_iff)

lemma room_inv_leave:
  assumes "room_inv r" "get_participant sid r \<noteq> None"
  shows "room_inv (on_participant_left now (snd (remove_participant now sid r)))"
proof -
  obtain p where p: "look (r_participants r) sid = Some p" using assms(2) by (auto simp: get_participant_def)
  let ?r = "snd (remove_participant now sid r)"
  note rp = remove_participant_simps [OF p, of now]
  have "members_inv (r_participants ?r)" using assms(1) by (simp add: rp room_inv_def members_inv_del)
  moreover have "has_non_dependent r \<and> del sid (r_participants r) \<noteq> []" if "has_non_dependent ?r"
    using that unfolding has_non_dependent_iff rp set_del by (auto simp: set_empty [symmetric] set_del simp del: set_empty)
  ultimately show ?thesis
    using assms(1) unfolding room_inv_def has_non_dependent_left on_participant_left_immut rp
    by (auto simp: on_participant_left_def rp split: option.splits)
qed

lemma room_inv_event:
  assumes "room_event r r'" "room_inv r"
  shows "room_inv r'"
  using assms
proof (cases rule: room_event.cases)
  case (ev_participants f)
  then show ?thesis using assms(2) by (simp add: room_inv_def members_inv_map has_non_dependent_map)
qed (auto intro: room_inv_join room_inv_leave,
  simp_all add: room_inv_def has_non_dependent_def participants_def room_update_metadata_def
    set_empty_timeout_def set_departure_timeout_def set_max_participants_def add_agent_dispatch_def
    mark_dispatch_launched_def Let_def)

lemma room_inv_reachable: "room_event\<^sup>*\<^sup>* r r' \<Longrightarrow> room_inv r \<Longrightarrow> room_inv r'"
  by (induction rule: rtranclp_induct) (auto intro: room_inv_event)

section \<open>Properties\<close>



text \<open>A join succeeds exactly in an open room that does not hold the identity
  and, for a real participant, has room left; it adds the participant and nobody
  else, and with a capacity set the real participants never exceed it through a
  join.\<close>

theorem join_respects_capacity:
  assumes "room_inv r" "get_participant (p_sid p) r = None"
  shows "(fst (room_join now p r) \<longleftrightarrow>
      \<not> r_closed r \<and> (\<forall>q \<in> set (participants r). p_identity q \<noteq> p_identity p)
      \<and> (is_dependent (p_kind p) \<or> r_max_participants r = 0 \<or> real_count r < unat (r_max_participants r)))
    \<and> (fst (room_join now p r) \<longrightarrow>
        participants (snd (room_join now p r)) = participants r @ [p]
        \<and> (\<not> is_dependent (p_kind p) \<longrightarrow> r_max_participants r \<noteq> 0 \<longrightarrow>
             real_count (snd (room_join now p r)) \<le> unat (r_max_participants r)))
    \<and> (\<not> fst (room_join now p r) \<longrightarrow> snd (room_join now p r) = r)"
proof (cases rule: room_join_cases [of now p r])
  case rejected
  then show ?thesis by (auto simp: is_full_def split: if_splits)
next
  case (accepted r')
  have ps: "participants r' = participants r @ [p]"
    using assms(2) by (simp add: participants_def accepted(5) get_participant_def put_fresh)
  moreover have "real_count r' = real_count r + (if is_dependent (p_kind p) then 0 else 1)"
    by (simp add: real_count_def ps)
  ultimately show ?thesis using accepted by (auto simp: is_full_def split: if_splits)
qed

text \<open>With the last free place of a room of two.\<close>

theorem join_respects_capacity_witness:
  "fst (room_join 0 (participant_new [2] 0 ''ann'' [] [] Standard)
        (room_new \<lparr> cf_empty_timeout = 300, cf_departure_timeout = 20, cf_max_participants = 2 \<rparr> [0] 0 ''r''))"
proof -
  let ?r = "room_new \<lparr> cf_empty_timeout = 300, cf_departure_timeout = 20, cf_max_participants = 2 \<rparr> [0] 0 ''r''"
  let ?p = "participant_new [2] 0 ''ann'' [] [] Standard"
  have "get_participant (p_sid ?p) ?r = None" by (simp add: get_participant_def room_new_def)
  from join_respects_capacity [OF room_inv_new this, of 0] show ?thesis
    by (simp add: room_new_def participants_def real_count_def)
qed



text \<open>An update about a hidden participant reaches nobody but that
  participant, whatever the room holds; an update about a visible participant
  reaches everyone whose channel takes it, except the excluded one.\<close>

theorem hidden_update_stays_private:
  assumes "get_participant sid r = Some q" "p_sid q = sid"
  shows "\<exists>q'. get_participant sid (broadcast_participant_update [info] except r) = Some q'
    \<and> p_sent q' = p_sent q @
        (if except \<noteq> Some sid \<and> (pm_hidden (pi_permission info) \<longrightarrow> sid = pi_sid info)
            \<and> fst (send_update (RespUpdate [info]) q)
         then [RespUpdate [info]] else [])"
  using assms
  by (auto simp: get_participant_def broadcast_participant_update_def Let_def send_update_sent)

text \<open>With a visible participant and a hidden one's update.\<close>

theorem hidden_update_stays_private_witness:
  "\<exists>q'. get_participant ''PA_x'' (broadcast_participant_update
      [fst (participant_to_proto (participant_new [2] 0 ''h'' [] [] Standard
          \<lparr> p_sid := ''PA_h'', p_permission := permission_default\<lparr> pm_hidden := True \<rparr> \<rparr>))] None
      (room_new \<lparr> cf_empty_timeout = 300, cf_departure_timeout = 20, cf_max_participants = 2 \<rparr> [0] 0 ''r''
        \<lparr> r_participants := [(''PA_x'', set_signal_sink (participant_new [2] 0 ''x'' [] [] Standard \<lparr> p_sid := ''PA_x'' \<rparr>))] \<rparr>))
     = Some q' \<and> p_sent q' = []"
proof -
  let ?q = "set_signal_sink (participant_new [2] 0 ''x'' [] [] Standard \<lparr> p_sid := ''PA_x'' \<rparr>)"
  let ?h = "participant_new [2] 0 ''h'' [] [] Standard
          \<lparr> p_sid := ''PA_h'', p_permission := permission_default\<lparr> pm_hidden := True \<rparr> \<rparr>"
  let ?r = "room_new \<lparr> cf_empty_timeout = 300, cf_departure_timeout = 20, cf_max_participants = 2 \<rparr> [0] 0 ''r''
        \<lparr> r_participants := [(''PA_x'', ?q)] \<rparr>"
  have "get_participant ''PA_x'' ?r = Some ?q" "p_sid ?q = ''PA_x''"
    by (simp_all add: get_participant_def look_def set_signal_sink_def)
  from hidden_update_stays_private [OF this, of "fst (participant_to_proto ?h)" None]
  show ?thesis by (simp add: set_signal_sink_def participant_new_def)
qed

end
