(* ===== verification/Agents.thy ===== *)
theory Agents
  imports Wire
begin

text \<open>
  Agent workers and job dispatch (\<open>lk-server/src/agent.rs\<close>).  A worker is shared
  between the manager's registry and its websocket session, so workers live in a
  store under references and the registry holds references; the outbound channel
  of a session is kept under the worker id, because every registration on one
  session uses the session's channel.  A dispatch waits for the worker's answer:
  \<open>dispatch_begin\<close> runs up to the wait and \<open>dispatch_finish\<close> from it, with what
  ended the wait as an argument.  The encoding of a token is the argument
  \<open>jwt_encode\<close>.
\<close>

section \<open>State\<close>

definition WORKER_CHANNEL_CAPACITY :: nat where
  "WORKER_CHANNEL_CAPACITY = 256"

record job =
  j_id :: string
  j_dispatch_id :: string
  j_room :: room_info
  j_metadata :: string
  j_agent_name :: string
  j_updated_at :: int
  j_deployment :: string
  j_attributes :: attrs

record availability_response =
  ar_available :: bool
  ar_identity :: string
  ar_name :: string
  ar_metadata :: string
  ar_attributes :: attrs

datatype server_message =
  SmRegister string
| SmAvailability job
| SmAssignment job string
| SmTermination string
| SmPong int int

record worker =
  w_worker_id :: string
  w_api_key :: string
  w_agent_name :: string
  w_job_type :: int
  w_status :: "32 word"
  w_load :: "32 word"
  w_job_count :: "32 word"
  w_ping_interval :: "32 word"
  w_is_available :: bool
  w_responder :: bool

record worker_channel =
  wc_queued :: nat
  wc_open :: bool
  wc_sent :: "server_message list"

record agent_dispatch =
  d_id :: string
  d_agent_name :: string
  d_room :: string
  d_metadata :: string
  d_deployment :: string
  d_attributes :: attrs
  d_created_at :: int
  d_deleted_at :: "int option"
  d_jobs :: "job list"

record agent_manager =
  am_workers :: "(string, nat list) assoc"
  am_store :: "(nat, worker) assoc"
  am_next :: nat
  am_channels :: "(string, worker_channel) assoc"
  am_dispatches :: "(string, agent_dispatch) assoc"
  am_keys :: attrs

definition agent_manager_new :: "attrs \<Rightarrow> agent_manager" where
  "agent_manager_new keys =
     \<lparr> am_workers = [], am_store = [], am_next = 0, am_channels = [], am_dispatches = [], am_keys = keys \<rparr>"

section \<open>Workers\<close>

definition worker_send :: "nat \<Rightarrow> server_message \<Rightarrow> agent_manager \<Rightarrow> agent_manager" where
  "worker_send ref msg am =
     (case look (am_store am) ref of
        None \<Rightarrow> am
      | Some w \<Rightarrow>
          am\<lparr> am_channels := adjust (w_worker_id w)
             (\<lambda>c. if wc_open c \<and> wc_queued c < WORKER_CHANNEL_CAPACITY
                  then c\<lparr> wc_queued := Suc (wc_queued c), wc_sent := wc_sent c @ [msg] \<rparr> else c) (am_channels am) \<rparr>)"

definition set_availability_responder :: "nat \<Rightarrow> agent_manager \<Rightarrow> agent_manager" where
  "set_availability_responder ref am = am\<lparr> am_store := adjust ref (\<lambda>w. w\<lparr> w_responder := True \<rparr>) (am_store am) \<rparr>"

definition fulfill_availability :: "nat \<Rightarrow> agent_manager \<Rightarrow> agent_manager" where
  "fulfill_availability ref am = am\<lparr> am_store := adjust ref (\<lambda>w. w\<lparr> w_responder := False \<rparr>) (am_store am) \<rparr>"

definition register_worker :: "worker \<Rightarrow> agent_manager \<Rightarrow> nat \<times> agent_manager" where
  "register_worker w am =
     (let ref = am_next am;
          refs = (case look (am_workers am) (w_agent_name w) of None \<Rightarrow> [] | Some rs \<Rightarrow> rs)
      in (ref, am\<lparr> am_store := put ref w (am_store am), am_next := Suc ref,
                   am_workers := put (w_agent_name w) (refs @ [ref]) (am_workers am) \<rparr>))"

definition unregister_worker :: "string \<Rightarrow> agent_manager \<Rightarrow> agent_manager" where
  "unregister_worker worker_id am =
     (let keep = (\<lambda>ref. map_option w_worker_id (look (am_store am) ref) \<noteq> Some worker_id)
      in am\<lparr> am_workers := filter (\<lambda>(_, refs). refs \<noteq> []) (map (\<lambda>(n, refs). (n, filter keep refs)) (am_workers am)) \<rparr>)"

definition workers_for :: "string \<Rightarrow> agent_manager \<Rightarrow> nat list" where
  "workers_for agent_name am = (case look (am_workers am) agent_name of None \<Rightarrow> [] | Some rs \<Rightarrow> rs)"

text \<open>The worker is drawn at random among the available ones; the draw is an argument.\<close>

definition pick_worker :: "nat \<Rightarrow> nat list \<Rightarrow> agent_manager \<Rightarrow> nat option" where
  "pick_worker draw refs am =
     (let available = filter (\<lambda>ref. map_option w_is_available (look (am_store am) ref) = Some True) refs
      in if available = [] then None else Some (available ! (draw mod length available)))"

section \<open>The session of a worker\<close>

datatype worker_message =
  WmRegister string int "32 word"
| WmAvailability availability_response
| WmUpdateWorker "int option" "32 word" "32 word"
| WmUpdateJob
| WmPing int
| WmOther

text \<open>\<open>cur\<close> is the worker the session registered last.  A worker status of
  \<open>WsAvailable\<close> is 0.\<close>

definition worker_session_message ::
    "string \<Rightarrow> string \<Rightarrow> int \<Rightarrow> worker_message \<Rightarrow> nat option \<times> agent_manager \<Rightarrow> nat option \<times> agent_manager" where
  "worker_session_message worker_id api_key now msg s =
     (let (cur, am) = s in
      (case msg of
         WmRegister agent_name job_type ping \<Rightarrow>
           let w = \<lparr> w_worker_id = worker_id, w_api_key = api_key, w_agent_name = agent_name,
                     w_job_type = job_type, w_status = 0, w_load = 0, w_job_count = 0,
                     w_ping_interval = (if ping = 0 then 10 else ping), w_is_available = True,
                     w_responder = False \<rparr>;
               (ref, am) = register_worker w am
           in (Some ref, worker_send ref (SmRegister worker_id) am)
       | WmAvailability _ \<Rightarrow> (cur, case cur of None \<Rightarrow> am | Some ref \<Rightarrow> fulfill_availability ref am)
       | WmUpdateWorker status load jobs \<Rightarrow>
           (cur, case cur of
              None \<Rightarrow> am
            | Some ref \<Rightarrow>
                am\<lparr> am_store := adjust ref
                   (\<lambda>w. let w = (case status of
                                  None \<Rightarrow> w
                                | Some st \<Rightarrow> w\<lparr> w_is_available := (st = 0), w_status := of_int st \<rparr>)
                        in w\<lparr> w_load := load, w_job_count := jobs \<rparr>) (am_store am) \<rparr>)
       | WmUpdateJob \<Rightarrow> (cur, am)
       | WmPing ts \<Rightarrow> (cur, case cur of None \<Rightarrow> am | Some ref \<Rightarrow> worker_send ref (SmPong ts (now sdiv 1000)) am)
       | WmOther \<Rightarrow> (cur, am)))"

definition worker_session_open :: "string \<Rightarrow> agent_manager \<Rightarrow> agent_manager" where
  "worker_session_open worker_id am =
     am\<lparr> am_channels := put worker_id \<lparr> wc_queued = 0, wc_open = True, wc_sent = [] \<rparr> (am_channels am) \<rparr>"

definition worker_session_close :: "nat option \<Rightarrow> agent_manager \<Rightarrow> agent_manager" where
  "worker_session_close cur am =
     (case Option.bind cur (look (am_store am)) of
        None \<Rightarrow> am
      | Some w \<Rightarrow> unregister_worker (w_worker_id w) am)"

section \<open>Tokens\<close>

definition agent_claims ::
    "int \<Rightarrow> string \<Rightarrow> string \<Rightarrow> string \<Rightarrow> string \<Rightarrow> string \<Rightarrow> attrs \<Rightarrow> json" where
  "agent_claims now api_key room identity nm metadata attributes =
     JObj [(''iss'', JStr api_key), (''sub'', JStr identity), (''name'', JStr nm), (''metadata'', JStr metadata),
       (''attributes'', JObj (map (\<lambda>(k, v). (k, JStr v)) attributes)), (''kind'', JStr ''AGENT''),
       (''iat'', JInt (unix_seconds now)), (''nbf'', JInt (unix_seconds now - 5)), (''exp'', JInt (unix_seconds now + 3600)),
       (''video'', JObj [(''roomJoin'', JBool True), (''room'', JStr room), (''canPublish'', JBool True),
          (''canSubscribe'', JBool True), (''canPublishData'', JBool True), (''canUpdateOwnMetadata'', JBool True),
          (''agent'', JBool True)])]"

definition build_agent_token ::
    "(json \<Rightarrow> string \<Rightarrow> (string, string) result) \<Rightarrow> int \<Rightarrow> string \<Rightarrow> string \<Rightarrow> string \<Rightarrow> string \<Rightarrow> string \<Rightarrow> string \<Rightarrow> attrs
     \<Rightarrow> (string, string) result" where
  "build_agent_token jwt_encode now api_key secret room identity nm metadata attributes =
     (case jwt_encode (agent_claims now api_key room identity nm metadata attributes) secret of
        Inl e \<Rightarrow> Inl (''encode agent token: '' @ e)
      | Inr tok \<Rightarrow> Inr tok)"

section \<open>Jobs\<close>

datatype wait_result = TimedOut | ChannelClosed | Responded availability_response

definition dispatch_begin :: "nat \<Rightarrow> job \<Rightarrow> agent_manager \<Rightarrow> (string, nat) result \<times> agent_manager" where
  "dispatch_begin draw job am =
     (case pick_worker draw (workers_for (j_agent_name job) am) am of
        None \<Rightarrow>
          (Inl (''not dispatching agent job since no worker is available (agent '' @ [CHR 0x27] @ j_agent_name job
             @ [CHR 0x27] @ '')''), am)
      | Some ref \<Rightarrow>
          if map_option w_responder (look (am_store am) ref) = Some True
          then (Inl ''worker already has a pending availability request'', am)
          else (Inr ref, worker_send ref (SmAvailability job) (set_availability_responder ref am)))"

definition dispatch_finish ::
    "(json \<Rightarrow> string \<Rightarrow> (string, string) result) \<Rightarrow> int \<Rightarrow> nat \<Rightarrow> job \<Rightarrow> wait_result \<Rightarrow> agent_manager
     \<Rightarrow> (string, unit) result \<times> agent_manager" where
  "dispatch_finish jwt_encode now ref job res am =
     (case res of
        TimedOut \<Rightarrow> (Inl ''worker did not respond to availability request'', am)
      | ChannelClosed \<Rightarrow> (Inl ''availability channel closed'', am)
      | Responded r \<Rightarrow>
          if \<not> ar_available r then (Inl ''worker declined the job'', am)
          else
            let identity = (if ar_identity r = [] then ''agent-'' @ j_id job else ar_identity r);
                api_key = (case look (am_store am) ref of None \<Rightarrow> [] | Some w \<Rightarrow> w_api_key w)
            in (case look (am_keys am) api_key of
                  None \<Rightarrow> (Inl (''unknown api key '' @ [CHR 0x27] @ api_key @ [CHR 0x27]), am)
                | Some secret \<Rightarrow>
                    (case build_agent_token jwt_encode now api_key secret (ri_name (j_room job)) identity
                            (ar_name r) (ar_metadata r) (ar_attributes r) of
                       Inl e \<Rightarrow> (Inl e, am)
                     | Inr tok \<Rightarrow> (Inr (), worker_send ref (SmAssignment job tok) am))))"

text \<open>A whole dispatch whose wait ends with \<open>res\<close>; an answer takes the responder.\<close>

definition dispatch_job ::
    "(json \<Rightarrow> string \<Rightarrow> (string, string) result) \<Rightarrow> int \<Rightarrow> nat \<Rightarrow> job \<Rightarrow> wait_result \<Rightarrow> agent_manager
     \<Rightarrow> (string, unit) result \<times> agent_manager" where
  "dispatch_job jwt_encode now draw job res am =
     (case dispatch_begin draw job am of
        (Inl e, am) \<Rightarrow> (Inl e, am)
      | (Inr ref, am) \<Rightarrow>
          dispatch_finish jwt_encode now ref job res
            (case res of Responded _ \<Rightarrow> fulfill_availability ref am | _ \<Rightarrow> am))"

definition track_job :: "job \<Rightarrow> agent_manager \<Rightarrow> agent_manager" where
  "track_job job am =
     (if j_dispatch_id job = [] then am
      else am\<lparr> am_dispatches := adjust (j_dispatch_id job)
             (\<lambda>d. if list_ex (\<lambda>j. j_id j = j_id job) (d_jobs d) then d else d\<lparr> d_jobs := d_jobs d @ [job] \<rparr>)
             (am_dispatches am) \<rparr>)"

definition launch_room_job ::
    "(json \<Rightarrow> string \<Rightarrow> (string, string) result) \<Rightarrow> nat list \<Rightarrow> nat \<Rightarrow> int \<Rightarrow> wait_result
     \<Rightarrow> string \<Rightarrow> room_info \<Rightarrow> string \<Rightarrow> string \<Rightarrow> attrs \<Rightarrow> string option \<Rightarrow> agent_manager
     \<Rightarrow> (string, string) result \<times> agent_manager" where
  "launch_room_job jwt_encode draws draw now res agent_name room metadata deployment attributes dispatch_id am =
     (let job = \<lparr> j_id = new_job_id draws, j_dispatch_id = unwrap_or [] dispatch_id, j_room = room,
                  j_metadata = metadata, j_agent_name = agent_name,
                  j_updated_at = unix_seconds now * 1000000000, j_deployment = deployment,
                  j_attributes = attributes \<rparr>
      in (case dispatch_job jwt_encode now draw job res am of
            (Inl e, am) \<Rightarrow> (Inl e, am)
          | (Inr _, am) \<Rightarrow> (Inr (j_id job), track_job job am)))"

definition terminate_room_jobs :: "string \<Rightarrow> agent_manager \<Rightarrow> agent_manager" where
  "terminate_room_jobs room_name am =
     (let jobs = concat (map (\<lambda>(_, d). filter (\<lambda>j. ri_name (j_room j) = room_name) (d_jobs d)) (am_dispatches am))
      in fold (\<lambda>j am. fold (\<lambda>ref. worker_send ref (SmTermination (j_id j))) (workers_for (j_agent_name j) am) am) jobs am)"

section \<open>Dispatches\<close>

definition create_dispatch ::
    "nat list \<Rightarrow> int \<Rightarrow> string \<Rightarrow> string \<Rightarrow> string \<Rightarrow> string \<Rightarrow> attrs \<Rightarrow> agent_manager \<Rightarrow> agent_dispatch \<times> agent_manager" where
  "create_dispatch draws now agent_name room metadata deployment attributes am =
     (let d = \<lparr> d_id = new_dispatch_id draws, d_agent_name = agent_name, d_room = room, d_metadata = metadata,
                d_deployment = deployment, d_attributes = attributes, d_created_at = unix_seconds now,
                d_deleted_at = None, d_jobs = [] \<rparr>
      in (d, am\<lparr> am_dispatches := put (d_id d) d (am_dispatches am) \<rparr>))"

definition delete_dispatch :: "int \<Rightarrow> string \<Rightarrow> agent_manager \<Rightarrow> agent_dispatch option \<times> agent_manager" where
  "delete_dispatch now i am =
     (case look (am_dispatches am) i of
        None \<Rightarrow> (None, am)
      | Some d \<Rightarrow>
          (Some (d\<lparr> d_deleted_at := Some (unix_seconds now) \<rparr>), am\<lparr> am_dispatches := del i (am_dispatches am) \<rparr>))"

definition list_dispatches :: "string \<Rightarrow> agent_manager \<Rightarrow> agent_dispatch list" where
  "list_dispatches room am = filter (\<lambda>d. d_room d = room \<and> d_deleted_at d = None) (map snd (am_dispatches am))"

definition get_dispatch :: "string \<Rightarrow> agent_manager \<Rightarrow> agent_dispatch option" where
  "get_dispatch i am =
     (case look (am_dispatches am) i of Some d \<Rightarrow> if d_deleted_at d = None then Some d else None | None \<Rightarrow> None)"

text \<open>The launches that a new room triggers run on their own; they are given as the
  list of launches, each with its draws and the result of its wait.\<close>

definition launch_room_dispatches ::
    "(json \<Rightarrow> string \<Rightarrow> (string, string) result) \<Rightarrow> (string \<Rightarrow> nat list \<times> nat \<times> wait_result) \<Rightarrow> int
     \<Rightarrow> room_info \<Rightarrow> agent_manager \<Rightarrow> agent_manager" where
  "launch_room_dispatches jwt_encode env now room am =
     fold (\<lambda>d am. let (draws, draw, res) = env (d_id d) in
             snd (launch_room_job jwt_encode draws draw now res (d_agent_name d) room (d_metadata d)
                    (d_deployment d) (d_attributes d) (Some (d_id d)) am))
       (list_dispatches (ri_name room) am) am"

section \<open>Lemmas\<close>

lemma worker_send_immut [simp, immut_simps]:
  "am_store (worker_send ref m am) = am_store am"
  "am_workers (worker_send ref m am) = am_workers am"
  "am_dispatches (worker_send ref m am) = am_dispatches am"
  "am_keys (worker_send ref m am) = am_keys am"
  by (simp_all add: worker_send_def split: option.splits)

lemma responder_immut [simp, immut_simps]:
  "am_workers (set_availability_responder ref am) = am_workers am"
  "am_dispatches (set_availability_responder ref am) = am_dispatches am"
  "am_keys (set_availability_responder ref am) = am_keys am"
  "am_channels (set_availability_responder ref am) = am_channels am"
  "am_workers (fulfill_availability ref am) = am_workers am"
  "am_dispatches (fulfill_availability ref am) = am_dispatches am"
  "am_keys (fulfill_availability ref am) = am_keys am"
  "am_channels (fulfill_availability ref am) = am_channels am"
  by (simp_all add: set_availability_responder_def fulfill_availability_def)

lemma worker_send_channel:
  assumes "look (am_store am) ref = Some w" "look (am_channels am) (w_worker_id w) = Some c" "wc_open c"
    and "wc_queued c < WORKER_CHANNEL_CAPACITY"
  shows "look (am_channels (worker_send ref m am)) (w_worker_id w)
    = Some (c\<lparr> wc_queued := Suc (wc_queued c), wc_sent := wc_sent c @ [m] \<rparr>)"
  using assms by (simp add: worker_send_def)

lemma pick_worker_SomeD:
  assumes "pick_worker draw refs am = Some ref"
  shows "ref \<in> set refs \<and> (\<exists>w. look (am_store am) ref = Some w \<and> w_is_available w)"
proof -
  let ?av = "filter (\<lambda>ref. map_option w_is_available (look (am_store am) ref) = Some True) refs"
  have "?av \<noteq> []" "ref = ?av ! (draw mod length ?av)"
    using assms by (simp_all only: pick_worker_def Let_def split: if_splits option.splits) simp_all
  then have "ref \<in> set ?av" by (metis length_greater_0_conv mod_less_divisor nth_mem)
  then show ?thesis by auto
qed

lemma dispatch_job_dispatches [simp]:
  "am_dispatches (snd (dispatch_job enc now draw job res am)) = am_dispatches am"
  by (auto simp: dispatch_job_def dispatch_begin_def dispatch_finish_def Let_def
      split: option.splits wait_result.splits sum.splits prod.splits)

lemma map_filter_JStr: "List.map_filter (\<lambda>(k, v). map_option (\<lambda>s. (k, s)) (as_str v)) (map (\<lambda>(k, v). (k, JStr v)) kvs) = kvs"
  by (induction kvs) (auto simp: map_filter_def as_str_def)

section \<open>Properties\<close>



text \<open>C32: the token built for an agent is accepted by verification (given that the
  JWT library decodes what it encoded) and lets the agent join exactly the room
  of the job, as an agent, under the chosen identity, name, metadata and
  attributes, with the right to publish, subscribe and send data but no
  administrative right.\<close>

theorem agent_token_verifies:
  assumes "look keys api_key = Some secret"
    and "build_agent_token jwt_encode now api_key secret room identity nm metadata attributes = Inr tok"
    and "split_on (CHR ''.'') tok = [h, p, s]"
    and "payload p = Inr (agent_claims now api_key room identity nm metadata attributes)"
    and "jwt_decode tok secret api_key = Inr (agent_claims now api_key room identity nm metadata attributes)"
  shows "\<exists>t. verify payload jwt_decode keys tok = Inr t \<and> vt_api_key t = api_key
    \<and> vt_identity t = identity \<and> vt_name t = nm \<and> vt_metadata t = metadata \<and> vt_attributes t = attributes
    \<and> participant_kind_from_token t = Agent
    \<and> vt_video t = video_grant_default\<lparr> vg_room_join := True, vg_room := room, vg_can_publish := Some True,
        vg_can_subscribe := Some True, vg_can_publish_data := Some True, vg_can_update_own_metadata := Some True,
        vg_agent := True \<rparr>
    \<and> vt_sip t = \<lparr> sg_admin = False, sg_call = False \<rparr>"
proof -
  let ?c = "agent_claims now api_key room identity nm metadata attributes"
  let ?t = "parse_claims api_key ?c"
  have iss: "jget ?c ''iss'' = Some (JStr api_key)" by (simp add: agent_claims_def jget_def look_def)
  then have "verify payload jwt_decode keys tok = Inr ?t"
    using assms by (simp add: verify_def decode_payload_unverified_def as_str_def)
  moreover have "vt_identity ?t = identity" "vt_name ?t = nm" "vt_metadata ?t = metadata" "vt_kind ?t = ''AGENT''"
      "vt_api_key ?t = api_key" "vt_sip ?t = \<lparr> sg_admin = False, sg_call = False \<rparr>"
    by (simp_all add: parse_claims_def agent_claims_def jget_def look_def as_str_def)
  moreover have "vt_attributes ?t = attributes"
    by (simp add: parse_claims_def agent_claims_def get_string_map_def jget_def look_def or_else_def as_object_def
        map_filter_JStr)
  moreover have "vt_video ?t = video_grant_default\<lparr> vg_room_join := True, vg_room := room, vg_can_publish := Some True,
        vg_can_subscribe := Some True, vg_can_publish_data := Some True, vg_can_update_own_metadata := Some True,
        vg_agent := True \<rparr>"
    by (simp add: parse_claims_def agent_claims_def jget_def look_def or_else_def as_object_def parse_video_def
        as_bool_def as_str_def video_grant_default_def)
  moreover have "to_uppercase ''AGENT'' = ''AGENT''" by code_simp
  ultimately show ?thesis by (auto simp: participant_kind_from_token_def)
qed

text \<open>C32 with a library that keeps one token.\<close>

theorem agent_token_verifies_witness:
  "\<exists>t. verify (\<lambda>_. Inr (agent_claims 0 ''key'' ''r'' ''agent-1'' ''a'' [] []))
      (\<lambda>_ _ _. Inr (agent_claims 0 ''key'' ''r'' ''agent-1'' ''a'' [] [])) [(''key'', ''secret'')] ''h.p.s'' = Inr t
     \<and> vt_identity t = ''agent-1'' \<and> vg_room (vt_video t) = ''r''"
  using agent_token_verifies [of "[(''key'', ''secret'')]" "''key''" "''secret''" "\<lambda>_ _. Inr ''h.p.s''" 0 "''r''"
      "''agent-1''" "''a''" "[]" "[]" "''h.p.s''" "''h''" "''p''" "''s''"
      "\<lambda>_. Inr (agent_claims 0 ''key'' ''r'' ''agent-1'' ''a'' [] [])"
      "\<lambda>_ _ _. Inr (agent_claims 0 ''key'' ''r'' ''agent-1'' ''a'' [] [])"]
  by (auto simp: look_def build_agent_token_def)

text \<open>A created dispatch is found by its id and listed for its room; once it
  is deleted it is neither found nor listed, so that creating the room launches
  no job for it.\<close>

theorem dispatch_lifecycle:
  assumes "create_dispatch draws now agent_name room metadata deployment attributes am = (d, am1)"
    and "delete_dispatch later (d_id d) am1 = (gone, am2)" "keys_distinct (am_dispatches am)"
  shows "get_dispatch (d_id d) am1 = Some d \<and> d \<in> set (list_dispatches room am1)
    \<and> gone = Some (d\<lparr> d_deleted_at := Some (unix_seconds later) \<rparr>)
    \<and> get_dispatch (d_id d) am2 = None
    \<and> (\<forall>e \<in> set (am_dispatches am2). fst e \<noteq> d_id d)
    \<and> launch_room_dispatches enc env t (ri\<lparr> ri_name := room \<rparr>) am2 =
        fold (\<lambda>e am. let (draws, draw, res) = env (d_id e) in
             snd (launch_room_job enc draws draw t res (d_agent_name e) (ri\<lparr> ri_name := room \<rparr>) (d_metadata e)
                    (d_deployment e) (d_attributes e) (Some (d_id e)) am))
          (map snd (filter (\<lambda>(k, e). k \<noteq> d_id d \<and> d_room e = room \<and> d_deleted_at e = None) (am_dispatches am1))) am2"
proof -
  have d: "d_room d = room" "d_deleted_at d = None" "am1 = am\<lparr> am_dispatches := put (d_id d) d (am_dispatches am) \<rparr>"
    using assms(1) by (auto simp: create_dispatch_def Let_def)
  have am2: "am2 = am1\<lparr> am_dispatches := del (d_id d) (am_dispatches am1) \<rparr>"
    and g: "gone = Some (d\<lparr> d_deleted_at := Some (unix_seconds later) \<rparr>)"
    using assms(2) by (auto simp: delete_dispatch_def d)
  have "keys_distinct (am_dispatches am1)" using assms(3) by (simp add: d)
  then have "(d_id d, d) \<in> set (am_dispatches am1)" by (subst look_Some_iff [symmetric]) (simp_all add: d)
  then have "d \<in> set (list_dispatches room am1)"
    using d by (force simp: list_dispatches_def)
  moreover have "list_dispatches room am2 =
      map snd (filter (\<lambda>(k, e). k \<noteq> d_id d \<and> d_room e = room \<and> d_deleted_at e = None) (am_dispatches am1))"
    by (simp add: list_dispatches_def am2 del_filter filter_map comp_def split_def conj_commute conj_assoc)
  ultimately show ?thesis
    using d g by (auto simp: get_dispatch_def am2 set_del launch_room_dispatches_def)
qed

text \<open>For one dispatch in an empty registry.\<close>

theorem dispatch_lifecycle_witness:
  "get_dispatch (new_dispatch_id [3]) (snd (delete_dispatch 9 (new_dispatch_id [3])
      (snd (create_dispatch [3] 0 ''voice'' ''r'' [] [] [] (agent_manager_new []))))) = None"
proof -
  obtain d am1 where 1: "create_dispatch [3] 0 ''voice'' ''r'' [] [] [] (agent_manager_new []) = (d, am1)" by fastforce
  then have i: "d_id d = new_dispatch_id [3]" by (auto simp: create_dispatch_def Let_def)
  obtain g am2 where 2: "delete_dispatch 9 (d_id d) am1 = (g, am2)" by fastforce
  have "keys_distinct (am_dispatches (agent_manager_new []))" by (simp add: agent_manager_new_def)
  from dispatch_lifecycle [OF 1 2 this] 1 2 show ?thesis by (simp add: i)
qed

text \<open>A worker that leaves one availability request unanswered is refused every
  later job, even though it still counts as available: the responder of the
  request that timed out is never taken back.\<close>

theorem unanswered_request_blocks_worker:
  assumes "pick_worker draw (workers_for (j_agent_name job) am) am = Some ref"
    and "map_option w_responder (look (am_store am) ref) = Some False"
    and "dispatch_job jwt_encode now draw job TimedOut am = (r, am1)"
    and "pick_worker draw' (workers_for (j_agent_name job') am1) am1 = Some ref"
  shows "dispatch_job jwt_encode later draw' job' res am1 = (Inl ''worker already has a pending availability request'', am1)"
proof -
  have "am1 = worker_send ref (SmAvailability job) (set_availability_responder ref am)"
    using assms(1-3) by (auto simp: dispatch_job_def dispatch_begin_def dispatch_finish_def)
  then have "map_option w_responder (look (am_store am1) ref) = Some True"
    using assms(2) by (auto simp: set_availability_responder_def)
  with assms(4) show ?thesis by (simp add: dispatch_job_def dispatch_begin_def)
qed

text \<open>A job launched from the agents of a token belongs to no dispatch and is not
  recorded, so that closing the room sends its worker no termination.\<close>

theorem token_job_not_tracked:
  "am_dispatches (snd (launch_room_job enc draws draw now res agent room md dep ats None am)) = am_dispatches am"
proof -
  let ?job = "\<lparr> j_id = new_job_id draws, j_dispatch_id = unwrap_or [] None, j_room = room,
                  j_metadata = md, j_agent_name = agent,
                  j_updated_at = unix_seconds now * 1000000000, j_deployment = dep, j_attributes = ats \<rparr> :: job"
  obtain r am' where d: "dispatch_job enc now draw ?job res am = (r, am')" by fastforce
  then have "am_dispatches am' = am_dispatches am"
    using dispatch_job_dispatches [of enc now draw ?job res am] by simp
  with d show ?thesis
    by (cases r) (simp_all add: launch_room_job_def track_job_def unwrap_or_def Let_def)
qed

end
