(* ===== verification/Cluster.thy ===== *)
theory Cluster
  imports LK_Strings
begin

text \<open>
  The cluster layer (\<open>lk-server/src/cluster.rs\<close>): the bus with its key-value,
  hash and stream operations as the in-memory bus implements them, the node
  registry, and the routing of a room to the one node that hosts it.  A node of
  the registry is alive while its key is present; the expiry of the key on the
  Redis bus is a step of the environment.  Routing is given twice: as the
  function one call computes, and as the small steps of several nodes that
  route the same room at the same time.
\<close>

section \<open>Keys\<close>

definition node_key :: "string \<Rightarrow> string" where
  "node_key node_id = ''lk:node:'' @ node_id"

definition rooms_key :: string where
  "rooms_key = ''lk:rooms''"

definition relay_ctrl :: "string \<Rightarrow> string" where
  "relay_ctrl node_id = ''lk:relay:'' @ node_id @ '':ctrl''"

definition relay_in :: "string \<Rightarrow> string" where
  "relay_in session_id = ''lk:relay:'' @ session_id @ '':in''"

definition relay_out :: "string \<Rightarrow> string" where
  "relay_out session_id = ''lk:relay:'' @ session_id @ '':out''"

section \<open>The in-memory bus\<close>

type_synonym entry = "nat \<times> attrs"

record mem_bus =
  mb_kv :: attrs
  mb_hashes :: "(string, attrs) assoc"
  mb_streams :: "(string, entry list) assoc"
  mb_next_id :: "(string, nat) assoc"

definition mem_bus_new :: mem_bus where
  "mem_bus_new = \<lparr> mb_kv = [], mb_hashes = [], mb_streams = [], mb_next_id = [] \<rparr>"

definition or_default :: "'v \<Rightarrow> ('k, 'v) assoc \<Rightarrow> 'k \<Rightarrow> 'v" where
  "or_default d m k = (case look m k of None \<Rightarrow> d | Some v \<Rightarrow> v)"

definition bus_next :: "string \<Rightarrow> mem_bus \<Rightarrow> nat \<times> mem_bus" where
  "bus_next stream b =
     (let n = Suc (or_default 0 (mb_next_id b) stream)
      in (n, b\<lparr> mb_next_id := put stream n (mb_next_id b) \<rparr>))"

definition set_with_ttl :: "string \<Rightarrow> string \<Rightarrow> mem_bus \<Rightarrow> mem_bus" where
  "set_with_ttl k v b = b\<lparr> mb_kv := put k v (mb_kv b) \<rparr>"

definition bus_get :: "string \<Rightarrow> mem_bus \<Rightarrow> string option" where
  "bus_get k b = look (mb_kv b) k"

definition bus_del :: "string \<Rightarrow> mem_bus \<Rightarrow> mem_bus" where
  "bus_del k b = b\<lparr> mb_kv := del k (mb_kv b) \<rparr>"

definition hset :: "string \<Rightarrow> string \<Rightarrow> string \<Rightarrow> mem_bus \<Rightarrow> mem_bus" where
  "hset hash field v b =
     b\<lparr> mb_hashes := put hash (put field v (or_default [] (mb_hashes b) hash)) (mb_hashes b) \<rparr>"

definition hsetnx :: "string \<Rightarrow> string \<Rightarrow> string \<Rightarrow> mem_bus \<Rightarrow> bool \<times> mem_bus" where
  "hsetnx hash field v b =
     (let h = or_default [] (mb_hashes b) hash in
      if look h field \<noteq> None then (False, b\<lparr> mb_hashes := put hash h (mb_hashes b) \<rparr>)
      else (True, b\<lparr> mb_hashes := put hash (put field v h) (mb_hashes b) \<rparr>))"

definition hget :: "string \<Rightarrow> string \<Rightarrow> mem_bus \<Rightarrow> string option" where
  "hget hash field b = Option.bind (look (mb_hashes b) hash) (\<lambda>h. look h field)"

definition hdel :: "string \<Rightarrow> string \<Rightarrow> mem_bus \<Rightarrow> mem_bus" where
  "hdel hash field b =
     (case look (mb_hashes b) hash of
        None \<Rightarrow> b
      | Some h \<Rightarrow> b\<lparr> mb_hashes := put hash (del field h) (mb_hashes b) \<rparr>)"

definition trim_end_matches :: "char \<Rightarrow> string \<Rightarrow> string" where
  "trim_end_matches c s = rev (dropWhile (\<lambda>d. d = c) (rev s))"

definition bus_keys :: "string \<Rightarrow> mem_bus \<Rightarrow> string list" where
  "bus_keys pattern b = filter (starts_with (trim_end_matches (CHR ''*'') pattern)) (map fst (mb_kv b))"

definition xadd :: "string \<Rightarrow> attrs \<Rightarrow> mem_bus \<Rightarrow> mem_bus" where
  "xadd stream fs b =
     (let (i, b) = bus_next stream b in
      b\<lparr> mb_streams := put stream (or_default [] (mb_streams b) stream @ [(i, fs)]) (mb_streams b) \<rparr>)"

text \<open>One poll of \<open>xread_block\<close>: the stream is emptied, and the entries newer than
  the last id are returned.\<close>

definition xread_last :: "string \<Rightarrow> nat" where
  "xread_last last_id =
     (if last_id = ''$'' then 0 else (case parse_unsigned (2 ^ 64 - 1) last_id of None \<Rightarrow> 0 | Some n \<Rightarrow> n))"

definition xread_poll :: "string \<Rightarrow> string \<Rightarrow> mem_bus \<Rightarrow> (string \<times> attrs) list \<times> mem_bus" where
  "xread_poll stream last_id b =
     (case look (mb_streams b) stream of
        None \<Rightarrow> ([], b)
      | Some q \<Rightarrow>
          (map (\<lambda>(i, fs). (show_nat i, fs)) (filter (\<lambda>(i, _). xread_last last_id < i) q),
           b\<lparr> mb_streams := put stream [] (mb_streams b) \<rparr>))"

section \<open>Nodes and rooms\<close>

datatype routing = Local | Remote string

record cluster =
  cl_bus :: mem_bus
  cl_node_id :: string
  cl_enabled :: bool

definition heartbeat :: "cluster \<Rightarrow> cluster" where
  "heartbeat c =
     (if cl_enabled c then c\<lparr> cl_bus := set_with_ttl (node_key (cl_node_id c)) ''alive'' (cl_bus c) \<rparr> else c)"

definition deregister :: "cluster \<Rightarrow> cluster" where
  "deregister c = (if cl_enabled c then c\<lparr> cl_bus := bus_del (node_key (cl_node_id c)) (cl_bus c) \<rparr> else c)"

definition node_alive :: "string \<Rightarrow> mem_bus \<Rightarrow> bool" where
  "node_alive node_id b \<longleftrightarrow> bus_get (node_key node_id) b \<noteq> None"

text \<open>The last look after the attempts, and the attempts.\<close>

definition route_observed :: "string \<Rightarrow> string \<Rightarrow> mem_bus \<Rightarrow> routing" where
  "route_observed me room b =
     (case hget rooms_key room b of
        Some owner \<Rightarrow> if owner = me then Local else if node_alive owner b then Remote owner else Local
      | None \<Rightarrow> Local)"

fun route_attempts :: "nat \<Rightarrow> string \<Rightarrow> string \<Rightarrow> mem_bus \<Rightarrow> routing \<times> mem_bus" where
  "route_attempts 0 me room b = (route_observed me room b, b)"
| "route_attempts (Suc n) me room b =
     (let claim =
        (case hsetnx rooms_key room me b of
           (True, b) \<Rightarrow> (Local, b)
         | (False, b) \<Rightarrow> route_attempts n me room b)
      in (case hget rooms_key room b of
            Some owner \<Rightarrow>
              if owner = me then (Local, b)
              else if node_alive owner b then (Remote owner, b)
              else claim
          | None \<Rightarrow> claim))"

definition route_room :: "string \<Rightarrow> cluster \<Rightarrow> routing \<times> cluster" where
  "route_room room c =
     (if \<not> cl_enabled c then (Local, c)
      else let (rt, b) = route_attempts 8 (cl_node_id c) room (cl_bus c) in (rt, c\<lparr> cl_bus := b \<rparr>))"

definition release_room :: "string \<Rightarrow> cluster \<Rightarrow> cluster" where
  "release_room room c =
     (if \<not> cl_enabled c then c
      else if hget rooms_key room (cl_bus c) = Some (cl_node_id c)
      then c\<lparr> cl_bus := hdel rooms_key room (cl_bus c) \<rparr> else c)"

subsection \<open>Concurrent routing\<close>

text \<open>Each node is at one of the bus calls of \<open>route_room\<close> with the number of
  attempts left (none left in the last look), or it has its routing.\<close>

datatype router = AtHget nat | AtAlive nat string | AtClaim nat | Routed routing

inductive route_step :: "string \<Rightarrow> mem_bus \<times> (string \<Rightarrow> router) \<Rightarrow> mem_bus \<times> (string \<Rightarrow> router) \<Rightarrow> bool"
  for room :: string where
  rs_mine: "st n = AtHget k \<Longrightarrow> hget rooms_key room b = Some n \<Longrightarrow> route_step room (b, st) (b, st(n := Routed Local))"
| rs_other: "st n = AtHget k \<Longrightarrow> hget rooms_key room b = Some owner \<Longrightarrow> owner \<noteq> n \<Longrightarrow>
     route_step room (b, st) (b, st(n := AtAlive k owner))"
| rs_unowned: "st n = AtHget (Suc k) \<Longrightarrow> hget rooms_key room b = None \<Longrightarrow> route_step room (b, st) (b, st(n := AtClaim k))"
| rs_unowned_last: "st n = AtHget 0 \<Longrightarrow> hget rooms_key room b = None \<Longrightarrow> route_step room (b, st) (b, st(n := Routed Local))"
| rs_alive: "st n = AtAlive k owner \<Longrightarrow> node_alive owner b \<Longrightarrow> route_step room (b, st) (b, st(n := Routed (Remote owner)))"
| rs_dead: "st n = AtAlive (Suc k) owner \<Longrightarrow> \<not> node_alive owner b \<Longrightarrow> route_step room (b, st) (b, st(n := AtClaim k))"
| rs_dead_last: "st n = AtAlive 0 owner \<Longrightarrow> \<not> node_alive owner b \<Longrightarrow> route_step room (b, st) (b, st(n := Routed Local))"
| rs_claimed: "st n = AtClaim k \<Longrightarrow> hsetnx rooms_key room n b = (True, b') \<Longrightarrow> route_step room (b, st) (b', st(n := Routed Local))"
| rs_taken: "st n = AtClaim k \<Longrightarrow> hsetnx rooms_key room n b = (False, b') \<Longrightarrow> route_step room (b, st) (b', st(n := AtHget k))"

section \<open>The relay reader\<close>

text \<open>The read half of a relayed session.  \<open>decode\<close> undoes the base64 and protobuf
  encoding of a request.\<close>

record 'q relay_reader =
  rl_session :: string
  rl_last_id :: string
  rl_pending :: "'q list"

definition relay_io :: "string \<Rightarrow> 'q relay_reader" where
  "relay_io session_id = \<lparr> rl_session = session_id, rl_last_id = ''$'', rl_pending = [] \<rparr>"

definition relay_entry :: "(string \<Rightarrow> 'q option) \<Rightarrow> string \<times> attrs \<Rightarrow> bool \<times> 'q relay_reader \<Rightarrow> bool \<times> 'q relay_reader" where
  "relay_entry decode e acc =
     (let (i, fs) = e; (got_close, rd) = acc;
          rd = rd\<lparr> rl_last_id := i \<rparr>;
          field = look (rev fs)
      in if field ''kind'' = Some ''close'' then (True, rd)
         else if field ''kind'' = Some ''request'' then
           (got_close,
            (case Option.bind (field ''data'') decode of
               None \<Rightarrow> rd
             | Some req \<Rightarrow> rd\<lparr> rl_pending := rl_pending rd @ [req] \<rparr>))
         else (got_close, rd))"

text \<open>One round of \<open>next_request\<close> on the entries a read returned: the end of the
  session, a request, or another read.\<close>

datatype 'q reader_result = ReadEnd | ReadRequest 'q | ReadAgain

definition relay_round :: "(string \<Rightarrow> 'q option) \<Rightarrow> (string \<times> attrs) list \<Rightarrow> 'q relay_reader \<Rightarrow> 'q reader_result \<times> 'q relay_reader" where
  "relay_round decode entries rd =
     (let (got_close, rd) = fold (relay_entry decode) entries (False, rd) in
      if got_close then (ReadEnd, rd)
      else (case rl_pending rd of
              [] \<Rightarrow> (ReadAgain, rd)
            | req # rest \<Rightarrow> (ReadRequest req, rd\<lparr> rl_pending := rest \<rparr>)))"

definition relay_next :: "(string \<Rightarrow> 'q option) \<Rightarrow> 'q relay_reader \<Rightarrow> mem_bus \<Rightarrow> 'q reader_result \<times> 'q relay_reader \<times> mem_bus" where
  "relay_next decode rd b =
     (case rl_pending rd of
        req # rest \<Rightarrow> (ReadRequest req, rd\<lparr> rl_pending := rest \<rparr>, b)
      | [] \<Rightarrow>
          let (entries, b) = xread_poll (relay_in (rl_session rd)) (rl_last_id rd) b;
              (res, rd) = relay_round decode entries rd
          in (res, rd, b))"

definition relay_request :: "string \<Rightarrow> attrs" where
  "relay_request data = [(''kind'', ''request''), (''data'', data)]"

definition relay_close :: attrs where
  "relay_close = [(''kind'', ''close'')]"

section \<open>Lemmas\<close>

text \<open>A hash of the bus is a keyed container.\<close>

lemma or_default_look: "look (or_default [] m k) f = Option.bind (look m k) (\<lambda>h. look h f)"
  by (simp add: or_default_def split: option.splits)

interpretation bus_hash: keyed_store mem_bus_new "\<lambda>b f. hget h f b" "hset h" "hdel h" "\<lambda>_. True"
  by unfold_locales
    (auto simp: hget_def hset_def hdel_def mem_bus_new_def or_default_look Option.bind_def split: option.splits)

lemma hget_hsetnx:
  "hget h f' (snd (hsetnx h f v b)) = (if f' = f \<and> hget h f b = None then Some v else hget h f' b)"
  "fst (hsetnx h f v b) \<longleftrightarrow> hget h f b = None"
  "h' \<noteq> h \<Longrightarrow> hget h' g (snd (hsetnx h f v b)) = hget h' g b"
  by (auto simp: hsetnx_def hget_def or_default_look Let_def Option.bind_def split: option.splits)

lemma node_alive_hash [simp]: "node_alive n (snd (hsetnx h f v b)) = node_alive n b"
  by (simp add: node_alive_def bus_get_def hsetnx_def Let_def)

text \<open>The key families of the bus do not meet.\<close>

lemma relay_keys_last: "last (relay_in s) = CHR ''n''" "last (relay_out s) = CHR ''t''" "last (relay_ctrl s) = CHR ''l''"
  by (simp_all add: relay_in_def relay_out_def relay_ctrl_def)

lemma relay_keys_distinct: "relay_in s \<noteq> relay_out s'" "relay_ctrl n \<noteq> relay_in s" "relay_ctrl n \<noteq> relay_out s"
  by (auto dest!: arg_cong [where f = last] simp: relay_keys_last)

lemma route_attempts_unowned:
  assumes "hget rooms_key room b = None"
  shows "route_attempts (Suc n) me room b = (Local, snd (hsetnx rooms_key room me b))"
proof -
  obtain b' where "hsetnx rooms_key room me b = (True, b')"
    using hget_hsetnx(2) [of rooms_key room me b] assms by (cases "hsetnx rooms_key room me b") auto
  then show ?thesis using assms by simp
qed

lemma route_attempts_dead:
  assumes "hget rooms_key room b = Some owner" "owner \<noteq> me" "\<not> node_alive owner b"
  shows "fst (route_attempts n me room b) = Local
    \<and> hget rooms_key room (snd (route_attempts n me room b)) = Some owner"
  using assms
proof (induction n arbitrary: b)
  case 0
  then show ?case by (simp add: route_observed_def)
next
  case (Suc n)
  let ?b = "snd (hsetnx rooms_key room me b)"
  obtain b' where "hsetnx rooms_key room me b = (False, b')"
    using hget_hsetnx(2) [of rooms_key room me b] Suc.prems(1) by (cases "hsetnx rooms_key room me b") auto
  then have step: "route_attempts (Suc n) me room b = route_attempts n me room ?b"
    using Suc.prems by simp
  have "hget rooms_key room ?b = Some owner" using Suc.prems by (simp add: hget_hsetnx)
  moreover have "\<not> node_alive owner ?b" using Suc.prems by simp
  ultimately show ?case using Suc.IH Suc.prems(2) unfolding step by blast
qed

text \<open>While nodes route, the entry of the room is written once.  A node that
  found the room its own, or claimed it, is the registered owner, and a node that
  saw another owner saw the registered one.\<close>

fun router_ok :: "string option \<Rightarrow> string \<Rightarrow> router \<Rightarrow> bool" where
  "router_ok o' n (AtHget k) \<longleftrightarrow> (k < 8 \<longrightarrow> o' \<noteq> None)"
| "router_ok o' n (AtAlive k owner) \<longleftrightarrow> o' = Some owner \<and> owner \<noteq> n"
| "router_ok o' n (AtClaim k) \<longleftrightarrow> True"
| "router_ok o' n (Routed Local) \<longleftrightarrow> o' = Some n"
| "router_ok o' n (Routed (Remote owner)) \<longleftrightarrow> o' = Some owner \<and> owner \<noteq> n"

definition routing_inv :: "string \<Rightarrow> mem_bus \<times> (string \<Rightarrow> router) \<Rightarrow> bool" where
  "routing_inv room c \<longleftrightarrow> (\<forall>n. router_ok (hget rooms_key room (fst c)) n (snd c n))"

lemma router_ok_None: "router_ok None n s \<Longrightarrow> router_ok o' n s"
  by (cases "(o', n, s)" rule: router_ok.cases) auto

text \<open>The assumption on the environment: registered owners stay alive.\<close>

definition owners_alive :: "string \<Rightarrow> mem_bus \<Rightarrow> bool" where
  "owners_alive room b \<longleftrightarrow> (\<forall>owner. hget rooms_key room b = Some owner \<longrightarrow> node_alive owner b)"

lemma routing_inv_step:
  assumes "route_step room c c'" "routing_inv room c" "owners_alive room (fst c)"
  shows "routing_inv room c'"
  using assms
proof (cases rule: route_step.cases)
  case (rs_claimed st n k b b')
  have b': "b' = snd (hsetnx rooms_key room n b)" and none: "hget rooms_key room b = None"
    using rs_claimed hget_hsetnx(2) [of rooms_key room n b] by auto
  have "hget rooms_key room b' = Some n" using none by (simp add: b' hget_hsetnx)
  then show ?thesis
    using assms(2) none unfolding rs_claimed routing_inv_def by (auto intro: router_ok_None)
next
  case (rs_taken st n k b b')
  have "b' = snd (hsetnx rooms_key room n b)" and some: "hget rooms_key room b \<noteq> None"
    using rs_taken hget_hsetnx(2) [of rooms_key room n b] by auto
  then have "hget rooms_key room b' = hget rooms_key room b" by (simp only: hget_hsetnx) simp
  with some show ?thesis
    using assms(2) unfolding rs_taken routing_inv_def by auto
next
  case (rs_unowned_last st n b)
  have "router_ok (hget rooms_key room b) n (st n)" using assms(2) unfolding rs_unowned_last(1) routing_inv_def fst_conv snd_conv by blast
  with rs_unowned_last show ?thesis by simp
next
  case (rs_dead st n k owner b)
  have "router_ok (hget rooms_key room b) n (st n)"
    using assms(2) unfolding rs_dead(1) routing_inv_def fst_conv snd_conv by blast
  with rs_dead assms(3) show ?thesis by (simp add: owners_alive_def)
next
  case (rs_dead_last st n owner b)
  have "router_ok (hget rooms_key room b) n (st n)"
    using assms(2) unfolding rs_dead_last(1) routing_inv_def fst_conv snd_conv by blast
  with rs_dead_last assms(3) show ?thesis by (simp add: owners_alive_def)
next
  case (rs_alive st n k owner b)
  have "router_ok (hget rooms_key room b) n (st n)"
    using assms(2) unfolding rs_alive(1) routing_inv_def fst_conv snd_conv by blast
  with rs_alive assms(2) show ?thesis by (simp add: routing_inv_def)
qed (simp_all add: routing_inv_def)

text \<open>A run: steps of the nodes while the registered owner is alive, and changes of
  the key-value part of the bus (heartbeats and expiry) at any time.\<close>

inductive routing_run :: "string \<Rightarrow> mem_bus \<times> (string \<Rightarrow> router) \<Rightarrow> mem_bus \<times> (string \<Rightarrow> router) \<Rightarrow> bool"
  for room :: string where
  run_node: "route_step room c c' \<Longrightarrow> owners_alive room (fst c) \<Longrightarrow> routing_run room c c'"
| run_kv: "routing_run room (b, st) (b\<lparr> mb_kv := kv \<rparr>, st)"

lemma routing_inv_run:
  assumes "(routing_run room)\<^sup>*\<^sup>* c c'" "routing_inv room c"
  shows "routing_inv room c'"
  using assms
proof (induction rule: rtranclp_induct)
  case (step c' c'')
  then have "routing_inv room c'" by simp
  with step.hyps(2) show ?case
  proof (cases rule: routing_run.cases)
    case run_node
    then show ?thesis using \<open>routing_inv room c'\<close> by (blast intro: routing_inv_step)
  qed (simp add: routing_inv_def hget_def)
qed

section \<open>Properties\<close>



text \<open>A room claimed by routing is this node's until it is released, routing it
  again changes nothing, another node is sent here while this node is alive and
  cannot release the room, and after the release the other node can claim it.\<close>

theorem claim_and_release:
  assumes "cl_enabled c" "hget rooms_key room (cl_bus c) = None" "node_alive (cl_node_id c) (cl_bus c)"
    and "route_room room c = (rt, c1)" "c2 = c1\<lparr> cl_node_id := other \<rparr>" "other \<noteq> cl_node_id c"
  shows "rt = Local \<and> route_room room c1 = (Local, c1) \<and> route_room room c2 = (Remote (cl_node_id c), c2)
    \<and> release_room room c2 = c2
    \<and> hget rooms_key room (cl_bus (release_room room c1)) = None
    \<and> fst (route_room room (release_room room c1 \<lparr> cl_node_id := other \<rparr>)) = Local"
proof -
  let ?b = "snd (hsetnx rooms_key room (cl_node_id c) (cl_bus c))"
  have 8: "(8 :: nat) = Suc 7" by simp
  have r: "route_attempts 8 (cl_node_id c) room (cl_bus c) = (Local, ?b)"
    unfolding 8 using assms(2) by (rule route_attempts_unowned)
  then have c1: "rt = Local" "c1 = c\<lparr> cl_bus := ?b \<rparr>"
    using assms(1,4) by (auto simp: route_room_def)
  have o: "hget rooms_key room ?b = Some (cl_node_id c)" using assms(2) by (simp add: hget_hsetnx)
  have alive: "node_alive (cl_node_id c) ?b" using assms(3) by simp
  have again: "route_attempts (Suc 7) (cl_node_id c) room ?b = (Local, ?b)" by (simp only: route_attempts.simps) (simp add: o)
  have remote: "route_attempts (Suc 7) other room ?b = (Remote (cl_node_id c), ?b)"
    by (simp only: route_attempts.simps) (use o alive assms(6) in simp)
  have rel: "cl_bus (release_room room c1) = hdel rooms_key room ?b" "cl_enabled (release_room room c1)"
    using o assms(1) by (simp_all add: release_room_def c1)
  then have gone: "hget rooms_key room (cl_bus (release_room room c1)) = None" by (simp add: bus_hash.get_del)
  have "route_attempts (Suc 7) other room (cl_bus (release_room room c1)) =
      (Local, snd (hsetnx rooms_key room other (cl_bus (release_room room c1))))"
    by (rule route_attempts_unowned [OF gone])
  then show ?thesis
    using again remote rel(2) gone o assms(1,5,6) unfolding 8 [symmetric]
    by (auto simp: route_room_def release_room_def c1 split: prod.splits)
qed

text \<open>On an empty registry with one node alive.\<close>

theorem claim_and_release_witness:
  "\<exists>c1. route_room ''r'' (heartbeat \<lparr> cl_bus = mem_bus_new, cl_node_id = ''n1'', cl_enabled = True \<rparr>) = (Local, c1)
     \<and> route_room ''r'' (c1\<lparr> cl_node_id := ''n2'' \<rparr>) = (Remote ''n1'', c1\<lparr> cl_node_id := ''n2'' \<rparr>)"
proof -
  let ?c = "heartbeat \<lparr> cl_bus = mem_bus_new, cl_node_id = ''n1'', cl_enabled = True \<rparr>"
  have c: "cl_enabled ?c" "hget rooms_key ''r'' (cl_bus ?c) = None" "node_alive (cl_node_id ?c) (cl_bus ?c)" "cl_node_id ?c = ''n1''"
    by (simp_all add: heartbeat_def set_with_ttl_def hget_def mem_bus_new_def node_alive_def bus_get_def)
  obtain rt c1 where rc: "route_room ''r'' ?c = (rt, c1)" by fastforce
  from claim_and_release [OF c(1-3) rc refl, of "''n2''"] rc show ?thesis by (auto simp: c(4))
qed

text \<open>A room whose owner died is not moved to one node: the registry keeps the
  dead owner, and every node that routes the room serves it locally.\<close>

theorem dead_owner_room_split:
  assumes "hget rooms_key room b = Some owner" "\<not> node_alive owner b" "n1 \<noteq> owner" "n2 \<noteq> owner"
    and "route_attempts 8 n1 room b = (rt1, b1)" "route_attempts 8 n2 room b1 = (rt2, b2)" "\<not> node_alive owner b1"
  shows "rt1 = Local \<and> rt2 = Local \<and> hget rooms_key room b2 = Some owner"
  using route_attempts_dead [OF assms(1) _ assms(2), of n1 8] assms(3,5)
    route_attempts_dead [of room b1 owner n2 8] assms(4,6,7) by auto

text \<open>A request that is read in one batch with the close of the session is never
  handled.\<close>

theorem relay_close_drops_batched_request:
  assumes "decode data = Some req"
  shows "\<exists>rd'. relay_round decode [(i, relay_request data), (j, relay_close)] (relay_io s) = (ReadEnd, rd')
    \<and> rl_pending rd' = [req]"
  using assms by (simp add: relay_round_def relay_entry_def relay_request_def relay_close_def relay_io_def look_def)

end
