(* ===== verification/Webhook.thy ===== *)
theory Webhook
  imports Wire
begin

text \<open>
  The webhook notifier (\<open>lk-server/src/webhook.rs\<close>): the events of the room
  lifecycle, the secret that signs them, and the delivery of one event to one URL
  with its retries.  The HMAC, the JSON encoder and the outcome of each POST are
  arguments; the event id and the creation time of an event are left out of its
  body.
\<close>

section \<open>Events\<close>

datatype webhook_event =
  WhRoomStarted room_info
| WhRoomFinished room_info
| WhParticipantJoined room_info participant_info
| WhParticipantLeft room_info participant_info
| WhTrackPublished room_info participant_info track_info
| WhTrackUnpublished room_info participant_info track_info

fun event_name :: "webhook_event \<Rightarrow> string" where
  "event_name (WhRoomStarted _) = ''room_started''"
| "event_name (WhRoomFinished _) = ''room_finished''"
| "event_name (WhParticipantJoined _ _) = ''participant_joined''"
| "event_name (WhParticipantLeft _ _) = ''participant_left''"
| "event_name (WhTrackPublished _ _ _) = ''track_published''"
| "event_name (WhTrackUnpublished _ _ _) = ''track_unpublished''"

fun event_room :: "webhook_event \<Rightarrow> room_info" where
  "event_room (WhRoomStarted r) = r"
| "event_room (WhRoomFinished r) = r"
| "event_room (WhParticipantJoined r _) = r"
| "event_room (WhParticipantLeft r _) = r"
| "event_room (WhTrackPublished r _ _) = r"
| "event_room (WhTrackUnpublished r _ _) = r"

section \<open>The notifier\<close>

record webhook_config =
  wh_urls :: "string list"
  wh_api_key :: string

record notifier =
  nt_urls :: "string list"
  nt_secret :: string

definition notifier_from_config :: "webhook_config \<Rightarrow> attrs \<Rightarrow> notifier option" where
  "notifier_from_config c keys =
     (if wh_urls c = [] then None
      else Some \<lparr> nt_urls = wh_urls c,
                  nt_secret = (case look keys (wh_api_key c) of Some s \<Rightarrow> s | None \<Rightarrow> wh_api_key c) \<rparr>)"

definition hex_byte :: "8 word \<Rightarrow> string" where
  "hex_byte b = [hex_digit (unat b div 16), hex_digit (unat b mod 16)]"

definition wh_sign :: "(8 word list \<Rightarrow> 8 word list \<Rightarrow> 8 word list) \<Rightarrow> string \<Rightarrow> 8 word list \<Rightarrow> string" where
  "wh_sign hmac secret body = concat (map hex_byte (hmac (str_bytes secret) body))"

text \<open>The delivery of a signed body to one URL: \<open>ok i\<close> says whether attempt \<open>i\<close>
  succeeds.  The result lists what the task does, a post with its outcome or a
  pause in milliseconds.\<close>

datatype delivery_step = Post bool | Pause nat

definition wh_delays :: "nat list" where
  "wh_delays = [250, 500, 1000, 2000, 4000]"

fun deliver_from :: "(nat \<Rightarrow> bool) \<Rightarrow> nat \<Rightarrow> nat list \<Rightarrow> delivery_step list" where
  "deliver_from ok i [] = []"
| "deliver_from ok i (d # ds) =
     (if ok i then [Post True]
      else Post False # (if ds = [] then [] else Pause d # deliver_from ok (Suc i) ds))"

definition deliver :: "(nat \<Rightarrow> bool) \<Rightarrow> delivery_step list" where
  "deliver ok = deliver_from ok 0 wh_delays"

text \<open>\<open>send_event\<close>: the requests, one task per URL, with the signature header.\<close>

definition send_event ::
    "(8 word list \<Rightarrow> 8 word list \<Rightarrow> 8 word list) \<Rightarrow> (webhook_event \<Rightarrow> 8 word list) \<Rightarrow> notifier option \<Rightarrow> webhook_event
     \<Rightarrow> (string \<times> string \<times> 8 word list) list" where
  "send_event hmac to_vec nt ev =
     (case nt of
        None \<Rightarrow> []
      | Some n \<Rightarrow> let body = to_vec ev; sig = wh_sign hmac (nt_secret n) body
                 in map (\<lambda>url. (url, sig, body)) (nt_urls n))"

section \<open>Lemmas\<close>

lemma hex_byte_inj:
  assumes "hex_byte a = hex_byte b"
  shows "a = b"
proof -
  have d: "distinct ''0123456789abcdef''" "length ''0123456789abcdef'' = 16" by simp_all
  have lt: "unat x div 16 < 16" for x :: "8 word"
    using unsigned_less [of x, where ?'a = nat] by (simp add: div_less_iff_less_mult)
  have "unat a div 16 = unat b div 16" "unat a mod 16 = unat b mod 16"
    using assms lt [of a] lt [of b] nth_eq_iff_index_eq [OF d(1)]
    by (simp_all add: hex_byte_def hex_digit_def)
  then have "unat a = unat b" by (metis div_mult_mod_eq)
  then show ?thesis by (simp only: word_unat_eq_iff)
qed

lemma length_hex_byte: "length (hex_byte b) = 2"
  by (simp add: hex_byte_def)

lemma length_concat_hex: "length (concat (map hex_byte bs)) = 2 * length bs"
  by (induction bs) (simp_all add: hex_byte_def)

lemma concat_hex_inj:
  assumes "concat (map hex_byte as) = concat (map hex_byte bs)"
  shows "as = bs"
  using assms
proof (induction as arbitrary: bs)
  case Nil
  then show ?case by (cases bs) (simp_all add: hex_byte_def)
next
  case (Cons a as)
  then obtain b bs' where bs: "bs = b # bs'" by (cases bs) (simp_all add: hex_byte_def)
  have "hex_byte a = hex_byte b \<and> concat (map hex_byte as) = concat (map hex_byte bs')"
    using Cons.prems by (simp add: bs append_eq_append_conv length_hex_byte)
  then show ?case using Cons hex_byte_inj [of a b] by (auto simp: bs)
qed

lemma deliver_from_posts:
  "length (filter (\<lambda>s. \<exists>b. s = Post b) (deliver_from ok i ds)) \<le> length ds"
  "Post True \<in> set (deliver_from ok i ds) \<longleftrightarrow> (\<exists>j < length ds. ok (i + j))"
proof -
  show "length (filter (\<lambda>s. \<exists>b. s = Post b) (deliver_from ok i ds)) \<le> length ds"
    by (induction ds arbitrary: i) auto
  show "Post True \<in> set (deliver_from ok i ds) \<longleftrightarrow> (\<exists>j < length ds. ok (i + j))"
  proof (induction ds arbitrary: i)
    case (Cons d ds)
    have "(\<exists>j < Suc (length ds). ok (i + j)) \<longleftrightarrow> ok i \<or> (\<exists>j < length ds. ok (Suc i + j))"
      by (auto simp: less_Suc_eq_0_disj)
    then show ?case using Cons.IH [of "Suc i"] by auto
  qed simp
qed

lemma deliver_from_Nil: "deliver_from ok i ds = [] \<longleftrightarrow> ds = []"
  by (cases ds) auto

lemma deliver_from_success_last:
  "Post True \<in> set (deliver_from ok i ds) \<Longrightarrow> last (deliver_from ok i ds) = Post True
     \<and> Post True \<notin> set (butlast (deliver_from ok i ds))"
  by (induction ok i ds rule: deliver_from.induct) (auto simp: deliver_from_Nil split: if_splits)

section \<open>Properties\<close>


text \<open>Every configured URL gets the same body, signed in lower-case hexadecimal
  with the secret of the configured API key; different MACs have different
  signatures.\<close>

theorem webhook_signature_faithful:
  assumes "wh_urls c \<noteq> []" "look keys (wh_api_key c) = Some secret"
  shows "map fst (send_event hmac to_vec (notifier_from_config c keys) ev) = wh_urls c
    \<and> (\<forall>(url, sig, body) \<in> set (send_event hmac to_vec (notifier_from_config c keys) ev).
         body = to_vec ev \<and> length sig = 2 * length (hmac (str_bytes secret) body)
         \<and> (\<forall>s m. sig = wh_sign hmac s m \<longrightarrow> hmac (str_bytes s) m = hmac (str_bytes secret) body))"
proof -
  have "hmac (str_bytes s) m = hmac (str_bytes secret) (to_vec ev)"
    if "wh_sign hmac secret (to_vec ev) = wh_sign hmac s m" for s m
    using concat_hex_inj [of "hmac (str_bytes secret) (to_vec ev)" "hmac (str_bytes s) m"] that
    by (simp add: wh_sign_def)
  then show ?thesis
    using assms by (auto simp: send_event_def notifier_from_config_def wh_sign_def length_concat_hex Let_def comp_def)
qed

text \<open>The signature with a MAC that returns the message.\<close>

theorem webhook_signature_faithful_witness:
  "map fst (send_event (\<lambda>_ m. m) (\<lambda>_. [7, 255])
     (notifier_from_config \<lparr> wh_urls = [''http://a'', ''http://b''], wh_api_key = ''k'' \<rparr> [(''k'', ''s'')])
     (WhRoomStarted undefined)) = [''http://a'', ''http://b'']"
  using webhook_signature_faithful [of "\<lparr> wh_urls = [''http://a'', ''http://b''], wh_api_key = ''k'' \<rparr>"
      "[(''k'', ''s'')]" "''s''" "\<lambda>_ m. m" "\<lambda>_. [7, 255]" "WhRoomStarted undefined"]
  by (simp add: look_def)

end
