(* ===== verification/Server.thy ===== *)
theory Server
  imports Room Agents Cluster Webhook
begin

text \<open>
  The server (\<open>lk-server/src/server.rs\<close>) and the part of a room that reaches the
  shared services (\<open>lk-server/src/room.rs\<close>, \<open>RoomContext\<close> and \<open>Room::close\<close>): the
  room registry, closing a room, the timeout check and the speaker broadcast.
  The gauges and counters are part of the context; the webhook notifier is the
  list of events handed to it.  Tasks the server spawns are recorded
  (\<open>sv_launches\<close>) and run by an operation of their own.
\<close>

section \<open>State\<close>

record metrics =
  mt_room_total :: int
  mt_participant_total :: int
  mt_participant_join :: int
  mt_track_published :: int
  mt_track_publish_started :: int
  mt_track_publish_ended :: int
  mt_track_subscribed :: int
  mt_track_subscribe_started :: int
  mt_track_subscribe_ended :: int
  mt_connections :: int
  mt_room_duration :: "int list"
  mt_session_duration :: "int list"

definition metrics_new :: metrics where
  "metrics_new =
     \<lparr> mt_room_total = 0, mt_participant_total = 0, mt_participant_join = 0, mt_track_published = 0,
       mt_track_publish_started = 0, mt_track_publish_ended = 0, mt_track_subscribed = 0,
       mt_track_subscribe_started = 0, mt_track_subscribe_ended = 0, mt_connections = 0,
       mt_room_duration = [], mt_session_duration = [] \<rparr>"

record ctx =
  cx_metrics :: metrics
  cx_webhooks :: "webhook_event list"
  cx_agent :: agent_manager
  cx_cluster :: cluster
  cx_speakers :: attrs

record server =
  sv_config :: room_config
  sv_region :: string
  sv_codecs :: "string list"
  sv_keys :: attrs
  sv_rooms :: "(string, room) assoc"
  sv_ctx :: ctx
  sv_launches :: "string list"

definition emit :: "webhook_event \<Rightarrow> ctx \<Rightarrow> ctx" where
  "emit ev cx = cx\<lparr> cx_webhooks := cx_webhooks cx @ [ev] \<rparr>"

definition participant_total_dec :: "ctx \<Rightarrow> ctx" where
  "participant_total_dec cx =
     cx\<lparr> cx_metrics := (cx_metrics cx)\<lparr> mt_participant_total := mt_participant_total (cx_metrics cx) - 1 \<rparr> \<rparr>"

definition participant_total_inc :: "ctx \<Rightarrow> ctx" where
  "participant_total_inc cx =
     cx\<lparr> cx_metrics := (cx_metrics cx)\<lparr> mt_participant_total := mt_participant_total (cx_metrics cx) + 1,
            mt_participant_join := mt_participant_join (cx_metrics cx) + 1 \<rparr> \<rparr>"

section \<open>Closing a room\<close>

text \<open>One participant of the closing room: it is marked disconnected, its channel is
  dropped, its media torn down, and only then the leave message is sent.\<close>

definition disconnect_participant :: "disconnect_reason \<Rightarrow> participant \<Rightarrow> participant" where
  "disconnect_participant reason p =
     (let p = snd (set_state Disconnected p);
          p = p\<lparr> p_disconnected_reason := reason \<rparr>;
          p = clear_signal_sink p
      in p\<lparr> p_media := clear_media (p_media p) \<rparr>)"

definition close_participant :: "disconnect_reason \<Rightarrow> room_info \<Rightarrow> string \<Rightarrow> room \<times> ctx \<Rightarrow> room \<times> ctx" where
  "close_participant reason room_proto sid s =
     (let (r, cx) = s in
      (case look (r_participants r) sid of
         None \<Rightarrow> (r, cx)
       | Some p \<Rightarrow>
           let p = disconnect_participant reason p;
               p = snd (p_send (RespLeave reason) p);
               (info, p) = participant_to_proto p;
               r = release_subscriber sid (r\<lparr> r_participants := adjust sid (\<lambda>_. p) (r_participants r) \<rparr>)
           in (r, emit (WhParticipantLeft room_proto info) (participant_total_dec cx))))"

text \<open>The participants of the closed room are returned for what the sessions that
  still hold them see.\<close>

definition room_close :: "disconnect_reason \<Rightarrow> room \<times> ctx \<Rightarrow> participant list \<times> room \<times> ctx" where
  "room_close reason s =
     (let (r, cx) = s in
      if r_closed r then ([], r, cx)
      else
        let r = r\<lparr> r_closed := True \<rparr>;
            room_proto = room_to_proto r;
            cx = cx\<lparr> cx_agent := terminate_room_jobs (r_name r) (cx_agent cx) \<rparr>;
            cx = cx\<lparr> cx_cluster := release_room (r_name r) (cx_cluster cx) \<rparr>;
            (r, cx) = fold (close_participant reason room_proto) (map fst (r_participants r)) (r, cx);
            gone = participants r;
            r = r\<lparr> r_participants := [] \<rparr>
        in (gone, r, emit (WhRoomFinished room_proto) cx))"

section \<open>The room registry\<close>

definition get_room :: "string \<Rightarrow> server \<Rightarrow> room option" where
  "get_room nm sv = look (sv_rooms sv) nm"

definition set_room :: "room \<Rightarrow> ctx \<Rightarrow> server \<Rightarrow> server" where
  "set_room r cx sv = sv\<lparr> sv_rooms := adjust (r_name r) (\<lambda>_. r) (sv_rooms sv), sv_ctx := cx \<rparr>"

definition get_or_create_room :: "nat list \<Rightarrow> int \<Rightarrow> string \<Rightarrow> server \<Rightarrow> room \<times> server" where
  "get_or_create_room draws now nm sv =
     (case get_room nm sv of
        Some r \<Rightarrow> (r, sv)
      | None \<Rightarrow>
          let r = (room_new (sv_config sv) draws now nm)\<lparr> r_on_close := True \<rparr>;
              mt = cx_metrics (sv_ctx sv)
          in (r, sv\<lparr> sv_rooms := put nm r (sv_rooms sv),
                     sv_ctx := (sv_ctx sv)\<lparr> cx_metrics := mt\<lparr> mt_room_total := mt_room_total mt + 1 \<rparr> \<rparr>,
                     sv_launches := sv_launches sv @ [nm] \<rparr>))"

text \<open>The spawned task that launches the dispatches of a new room.\<close>

definition launch_pending_dispatches ::
    "(json \<Rightarrow> string \<Rightarrow> (string, string) result) \<Rightarrow> (string \<Rightarrow> nat list \<times> nat \<times> wait_result) \<Rightarrow> int \<Rightarrow> server \<Rightarrow> server" where
  "launch_pending_dispatches jwt_encode env now sv =
     (case sv_launches sv of
        [] \<Rightarrow> sv
      | nm # rest \<Rightarrow>
          let sv = sv\<lparr> sv_launches := rest \<rparr> in
          (case get_room nm sv of
             None \<Rightarrow> sv
           | Some r \<Rightarrow>
               sv\<lparr> sv_ctx := (sv_ctx sv)\<lparr> cx_agent :=
                 launch_room_dispatches jwt_encode env now (room_to_proto r) (cx_agent (sv_ctx sv)) \<rparr> \<rparr>))"

definition remove_room :: "string \<Rightarrow> server \<Rightarrow> server" where
  "remove_room nm sv =
     (let mt = cx_metrics (sv_ctx sv) in
      sv\<lparr> sv_rooms := del nm (sv_rooms sv),
          sv_ctx := (sv_ctx sv)\<lparr> cx_metrics := mt\<lparr> mt_room_total := mt_room_total mt - 1 \<rparr> \<rparr> \<rparr>)"

definition on_room_closed :: "int \<Rightarrow> room \<Rightarrow> server \<Rightarrow> server" where
  "on_room_closed now r sv =
     (let cx = (sv_ctx sv)\<lparr> cx_speakers := del (r_name r) (cx_speakers (sv_ctx sv)) \<rparr>;
          mt = cx_metrics cx;
          cx = cx\<lparr> cx_metrics := mt\<lparr> mt_room_duration := mt_room_duration mt @ [unix_millis now - r_creation_time_ms r] \<rparr> \<rparr>
      in remove_room (r_name r) (sv\<lparr> sv_ctx := cx \<rparr>))"

text \<open>\<open>Room::close\<close> on a room of the registry, with its \<open>on_close\<close> callback.\<close>

definition close_in_server :: "int \<Rightarrow> disconnect_reason \<Rightarrow> room \<Rightarrow> server \<Rightarrow> participant list \<times> server" where
  "close_in_server now reason r sv =
     (if r_closed r then ([], sv)
      else
        let (gone, r', cx) = room_close reason (r, sv_ctx sv);
            sv = set_room (r'\<lparr> r_on_close := False \<rparr>) cx sv
        in (gone, if r_on_close r' then on_room_closed now r' sv else sv))"

definition close_room :: "int \<Rightarrow> string \<Rightarrow> disconnect_reason \<Rightarrow> server \<Rightarrow> bool \<times> server" where
  "close_room now nm reason sv =
     (case get_room nm sv of
        None \<Rightarrow> (False, sv)
      | Some r \<Rightarrow> (True, snd (close_in_server now reason r sv)))"

section \<open>Background tasks\<close>

definition check_room :: "int \<Rightarrow> string \<Rightarrow> server \<Rightarrow> server" where
  "check_room now nm sv =
     (case get_room nm sv of
        None \<Rightarrow> sv
      | Some r \<Rightarrow> if should_close now r then snd (close_in_server now RoomClosed r sv) else sv)"

definition check_room_timeouts :: "int \<Rightarrow> server \<Rightarrow> server" where
  "check_room_timeouts now sv = fold (check_room now) (map fst (sv_rooms sv)) sv"

text \<open>\<open>active_speakers\<close> over the participants of a room, in their order.\<close>

fun collect_speakers :: "nat \<Rightarrow> (string, participant) assoc \<Rightarrow> speaker list \<times> (string, participant) assoc" where
  "collect_speakers now [] = ([], [])"
| "collect_speakers now ((k, p) # ps) =
     (let (sp, m) = speaker_of now (p_sid p) (p_media p);
          (sps, ps') = collect_speakers now ps
      in (sp @ sps, (k, p\<lparr> p_media := m \<rparr>) # ps'))"

fun insert_sorted :: "string \<Rightarrow> string list \<Rightarrow> string list" where
  "insert_sorted x [] = [x]"
| "insert_sorted x (y # ys) = (if lex_le x y then x # y # ys else y # insert_sorted x ys)"

definition sort_strings :: "string list \<Rightarrow> string list" where
  "sort_strings xs = foldr insert_sorted xs []"

definition speaker_key :: "speaker list \<Rightarrow> string" where
  "speaker_key speakers = join_with '','' (sort_strings (map sp_sid speakers))"

definition room_speakers :: "nat \<Rightarrow> room \<times> ctx \<Rightarrow> room \<times> ctx" where
  "room_speakers now s =
     (let (r, cx) = s in
      if r_closed r then (r, cx)
      else
        let (speakers, ps) = collect_speakers now (r_participants r);
            r = r\<lparr> r_participants := ps \<rparr>;
            key = speaker_key speakers
        in if or_default [] (cx_speakers cx) (r_name r) = key then (r, cx)
           else (map_participants (\<lambda>p. snd (send_update (RespSpeakersChanged speakers) p)) r,
                 cx\<lparr> cx_speakers := put (r_name r) key (cx_speakers cx) \<rparr>))"

definition broadcast_speakers :: "nat \<Rightarrow> server \<Rightarrow> server" where
  "broadcast_speakers now sv =
     fold (\<lambda>nm sv. case get_room nm sv of
             None \<Rightarrow> sv
           | Some r \<Rightarrow> let (r, cx) = room_speakers now (r, sv_ctx sv) in set_room r cx sv)
       (map fst (sv_rooms sv)) sv"

section \<open>Invariant\<close>

text \<open>Rooms are registered under their names, open, well-formed and with their
  callback in place; the gauges count the rooms and the participants in them.\<close>

definition participant_count :: "server \<Rightarrow> nat" where
  "participant_count sv = sum_list (map (\<lambda>(_, r). length (r_participants r)) (sv_rooms sv))"

definition room_ok :: "string \<Rightarrow> room \<Rightarrow> bool" where
  "room_ok nm r \<longleftrightarrow> r_name r = nm \<and> \<not> r_closed r \<and> r_on_close r \<and> room_inv r"

definition server_inv :: "server \<Rightarrow> bool" where
  "server_inv sv \<longleftrightarrow> keys_distinct (sv_rooms sv)
     \<and> (\<forall>nm r. look (sv_rooms sv) nm = Some r \<longrightarrow> room_ok nm r)
     \<and> mt_room_total (cx_metrics (sv_ctx sv)) = int (length (sv_rooms sv))
     \<and> mt_participant_total (cx_metrics (sv_ctx sv)) = int (participant_count sv)"

section \<open>Lemmas\<close>

lemma emit_immut [simp, immut_simps]:
  "cx_metrics (emit ev cx) = cx_metrics cx"
  "cx_agent (emit ev cx) = cx_agent cx"
  "cx_cluster (emit ev cx) = cx_cluster cx"
  "cx_speakers (emit ev cx) = cx_speakers cx"
  "cx_webhooks (emit ev cx) = cx_webhooks cx @ [ev]"
  by (simp_all add: emit_def)

lemma participant_total_immut [simp, immut_simps]:
  "cx_webhooks (participant_total_dec cx) = cx_webhooks cx"
  "cx_agent (participant_total_dec cx) = cx_agent cx"
  "cx_cluster (participant_total_dec cx) = cx_cluster cx"
  "cx_speakers (participant_total_dec cx) = cx_speakers cx"
  "mt_room_total (cx_metrics (participant_total_dec cx)) = mt_room_total (cx_metrics cx)"
  "mt_participant_total (cx_metrics (participant_total_dec cx)) = mt_participant_total (cx_metrics cx) - 1"
  "cx_webhooks (participant_total_inc cx) = cx_webhooks cx"
  "cx_agent (participant_total_inc cx) = cx_agent cx"
  "cx_cluster (participant_total_inc cx) = cx_cluster cx"
  "cx_speakers (participant_total_inc cx) = cx_speakers cx"
  "mt_room_total (cx_metrics (participant_total_inc cx)) = mt_room_total (cx_metrics cx)"
  "mt_participant_total (cx_metrics (participant_total_inc cx)) = mt_participant_total (cx_metrics cx) + 1"
  by (simp_all add: participant_total_dec_def participant_total_inc_def)

lemma set_state_Disconnected [simp]: "p_state (snd (set_state Disconnected p)) = Disconnected"
  by (cases "p_state p") (simp_all add: set_state_def)

lemma disconnect_participant_simps [simp]:
  "p_sid (disconnect_participant reason p) = p_sid p"
  "p_identity (disconnect_participant reason p) = p_identity p"
  "p_kind (disconnect_participant reason p) = p_kind p"
  "p_state (disconnect_participant reason p) = Disconnected"
  "p_disconnected_reason (disconnect_participant reason p) = reason"
  "p_sent (disconnect_participant reason p) = p_sent p"
  "p_tx (disconnect_participant reason p) = None"
  by (simp_all add: disconnect_participant_def clear_signal_sink_def Let_def)

text \<open>What the sessions of the closed room see of a participant.\<close>

definition torn_down :: "disconnect_reason \<Rightarrow> participant \<Rightarrow> bool" where
  "torn_down reason p \<longleftrightarrow> p_state p = Disconnected \<and> p_disconnected_reason p = reason \<and> p_tx p = None"

lemma close_participant_step:
  assumes "look (r_participants r) sid = Some p"
  obtains r' info q where
    "close_participant reason rp sid (r, cx) = (r', emit (WhParticipantLeft rp info) (participant_total_dec cx))"
    "pi_sid info = p_sid p" "pi_state info = Disconnected"
    "map fst (r_participants r') = map fst (r_participants r)"
    "r_name r' = r_name r" "r_closed r' = r_closed r" "r_on_close r' = r_on_close r"
    "look (r_participants r') sid = Some q" "torn_down reason q" "p_sent q = p_sent p" "p_sid q = p_sid p"
    "\<And>k. k \<noteq> sid \<Longrightarrow> look (r_participants r') k =
       map_option (\<lambda>p. p\<lparr> p_media := drop_subscriber sid (p_media p) \<rparr>) (look (r_participants r) k)"
proof -
  let ?p = "disconnect_participant reason p"
  let ?info = "fst (participant_to_proto ?p)" and ?q = "snd (participant_to_proto ?p)"
  let ?r = "release_subscriber sid (r\<lparr> r_participants := adjust sid (\<lambda>_. ?q) (r_participants r) \<rparr>)"
  have s: "p_send (RespLeave reason) ?p = (False, ?p)" by (rule p_send_no_sink) simp
  have c: "close_participant reason rp sid (r, cx) = (?r, emit (WhParticipantLeft rp ?info) (participant_total_dec cx))"
    using assms by (simp add: close_participant_def s split_def Let_def)
  have d: "p_disconnected_reason ?q = reason" by (simp add: participant_to_proto_def split_def Let_def)
  show thesis
    by (rule that [OF c, where q = "?q\<lparr> p_media := drop_subscriber sid (p_media ?q) \<rparr>"])
      (use assms d in \<open>simp_all add: release_subscriber_def torn_down_def\<close>)
qed

lemma close_participants:
  assumes "distinct sids" "set sids \<subseteq> fst ` set (r_participants r)" "\<forall>k p. look (r_participants r) k = Some p \<longrightarrow> p_sid p = k"
  shows "\<exists>r' infos. fold (close_participant reason rp) sids (r, cx) =
       (r', cx\<lparr> cx_webhooks := cx_webhooks cx @ map (WhParticipantLeft rp) infos,
               cx_metrics := (cx_metrics cx)\<lparr> mt_participant_total := mt_participant_total (cx_metrics cx) - int (length sids) \<rparr> \<rparr>)
     \<and> map pi_sid infos = sids \<and> (\<forall>i \<in> set infos. pi_state i = Disconnected)
     \<and> map fst (r_participants r') = map fst (r_participants r)
     \<and> r_name r' = r_name r \<and> r_closed r' = r_closed r \<and> r_on_close r' = r_on_close r
     \<and> (\<forall>k p. look (r_participants r) k = Some p \<longrightarrow> (\<exists>q. look (r_participants r') k = Some q \<and> p_sid q = k
          \<and> p_sent q = p_sent p \<and> (if k \<in> set sids then torn_down reason q
             else p_state q = p_state p \<and> p_disconnected_reason q = p_disconnected_reason p \<and> p_tx q = p_tx p)))"
  using assms
proof (induction sids arbitrary: r cx)
  case Nil
  then show ?case by simp
next
  case (Cons sid sids)
  obtain p where p: "look (r_participants r) sid = Some p"
    using Cons.prems(2) by (cases "look (r_participants r) sid") (auto simp: look_eq_None)
  obtain r1 info q where 1:
    "close_participant reason rp sid (r, cx) = (r1, emit (WhParticipantLeft rp info) (participant_total_dec cx))"
    "pi_sid info = p_sid p" "pi_state info = Disconnected"
    "map fst (r_participants r1) = map fst (r_participants r)"
    "r_name r1 = r_name r" "r_closed r1 = r_closed r" "r_on_close r1 = r_on_close r"
    "look (r_participants r1) sid = Some q" "torn_down reason q" "p_sent q = p_sent p" "p_sid q = p_sid p"
    and o: "\<And>k. k \<noteq> sid \<Longrightarrow> look (r_participants r1) k =
       map_option (\<lambda>p. p\<lparr> p_media := drop_subscriber sid (p_media p) \<rparr>) (look (r_participants r) k)"
    by (rule close_participant_step [OF p, of reason rp cx]) (rule that)
  let ?cx1 = "emit (WhParticipantLeft rp info) (participant_total_dec cx)"
  have keys: "set sids \<subseteq> fst ` set (r_participants r1)"
    using Cons.prems(2) 1(4) by (metis insert_subset list.set_map list.simps(15))
  have sidp: "p_sid p = sid" using Cons.prems(3) p by blast
  have ids: "\<forall>k p. look (r_participants r1) k = Some p \<longrightarrow> p_sid p = k"
  proof (intro allI impI)
    fix k p' assume "look (r_participants r1) k = Some p'"
    then show "p_sid p' = k" using o [of k] 1(8,11) sidp Cons.prems(3) by (cases "k = sid") auto
  qed
  from Cons.IH [OF _ keys ids, of ?cx1] Cons.prems(1) obtain r' infos where 2:
    "fold (close_participant reason rp) sids (r1, ?cx1) =
       (r', ?cx1\<lparr> cx_webhooks := cx_webhooks ?cx1 @ map (WhParticipantLeft rp) infos,
               cx_metrics := (cx_metrics ?cx1)\<lparr> mt_participant_total := mt_participant_total (cx_metrics ?cx1) - int (length sids) \<rparr> \<rparr>)"
    "map pi_sid infos = sids" "\<forall>i \<in> set infos. pi_state i = Disconnected"
    "map fst (r_participants r') = map fst (r_participants r1)"
    "r_name r' = r_name r1" "r_closed r' = r_closed r1" "r_on_close r' = r_on_close r1"
    and look': "\<forall>k p. look (r_participants r1) k = Some p \<longrightarrow> (\<exists>q. look (r_participants r') k = Some q \<and> p_sid q = k
          \<and> p_sent q = p_sent p \<and> (if k \<in> set sids then torn_down reason q
             else p_state q = p_state p \<and> p_disconnected_reason q = p_disconnected_reason p \<and> p_tx q = p_tx p))"
    by auto
  have "\<exists>q. look (r_participants r') k = Some q \<and> p_sid q = k \<and> p_sent q = p_sent p'
      \<and> (if k \<in> set (sid # sids) then torn_down reason q
         else p_state q = p_state p' \<and> p_disconnected_reason q = p_disconnected_reason p' \<and> p_tx q = p_tx p')"
    if "look (r_participants r) k = Some p'" for k p'
  proof (cases "k = sid")
    case True
    from look' [rule_format, of k q] 1(8-10) Cons.prems(1) True p that show ?thesis
      by (auto simp: torn_down_def)
  next
    case False
    from look' [rule_format, of k] o [OF False] False that show ?thesis by auto
  qed
  with 1 2 sidp show ?case
    by (intro exI [of _ r'] exI [of _ "info # infos"])
      (simp add: emit_def participant_total_dec_def algebra_simps)
qed

lemma room_close_open:
  assumes "members_inv (r_participants r)" "\<not> r_closed r" "rp = room_to_proto (r\<lparr> r_closed := True \<rparr>)"
  obtains gone r' infos cx' where
    "room_close reason (r, cx) = (gone, r', cx')"
    "cx_webhooks cx' = cx_webhooks cx @ map (WhParticipantLeft rp) infos @ [WhRoomFinished rp]"
    "map pi_sid infos = map fst (r_participants r)" "\<forall>i \<in> set infos. pi_state i = Disconnected"
    "mt_participant_total (cx_metrics cx') = mt_participant_total (cx_metrics cx) - int (length (r_participants r))"
    "mt_room_total (cx_metrics cx') = mt_room_total (cx_metrics cx)"
    "cx_agent cx' = terminate_room_jobs (r_name r) (cx_agent cx)"
    "cx_cluster cx' = release_room (r_name r) (cx_cluster cx)" "cx_speakers cx' = cx_speakers cx"
    "r_participants r' = []" "r_closed r'" "r_name r' = r_name r" "r_on_close r' = r_on_close r"
    "map p_sid gone = map fst (r_participants r)" "\<forall>q \<in> set gone. torn_down reason q"
    "\<forall>q \<in> set gone. \<exists>p. look (r_participants r) (p_sid q) = Some p \<and> p_sent q = p_sent p"
proof -
  let ?r = "r\<lparr> r_closed := True \<rparr>"
  let ?cx = "cx\<lparr> cx_agent := terminate_room_jobs (r_name r) (cx_agent cx), cx_cluster := release_room (r_name r) (cx_cluster cx) \<rparr>"
  let ?sids = "map fst (r_participants r)"
  have kd: "distinct ?sids" and ids: "\<forall>k p. look (r_participants ?r) k = Some p \<longrightarrow> p_sid p = k"
    using assms(1) by (auto simp: members_inv_def keys_distinct_def)
  have sub: "set ?sids \<subseteq> fst ` set (r_participants ?r)" by simp
  from close_participants [OF kd sub ids, of reason rp ?cx] obtain r' infos where 1:
    "fold (close_participant reason rp) ?sids (?r, ?cx) =
       (r', ?cx\<lparr> cx_webhooks := cx_webhooks ?cx @ map (WhParticipantLeft rp) infos,
               cx_metrics := (cx_metrics ?cx)\<lparr> mt_participant_total := mt_participant_total (cx_metrics ?cx) - int (length ?sids) \<rparr> \<rparr>)"
    "map pi_sid infos = ?sids" "\<forall>i \<in> set infos. pi_state i = Disconnected"
    "map fst (r_participants r') = map fst (r_participants ?r)"
    "r_name r' = r_name ?r" "r_closed r' = r_closed ?r" "r_on_close r' = r_on_close ?r"
    and l: "\<forall>k p. look (r_participants ?r) k = Some p \<longrightarrow> (\<exists>q. look (r_participants r') k = Some q \<and> p_sid q = k
          \<and> p_sent q = p_sent p \<and> (if k \<in> set ?sids then torn_down reason q
             else p_state q = p_state p \<and> p_disconnected_reason q = p_disconnected_reason p \<and> p_tx q = p_tx p))"
    by blast
  have kd': "keys_distinct (r_participants r')" using kd 1(4) by (simp add: keys_distinct_def)
  have each: "p_sid q = k \<and> torn_down reason q \<and> (\<exists>p. look (r_participants r) k = Some p \<and> p_sent q = p_sent p)"
    if kq: "(k, q) \<in> set (r_participants r')" for k q
  proof -
    have "k \<in> set (map fst (r_participants r'))" using kq by force
    then have "k \<in> set ?sids" using 1(4) by simp
    then obtain p where p: "look (r_participants r) k = Some p"
      by (cases "look (r_participants r) k") (auto simp: look_eq_None)
    moreover have "look (r_participants r') k = Some q" using kq kd' by (simp add: look_Some_iff)
    ultimately show ?thesis using l \<open>k \<in> set ?sids\<close> by fastforce
  qed
  have g: "map p_sid (participants r') = map fst (r_participants r')"
    using each by (auto simp: participants_def comp_def)
  have c: "room_close reason (r, cx) = (participants r', r'\<lparr> r_participants := [] \<rparr>,
      emit (WhRoomFinished rp) (?cx\<lparr> cx_webhooks := cx_webhooks ?cx @ map (WhParticipantLeft rp) infos,
               cx_metrics := (cx_metrics ?cx)\<lparr> mt_participant_total := mt_participant_total (cx_metrics ?cx) - int (length ?sids) \<rparr> \<rparr>))"
    using 1(1) assms(2,3) by (simp add: room_close_def Let_def)
  show thesis
    by (rule that [OF c]) (use 1 each g in \<open>auto simp: participants_def\<close>)
qed

lemma sum_list_del:
  "keys_distinct m \<Longrightarrow> look m k = Some v \<Longrightarrow>
   sum_list (map f m) = f (k, v) + sum_list (map f (del k m) :: nat list)"
proof (induction m)
  case (Cons x m)
  obtain a b where x: "x = (a, b)" by (cases x)
  show ?case
  proof (cases "a = k")
    case True
    then have "look m k = None" using Cons.prems(1) by (simp add: x keys_distinct_def look_eq_None)
    then have "del k m = m" by (force simp: del_filter look_eq_None intro: filter_True)
    then show ?thesis using True Cons.prems(2) by (simp add: x look_def del_def)
  next
    case False
    then show ?thesis using Cons by (simp add: x look_def del_def keys_distinct_def)
  qed
qed (simp add: look_def)

lemma length_del: "keys_distinct m \<Longrightarrow> look m k = Some v \<Longrightarrow> length m = Suc (length (del k m))"
  using sum_list_del [of m k v "\<lambda>_. 1"] by (simp add: sum_list_triv)

lemma del_adjust: "del k (adjust k f m) = del k m"
  by (induction m) (auto simp: del_def)

lemma close_in_server_open:
  assumes "server_inv sv" "get_room nm sv = Some r"
  obtains gone r' cx' infos where
    "close_in_server now reason r sv = (gone, sv\<lparr> sv_rooms := del nm (sv_rooms sv), sv_ctx := cx' \<rparr>)"
    "cx_webhooks cx' = cx_webhooks (sv_ctx sv) @ map (WhParticipantLeft (room_to_proto r)) infos @ [WhRoomFinished (room_to_proto r)]"
    "map pi_sid infos = map fst (r_participants r)"
    "mt_participant_total (cx_metrics cx') = mt_participant_total (cx_metrics (sv_ctx sv)) - int (length (r_participants r))"
    "mt_room_total (cx_metrics cx') = mt_room_total (cx_metrics (sv_ctx sv)) - 1"
    "cx_agent cx' = terminate_room_jobs nm (cx_agent (sv_ctx sv))"
    "cx_cluster cx' = release_room nm (cx_cluster (sv_ctx sv))"
    "map p_sid gone = map fst (r_participants r)" "\<forall>q \<in> set gone. torn_down reason q"
    "\<forall>q \<in> set gone. \<exists>p. look (r_participants r) (p_sid q) = Some p \<and> p_sent q = p_sent p"
proof -
  have ok: "room_ok nm r" using assms by (simp add: server_inv_def get_room_def)
  then have m: "members_inv (r_participants r)" "\<not> r_closed r" "r_name r = nm" "r_on_close r"
    by (simp_all add: room_ok_def room_inv_def)
  have rp: "room_to_proto r = room_to_proto (r\<lparr> r_closed := True \<rparr>)" by (simp add: room_to_proto_def participants_def)
  obtain gone r' infos cx1 where c: "room_close reason (r, sv_ctx sv) = (gone, r', cx1)"
    and p: "cx_webhooks cx1 = cx_webhooks (sv_ctx sv) @ map (WhParticipantLeft (room_to_proto r)) infos @ [WhRoomFinished (room_to_proto r)]"
    "map pi_sid infos = map fst (r_participants r)"
    "mt_participant_total (cx_metrics cx1) = mt_participant_total (cx_metrics (sv_ctx sv)) - int (length (r_participants r))"
    "mt_room_total (cx_metrics cx1) = mt_room_total (cx_metrics (sv_ctx sv))"
    "cx_agent cx1 = terminate_room_jobs (r_name r) (cx_agent (sv_ctx sv))"
    "cx_cluster cx1 = release_room (r_name r) (cx_cluster (sv_ctx sv))"
    "r_name r' = r_name r" "r_on_close r' = r_on_close r"
    "map p_sid gone = map fst (r_participants r)" "\<forall>q \<in> set gone. torn_down reason q"
    "\<forall>q \<in> set gone. \<exists>p. look (r_participants r) (p_sid q) = Some p \<and> p_sent q = p_sent p"
    by (rule room_close_open [OF m(1,2) rp, of reason "sv_ctx sv"]) (rule that)
  show thesis
    by (rule that [where cx' = "sv_ctx (on_room_closed now r' (set_room (r'\<lparr> r_on_close := False \<rparr>) cx1 sv))"])
      (use c p m in \<open>simp_all add: close_in_server_def on_room_closed_def remove_room_def set_room_def Let_def del_adjust\<close>)
qed

lemma server_inv_close:
  assumes "server_inv sv" "get_room nm sv = Some r"
  shows "server_inv (snd (close_in_server now reason r sv))"
proof -
  obtain gone cx' where c: "close_in_server now reason r sv = (gone, sv\<lparr> sv_rooms := del nm (sv_rooms sv), sv_ctx := cx' \<rparr>)"
    and m: "mt_participant_total (cx_metrics cx') = mt_participant_total (cx_metrics (sv_ctx sv)) - int (length (r_participants r))"
      "mt_room_total (cx_metrics cx') = mt_room_total (cx_metrics (sv_ctx sv)) - 1"
    by (rule close_in_server_open [OF assms, of now reason]) (rule that)
  have kd: "keys_distinct (sv_rooms sv)" and r: "look (sv_rooms sv) nm = Some r"
    using assms by (simp_all add: server_inv_def get_room_def)
  have "length (sv_rooms sv) = Suc (length (del nm (sv_rooms sv)))" using kd r by (rule length_del)
  moreover have "participant_count sv = length (r_participants r) + participant_count (sv\<lparr> sv_rooms := del nm (sv_rooms sv), sv_ctx := cx' \<rparr>)"
    using sum_list_del [OF kd r, of "\<lambda>(_, r). length (r_participants r)"] by (simp add: participant_count_def)
  ultimately show ?thesis
    using assms(1) m kd by (auto simp: server_inv_def c participant_count_def)
qed

lemma server_inv_create:
  assumes "server_inv sv"
  shows "server_inv (snd (get_or_create_room draws now nm sv))"
proof (cases "get_room nm sv")
  case None
  then have n: "look (sv_rooms sv) nm = None" by (simp add: get_room_def)
  have "room_ok nm (room_new (sv_config sv) draws now nm\<lparr> r_on_close := True \<rparr>)"
    using room_inv_new [of "sv_config sv" draws now nm]
    by (simp add: room_ok_def room_inv_def has_non_dependent_def participants_def room_new_def)
  then show ?thesis
    using assms n by (simp add: get_or_create_room_def None Let_def server_inv_def participant_count_def put_fresh
        room_new_def) (auto simp: keys_distinct_def look_eq_None look_def map_of_append split: if_splits option.splits)
qed (use assms in \<open>simp add: get_or_create_room_def\<close>)

lemma check_room_spec:
  assumes "server_inv sv"
  shows "server_inv (check_room now nm sv)"
    and "get_room k (check_room now nm sv) =
      (case get_room k sv of Some r \<Rightarrow> if k = nm \<and> should_close now r then None else Some r | None \<Rightarrow> None)"
proof -
  have "server_inv (check_room now nm sv) \<and> get_room k (check_room now nm sv) =
      (case get_room k sv of Some r \<Rightarrow> if k = nm \<and> should_close now r then None else Some r | None \<Rightarrow> None)"
  proof (cases "get_room nm sv")
    case None
    then show ?thesis using assms by (auto simp: check_room_def split: option.splits)
  next
    case (Some r)
    obtain gone cx' where c: "close_in_server now RoomClosed r sv = (gone, sv\<lparr> sv_rooms := del nm (sv_rooms sv), sv_ctx := cx' \<rparr>)"
      by (rule close_in_server_open [OF assms Some, of now RoomClosed]) (rule that)
    have "server_inv (snd (close_in_server now RoomClosed r sv))" using assms Some by (rule server_inv_close)
    then show ?thesis using assms Some c
      by (auto simp: check_room_def get_room_def split: option.splits)
  qed
  then show "server_inv (check_room now nm sv)"
    and "get_room k (check_room now nm sv) =
      (case get_room k sv of Some r \<Rightarrow> if k = nm \<and> should_close now r then None else Some r | None \<Rightarrow> None)"
    by simp_all
qed

lemma check_rooms_spec:
  assumes "server_inv sv"
  shows "server_inv (fold (check_room now) nms sv)
    \<and> get_room k (fold (check_room now) nms sv) =
      (case get_room k sv of Some r \<Rightarrow> if k \<in> set nms \<and> should_close now r then None else Some r | None \<Rightarrow> None)"
  using assms
proof (induction nms arbitrary: sv)
  case Nil
  then show ?case by (simp split: option.splits)
next
  case (Cons nm nms)
  from check_room_spec [OF Cons.prems] Cons.IH show ?case
    by (auto split: option.splits)
qed

section \<open>Properties\<close>

text \<open>C36: closing a room removes it from the registry, disconnects every participant
  with the given reason, and reports one departure per participant, in the order
  of the room, followed by the end of the room; the gauges stay equal to the
  numbers of rooms and participants, the room's jobs are terminated and its
  cluster entry released, and closing it a second time does nothing.\<close>

theorem close_room_reports_everyone:
  assumes "server_inv sv" "get_room nm sv = Some r" "close_in_server now reason r sv = (gone, sv')"
  shows "server_inv sv' \<and> get_room nm sv' = None \<and> (\<forall>k. k \<noteq> nm \<longrightarrow> get_room k sv' = get_room k sv)
    \<and> map p_sid gone = map fst (r_participants r) \<and> (\<forall>q \<in> set gone. torn_down reason q)
    \<and> (\<exists>infos. map pi_sid infos = map fst (r_participants r)
         \<and> cx_webhooks (sv_ctx sv') = cx_webhooks (sv_ctx sv)
            @ map (WhParticipantLeft (room_to_proto r)) infos @ [WhRoomFinished (room_to_proto r)])
    \<and> cx_agent (sv_ctx sv') = terminate_room_jobs nm (cx_agent (sv_ctx sv))
    \<and> cx_cluster (sv_ctx sv') = release_room nm (cx_cluster (sv_ctx sv))
    \<and> close_room later nm reason' sv' = (False, sv')"
proof -
  obtain gone' cx' infos where c:
    "close_in_server now reason r sv = (gone', sv\<lparr> sv_rooms := del nm (sv_rooms sv), sv_ctx := cx' \<rparr>)"
    "cx_webhooks cx' = cx_webhooks (sv_ctx sv) @ map (WhParticipantLeft (room_to_proto r)) infos @ [WhRoomFinished (room_to_proto r)]"
    "map pi_sid infos = map fst (r_participants r)"
    "cx_agent cx' = terminate_room_jobs nm (cx_agent (sv_ctx sv))"
    "cx_cluster cx' = release_room nm (cx_cluster (sv_ctx sv))"
    "map p_sid gone' = map fst (r_participants r)" "\<forall>q \<in> set gone'. torn_down reason q"
    by (rule close_in_server_open [OF assms(1,2), of now reason]) (rule that)
  have "server_inv sv'" using server_inv_close [OF assms(1,2), of now reason] assms(3) by simp
  then show ?thesis using c assms(3) by (auto simp: get_room_def close_room_def)
qed

text \<open>C36 for a server with one empty room.\<close>

theorem close_room_reports_everyone_witness:
  "\<exists>sv' :: server. get_room ''r'' sv' = None \<and> mt_room_total (cx_metrics (sv_ctx sv')) = 0"
proof -
  let ?cl = "\<lparr> cl_bus = mem_bus_new, cl_node_id = ''n1'', cl_enabled = False \<rparr> :: cluster"
  let ?cx = "\<lparr> cx_metrics = metrics_new, cx_webhooks = [], cx_agent = agent_manager_new [], cx_cluster = ?cl,
     cx_speakers = [] \<rparr> :: ctx"
  let ?c = "\<lparr> cf_empty_timeout = 300, cf_departure_timeout = 20, cf_max_participants = 0 \<rparr> :: room_config"
  let ?sv0 = "\<lparr> sv_config = ?c, sv_region = [], sv_codecs = [], sv_keys = [], sv_rooms = [], sv_ctx = ?cx,
     sv_launches = [] \<rparr> :: server"
  have "server_inv ?sv0" by (simp add: server_inv_def metrics_new_def participant_count_def)
  then have inv: "server_inv (snd (get_or_create_room [0] 0 ''r'' ?sv0))" by (rule server_inv_create)
  let ?sv = "snd (get_or_create_room [0] 0 ''r'' ?sv0)"
  obtain r where r: "get_room ''r'' ?sv = Some r"
    by (simp add: get_or_create_room_def get_room_def Let_def)
  obtain gone sv' where c: "close_in_server 5000 RoomDeleted r ?sv = (gone, sv')" by fastforce
  from close_room_reports_everyone [OF inv r c] have 1: "server_inv sv'" "get_room ''r'' sv' = None"
    "\<forall>k. k \<noteq> ''r'' \<longrightarrow> get_room k sv' = get_room k ?sv" by blast+
  have "get_room k sv' = None" for k
    using 1(2,3) by (cases "k = ''r''") (simp_all add: get_or_create_room_def get_room_def Let_def)
  then have "sv_rooms sv' = []" by (cases "sv_rooms sv'") (auto simp: get_room_def look_eq_None)
  then have "mt_room_total (cx_metrics (sv_ctx sv')) = 0" using 1(1) by (simp add: server_inv_def)
  with 1(2) show ?thesis by blast
qed

text \<open>One run of the timeout check removes exactly the rooms whose timeout has
  expired, leaves all other rooms untouched, and keeps the registry and the
  gauges consistent.\<close>

theorem timeout_check_exact:
  assumes "server_inv sv"
  shows "server_inv (check_room_timeouts now sv)
    \<and> (\<forall>nm. get_room nm (check_room_timeouts now sv) =
         (case get_room nm sv of Some r \<Rightarrow> if should_close now r then None else Some r | None \<Rightarrow> None))"
proof -
  have "nm \<in> set (map fst (sv_rooms sv))" if "get_room nm sv = Some r" for nm r
    using look_SomeD [OF that [unfolded get_room_def]] by force
  then show ?thesis
    using check_rooms_spec [OF assms, of now "map fst (sv_rooms sv)"]
    by (auto simp: check_room_timeouts_def split: option.splits)
qed

text \<open>The timeout check for a server without rooms.\<close>

theorem timeout_check_exact_witness:
  "get_room ''r'' (check_room_timeouts 0
     \<lparr> sv_config = \<lparr> cf_empty_timeout = 300, cf_departure_timeout = 20, cf_max_participants = 0 \<rparr>, sv_region = [], sv_codecs = [],
       sv_keys = [], sv_rooms = [], sv_ctx = \<lparr> cx_metrics = metrics_new, cx_webhooks = [], cx_agent = agent_manager_new [],
         cx_cluster = \<lparr> cl_bus = mem_bus_new, cl_node_id = ''n1'', cl_enabled = False \<rparr>, cx_speakers = [] \<rparr>,
       sv_launches = [] \<rparr>) = None"
proof -
  let ?sv = "\<lparr> sv_config = \<lparr> cf_empty_timeout = 300, cf_departure_timeout = 20, cf_max_participants = 0 \<rparr>, sv_region = [], sv_codecs = [],
       sv_keys = [], sv_rooms = [], sv_ctx = \<lparr> cx_metrics = metrics_new, cx_webhooks = [], cx_agent = agent_manager_new [],
         cx_cluster = \<lparr> cl_bus = mem_bus_new, cl_node_id = ''n1'', cl_enabled = False \<rparr>, cx_speakers = [] \<rparr>,
       sv_launches = [] \<rparr> :: server"
  have "server_inv ?sv" by (simp add: server_inv_def metrics_new_def participant_count_def)
  from timeout_check_exact [OF this, of 0] show ?thesis by (simp add: get_room_def)
qed

text \<open>The leave message of a closing room is sent after the participant's channel
  was dropped: no participant receives it.\<close>

theorem room_close_leave_not_delivered:
  assumes "server_inv sv" "get_room nm sv = Some r" "close_in_server now reason r sv = (gone, sv')" "q \<in> set gone"
  shows "\<exists>p. get_participant (p_sid q) r = Some p \<and> p_sent q = p_sent p"
proof -
  obtain gone' sv1 where "close_in_server now reason r sv = (gone', sv1)"
    and "\<forall>q \<in> set gone'. \<exists>p. look (r_participants r) (p_sid q) = Some p \<and> p_sent q = p_sent p"
    by (rule close_in_server_open [OF assms(1,2), of now reason]) (rule that)
  with assms(3,4) show ?thesis by (simp add: get_participant_def)
qed

end
