(* ===== verification/Negotiation.thy ===== *)
theory Negotiation
  imports Participant
begin

text \<open>
  The renegotiation of a subscriber connection (\<open>lk-server/src/media.rs\<close>): changes
  request a negotiation and spawn a task, a task sends an offer unless one is
  unanswered, and an answer starts the next round when changes arrived in
  between.  \<open>m_tasks\<close> holds the force flags of the spawned tasks; the scheduler
  runs them in any order (the lock \<open>negotiating\<close> lets one run at a time).  What
  the webrtc library answers to \<open>create_offer\<close>, \<open>set_local_description\<close> and
  \<open>set_remote_description\<close> is an argument.
\<close>

section \<open>Operations\<close>

definition request_subscriber_negotiation :: "media \<Rightarrow> media" where
  "request_subscriber_negotiation m = m\<lparr> m_needs_negotiation := True, m_tasks := m_tasks m @ [False] \<rparr>"

text \<open>The decision of a task: whether it goes on to make an offer.\<close>

definition negotiation_due :: "bool \<Rightarrow> media \<Rightarrow> bool \<times> media" where
  "negotiation_due force m =
     (if m_answer_pending m then (False, m\<lparr> m_needs_negotiation := True \<rparr>)
      else if \<not> force \<and> \<not> m_needs_negotiation m then (False, m)
      else (True, m\<lparr> m_needs_negotiation := False \<rparr>))"

datatype offer_result = OfferFailed | LocalFailed | OfferMade string attrs

definition subscribe_negotiation :: "offer_result \<Rightarrow> bool \<Rightarrow> participant \<Rightarrow> participant" where
  "subscribe_negotiation res force p =
     (if p_state p = Disconnected then p
      else
        let (due, m) = negotiation_due force (p_media p); p = p\<lparr> p_media := m \<rparr> in
        if \<not> due then p
        else if m_subscriber m = None then p
        else
          (case res of
             OfferFailed \<Rightarrow> p
           | LocalFailed \<Rightarrow> p
           | OfferMade sdp mids \<Rightarrow>
               let offer_id = (if m_offer_seq m \<le> 1 then 1 else m_offer_seq m);
                   m = m\<lparr> m_offer_seq := m_offer_seq m + 1, m_answer_pending := True \<rparr>
               in snd (p_send (RespOffer \<lparr> sd_type = ''offer'', sd_sdp = sdp, sd_id = offer_id, sd_mid_to_track_id = mids \<rparr>)
                    (p\<lparr> p_media := m \<rparr>))))"

text \<open>Running the spawned task number \<open>i\<close>.\<close>

definition run_task :: "offer_result \<Rightarrow> nat \<Rightarrow> participant \<Rightarrow> participant" where
  "run_task res i p =
     (if i < length (m_tasks (p_media p))
      then subscribe_negotiation res (m_tasks (p_media p) ! i)
             (p\<lparr> p_media := (p_media p)\<lparr> m_tasks := take i (m_tasks (p_media p)) @ drop (Suc i) (m_tasks (p_media p)) \<rparr> \<rparr>)
      else p)"

definition handle_subscriber_answer :: "bool \<Rightarrow> participant \<Rightarrow> (string, unit) result \<times> participant" where
  "handle_subscriber_answer remote_ok p =
     (let m = p_media p in
      if m_subscriber m = None then (Inl ''no subscriber pc'', p)
      else if \<not> remote_ok then (Inl ''set subscriber remote description'', p)
      else
        let m = m\<lparr> m_answer_pending := False \<rparr>;
            m = (if m_needs_negotiation m then m\<lparr> m_needs_negotiation := False, m_tasks := m_tasks m @ [True] \<rparr> else m)
        in (Inr (), p\<lparr> p_media := m \<rparr>))"

section \<open>Runs\<close>

text \<open>The events of one participant's negotiation.  The second component tells
  whether the set of subscriptions changed since the last offer was made, the
  third lists the offers and the accepted answers.  The webrtc library accepts an
  answer only to an outstanding offer.\<close>

datatype exchange = Offered | Answered

type_synonym neg_state = "participant \<times> bool \<times> exchange list"

inductive neg_step :: "neg_state \<Rightarrow> neg_state \<Rightarrow> bool" where
  neg_change: "neg_step (p, dirty, tr) (p\<lparr> p_media := request_subscriber_negotiation (p_media p) \<rparr>, True, tr)"
| neg_quiet: "i < length (m_tasks (p_media p)) \<Longrightarrow>
     \<not> fst (negotiation_due (m_tasks (p_media p) ! i) (p_media p)) \<Longrightarrow>
     neg_step (p, dirty, tr) (run_task res i p, dirty, tr)"
| neg_offer: "i < length (m_tasks (p_media p)) \<Longrightarrow>
     fst (negotiation_due (m_tasks (p_media p) ! i) (p_media p)) \<Longrightarrow>
     neg_step (p, dirty, tr) (run_task (OfferMade sdp mids) i p, False, tr @ [Offered])"
| neg_answer: "m_answer_pending (p_media p) \<Longrightarrow>
     neg_step (p, dirty, tr) (snd (handle_subscriber_answer True p), dirty, tr @ [Answered])"

inductive_cases neg_stepE: "neg_step s s'"

fun alternating :: "bool \<Rightarrow> exchange list \<Rightarrow> bool" where
  "alternating pending [] \<longleftrightarrow> \<not> pending"
| "alternating pending [e] \<longleftrightarrow> e = Offered \<and> pending"
| "alternating pending (e # e' # es) \<longleftrightarrow> e = Offered \<and> e' = Answered \<and> alternating pending es"

section \<open>Lemmas\<close>

lemma negotiation_due_simps:
  "m_subscriber (snd (negotiation_due force m)) = m_subscriber m"
  "m_tasks (snd (negotiation_due force m)) = m_tasks m"
  "m_answer_pending (snd (negotiation_due force m)) = m_answer_pending m"
  by (simp_all add: negotiation_due_def)

lemma alternating_offer: "alternating False es \<Longrightarrow> alternating True (es @ [Offered])"
  by (induction "False" es rule: alternating.induct) auto

lemma alternating_answer: "alternating True es \<Longrightarrow> alternating False (es @ [Answered])"
  by (induction "True" es rule: alternating.induct) auto

fun neg_inv :: "neg_state \<Rightarrow> bool" where
  "neg_inv (p, dirty, tr) \<longleftrightarrow>
     p_state p \<noteq> Disconnected \<and> m_subscriber (p_media p) \<noteq> None \<and> alternating (m_answer_pending (p_media p)) tr \<and>
     (dirty \<longrightarrow> True \<in> set (m_tasks (p_media p))
        \<or> (m_needs_negotiation (p_media p) \<and> (m_tasks (p_media p) \<noteq> [] \<or> m_answer_pending (p_media p))))"

lemma set_take_drop_Suc: "i < length xs \<Longrightarrow> x \<in> set xs \<Longrightarrow> x \<noteq> xs ! i \<Longrightarrow> x \<in> set (take i xs @ drop (Suc i) xs)"
  by (metis Un_iff id_take_nth_drop insertE list.simps(15) set_append)

text \<open>A task that goes on sends the offer, one that does not only sets the flag.\<close>

lemma run_task_offer:
  assumes "i < length (m_tasks (p_media p))" "fst (negotiation_due (m_tasks (p_media p) ! i) (p_media p))"
    and "p_state p \<noteq> Disconnected" "m_subscriber (p_media p) \<noteq> None"
  shows "p_state (run_task (OfferMade sdp mids) i p) = p_state p"
    "m_subscriber (p_media (run_task (OfferMade sdp mids) i p)) = m_subscriber (p_media p)"
    "m_answer_pending (p_media (run_task (OfferMade sdp mids) i p))"
    "\<not> m_answer_pending (p_media p)"
  using assms by (auto simp: run_task_def subscribe_negotiation_def negotiation_due_def Let_def split: if_splits)

lemma run_task_quiet:
  assumes "i < length (m_tasks (p_media p))" "\<not> fst (negotiation_due (m_tasks (p_media p) ! i) (p_media p))"
    and "p_state p \<noteq> Disconnected"
  shows "run_task res i p = p\<lparr> p_media := (p_media p)\<lparr>
      m_tasks := take i (m_tasks (p_media p)) @ drop (Suc i) (m_tasks (p_media p)),
      m_needs_negotiation := m_answer_pending (p_media p) \<rparr> \<rparr>"
    "\<not> m_answer_pending (p_media p) \<Longrightarrow> \<not> m_tasks (p_media p) ! i \<and> \<not> m_needs_negotiation (p_media p)"
  using assms by (auto simp: run_task_def subscribe_negotiation_def negotiation_due_def Let_def split: if_splits)

lemma neg_inv_step:
  assumes "neg_step s s'" "neg_inv s"
  shows "neg_inv s'"
  using assms
proof (cases rule: neg_step.cases)
  case (neg_change p dirty tr)
  then show ?thesis using assms(2) by (simp add: request_subscriber_negotiation_def)
next
  case (neg_quiet i p dirty tr res)
  have st: "p_state p \<noteq> Disconnected" using assms(2) by (simp add: neg_quiet)
  note q = run_task_quiet [OF neg_quiet(3,4) st]
  show ?thesis
  proof (cases "m_answer_pending (p_media p)")
    case True
    then show ?thesis using assms(2) by (simp add: neg_quiet q(1))
  next
    case False
    then have f: "\<not> m_tasks (p_media p) ! i" "\<not> m_needs_negotiation (p_media p)" using q(2) by blast+
    have "True \<in> set (take i (m_tasks (p_media p)) @ drop (Suc i) (m_tasks (p_media p)))" if dirty
      using assms(2) that f neg_quiet(3) by (intro set_take_drop_Suc) (auto simp: neg_quiet(1))
    then show ?thesis using assms(2) False by (simp add: neg_quiet q(1))
  qed
next
  case (neg_offer i p dirty tr sdp mids)
  have "p_state p \<noteq> Disconnected" "m_subscriber (p_media p) \<noteq> None"
    using assms(2) by (simp_all add: neg_offer)
  note o = run_task_offer(1-3) [OF neg_offer(3,4) this, of sdp mids] run_task_offer(4) [OF neg_offer(3,4) this]
  then show ?thesis using assms(2) by (simp add: neg_offer(1,2) alternating_offer)
next
  case (neg_answer p dirty tr)
  then show ?thesis using assms(2)
    by (auto simp: handle_subscriber_answer_def Let_def intro: alternating_answer)
qed

lemma neg_inv_reachable: "neg_step\<^sup>*\<^sup>* s s' \<Longrightarrow> neg_inv s \<Longrightarrow> neg_inv s'"
  by (induction rule: rtranclp_induct) (auto intro: neg_inv_step)

section \<open>Properties\<close>



text \<open>An offer that cannot be made loses the change: the flag is cleared before the
  offer is attempted, and no task is left to try again.\<close>

theorem failed_offer_loses_change:
  assumes "p_state p \<noteq> Disconnected" "m_tasks (p_media p) = [False]" "m_needs_negotiation (p_media p)"
    and "\<not> m_answer_pending (p_media p)"
  shows "m_tasks (p_media (run_task OfferFailed 0 p)) = [] \<and> \<not> m_needs_negotiation (p_media (run_task OfferFailed 0 p))"
  using assms by (simp add: run_task_def subscribe_negotiation_def negotiation_due_def Let_def)

text \<open>An offer to a participant without a channel is not sent but still counts as
  unanswered, so that no later task makes an offer until an answer arrives.\<close>

theorem unsent_offer_blocks_negotiation:
  assumes "p_state p \<noteq> Disconnected" "m_tasks (p_media p) = [False]" "m_needs_negotiation (p_media p)"
    and "\<not> m_answer_pending (p_media p)" "m_subscriber (p_media p) \<noteq> None" "p_tx p = None"
  shows "p_sent (run_task (OfferMade sdp mids) 0 p) = p_sent p
    \<and> m_answer_pending (p_media (run_task (OfferMade sdp mids) 0 p))"
  using assms by (simp add: run_task_def subscribe_negotiation_def negotiation_due_def p_send_def Let_def)

end
