(* ===== verification/Subscription.thy ===== *)
theory Subscription
  imports Server Negotiation
begin

text \<open>
  Publishing and subscribing across the participants of a room
  (\<open>lk-server/src/media.rs\<close>: subscriptions, incoming tracks, publisher offers;
  \<open>lk-server/src/signal.rs\<close>: the callbacks of the media plane).  An operation works
  on the room and the shared context; the participants are named by their ids and
  are in the room.  The webrtc library creates the connections it is asked for;
  what it answers to an offer is an argument.
\<close>

section \<open>Access to participants\<close>

definition upd :: "string \<Rightarrow> (participant \<Rightarrow> participant) \<Rightarrow> room \<Rightarrow> room" where
  "upd sid f r = r\<lparr> r_participants := adjust sid f (r_participants r) \<rparr>"

definition upd_media :: "string \<Rightarrow> (media \<Rightarrow> media) \<Rightarrow> room \<Rightarrow> room" where
  "upd_media sid f r = upd sid (\<lambda>p. p\<lparr> p_media := f (p_media p) \<rparr>) r"

definition info_of :: "string \<Rightarrow> room \<Rightarrow> participant_info option \<times> room" where
  "info_of sid r =
     (map_option (\<lambda>p. fst (participant_to_proto p)) (get_participant sid r),
      upd sid (\<lambda>p. snd (participant_to_proto p)) r)"

definition other_sids :: "string \<Rightarrow> room \<Rightarrow> string list" where
  "other_sids sid r = filter (\<lambda>k. k \<noteq> sid) (map fst (r_participants r))"

section \<open>Metrics\<close>

definition subscribed_inc :: "ctx \<Rightarrow> ctx" where
  "subscribed_inc cx =
     (let mt = cx_metrics cx in
      cx\<lparr> cx_metrics := mt\<lparr> mt_track_subscribed := mt_track_subscribed mt + 1,
                            mt_track_subscribe_started := mt_track_subscribe_started mt + 1 \<rparr> \<rparr>)"

definition subscribed_dec :: "ctx \<Rightarrow> ctx" where
  "subscribed_dec cx =
     (let mt = cx_metrics cx in
      cx\<lparr> cx_metrics := mt\<lparr> mt_track_subscribed := mt_track_subscribed mt - 1,
                            mt_track_subscribe_ended := mt_track_subscribe_ended mt + 1 \<rparr> \<rparr>)"

definition published_inc :: "ctx \<Rightarrow> ctx" where
  "published_inc cx =
     (let mt = cx_metrics cx in
      cx\<lparr> cx_metrics := mt\<lparr> mt_track_published := mt_track_published mt + 1,
                            mt_track_publish_started := mt_track_publish_started mt + 1 \<rparr> \<rparr>)"

definition published_dec :: "ctx \<Rightarrow> ctx" where
  "published_dec cx =
     (let mt = cx_metrics cx in
      cx\<lparr> cx_metrics := mt\<lparr> mt_track_published := mt_track_published mt - 1,
                            mt_track_publish_ended := mt_track_publish_ended mt + 1 \<rparr> \<rparr>)"

section \<open>Subscriptions\<close>

definition attach_subscription :: "string \<Rightarrow> string \<Rightarrow> string \<Rightarrow> pc \<Rightarrow> room \<Rightarrow> room" where
  "attach_subscription subscriber tid publisher c r =
     (let (snd_id, c) = pc_add_track tid c;
          r = upd_media subscriber (\<lambda>m. m\<lparr> m_subscriber := Some c,
                m_subscriber_tracks := put tid (''TR'' @ publisher @ ''_'' @ tid) (m_subscriber_tracks m),
                m_subscriber_senders := put tid snd_id (m_subscriber_senders m) \<rparr>) r
      in upd_media publisher (\<lambda>m. m\<lparr> m_forwarders := adjust tid (add_subscriber subscriber snd_id) (m_forwarders m) \<rparr>) r)"

definition forwarder_of :: "string \<Rightarrow> string \<Rightarrow> room \<Rightarrow> forwarder option" where
  "forwarder_of publisher tid r =
     Option.bind (get_participant publisher r) (\<lambda>p. look (m_forwarders (p_media p)) tid)"

definition add_subscription ::
    "string \<Rightarrow> string \<Rightarrow> string \<Rightarrow> room \<times> ctx \<Rightarrow> (string, unit) result \<times> room \<times> ctx" where
  "add_subscription subscriber tid publisher s =
     (let (r, cx) = s; r = upd_media subscriber setup_subscriber r in
      (case forwarder_of publisher tid r of
         None \<Rightarrow> (Inl (''track '' @ tid @ '' has no forwarder yet''), r, cx)
       | Some _ \<Rightarrow>
           (case Option.bind (get_participant subscriber r) (\<lambda>p. m_subscriber (p_media p)) of
              None \<Rightarrow> (Inl ''no subscriber pc'', r, cx)
            | Some c \<Rightarrow>
                (Inr (), upd_media subscriber request_subscriber_negotiation
                   (attach_subscription subscriber tid publisher c r), subscribed_inc cx))))"

definition remove_subscription :: "string \<Rightarrow> string \<Rightarrow> room \<times> ctx \<Rightarrow> room \<times> ctx" where
  "remove_subscription subscriber tid s =
     (let (r, cx) = s;
          r = upd_media subscriber (\<lambda>m.
                let sender = look (m_subscriber_senders m) tid;
                    m = m\<lparr> m_subscriber_tracks := del tid (m_subscriber_tracks m),
                           m_subscriber_senders := del tid (m_subscriber_senders m) \<rparr>
                in (case (sender, m_subscriber m) of
                      (Some snd_id, Some c) \<Rightarrow> m\<lparr> m_subscriber := Some (pc_remove_track snd_id c) \<rparr>
                    | _ \<Rightarrow> m)) r;
          r = map_participants (\<lambda>p. p\<lparr> p_media := (p_media p)\<lparr> m_forwarders :=
                adjust tid (remove_subscriber subscriber) (m_forwarders (p_media p)) \<rparr> \<rparr>) r
      in (upd_media subscriber request_subscriber_negotiation r, subscribed_dec cx))"

section \<open>Tracks\<close>

definition auto_subscribe_step :: "string \<Rightarrow> string \<Rightarrow> string \<Rightarrow> room \<times> ctx \<Rightarrow> room \<times> ctx" where
  "auto_subscribe_step sid tid k s = (case get_participant k (fst s) of None \<Rightarrow> s | Some p \<Rightarrow>
     if pm_can_subscribe (p_permission p) \<and> p_auto_subscribe p then snd (add_subscription k tid sid s) else s)"

definition on_track_published :: "string \<Rightarrow> track \<Rightarrow> room \<times> ctx \<Rightarrow> room \<times> ctx" where
  "on_track_published sid t s =
     (let (r, cx) = s; room_proto = room_to_proto r in
      (case info_of sid r of
         (None, r) \<Rightarrow> (r, cx)
       | (Some info, r) \<Rightarrow>
           let r = broadcast_participant_update [info] (Some sid) r;
               (r, cx) = fold (auto_subscribe_step sid (t_sid t)) (other_sids sid r) (r, cx)
           in (r, emit (WhTrackPublished room_proto info (track_to_proto t)) (published_inc cx))))"

definition on_track_unpublished :: "string \<Rightarrow> string \<Rightarrow> room \<times> ctx \<Rightarrow> room \<times> ctx" where
  "on_track_unpublished sid tid s =
     (let (r, cx) = s in
      (case Option.bind (get_participant sid r) (get_track tid) of
         None \<Rightarrow> (r, cx)
       | Some t \<Rightarrow>
           let r = upd sid (\<lambda>p. snd (remove_track tid p)) r;
               (r, cx) = fold (\<lambda>k. remove_subscription k tid) (other_sids sid r) (r, cx);
               (info, r) = info_of sid r;
               r = (case info of None \<Rightarrow> r | Some i \<Rightarrow> broadcast_participant_update [i] (Some sid) r);
               r = upd sid (\<lambda>p. snd (p_send (RespTrackUnpublished tid) p)) r;
               cx = published_dec cx;
               room_proto = room_to_proto r;
               (info, r) = info_of sid r
           in (r, (case info of None \<Rightarrow> cx | Some i \<Rightarrow> emit (WhTrackUnpublished room_proto i (track_to_proto t)) cx))))"

text \<open>\<open>on_track\<close> for an audio track: the track is matched by the stream id, then by
  the mid map of the offer, or made up; then the forwarder is created.\<close>

definition match_track :: "nat list \<Rightarrow> int \<Rightarrow> string \<Rightarrow> string option \<Rightarrow> participant \<Rightarrow> track \<times> participant" where
  "match_track draws now stream_cid mid p =
     (let cid = (if stream_cid \<noteq> [] then Some stream_cid else Option.bind mid (look (m_publisher_mids (p_media p))));
          made = (\<lambda>c. let t = track_new draws now ''audio'' c Unknown [] in (t, add_track t p))
      in (case cid of
            Some c \<Rightarrow> (case get_track_by_cid c p of Some t \<Rightarrow> (t, p) | None \<Rightarrow> made c)
          | None \<Rightarrow> made []))"

definition receive_track :: "nat list \<Rightarrow> int \<Rightarrow> string \<Rightarrow> string option \<Rightarrow> participant \<Rightarrow> track \<times> participant" where
  "receive_track draws now stream_cid mid p =
     (let (t, p) = match_track draws now stream_cid mid p;
          t = (case mid of None \<Rightarrow> t | Some m \<Rightarrow> track_set_mid (Some m) t);
          t = track_set_mime ''audio/opus'' t;
          p = (set_track t p)\<lparr> p_is_publisher := True \<rparr>;
          f = forwarder_new (t_sid t) (p_sid p) (m_audio_level_ext (p_media p)) (source_str (t_source t))
      in (t, p\<lparr> p_media := (p_media p)\<lparr> m_forwarders := put (t_sid t) f (m_forwarders (p_media p)) \<rparr> \<rparr>))"

definition on_track :: "nat list \<Rightarrow> int \<Rightarrow> string \<Rightarrow> string option \<Rightarrow> string \<Rightarrow> room \<times> ctx \<Rightarrow> room \<times> ctx" where
  "on_track draws now stream_cid mid sid s =
     (let (r, cx) = s in
      (case get_participant sid r of
         None \<Rightarrow> (r, cx)
       | Some p \<Rightarrow>
           on_track_published sid (fst (receive_track draws now stream_cid mid p))
             (upd sid (\<lambda>p. snd (receive_track draws now stream_cid mid p)) r, cx)))"

text \<open>The end of a forwarding loop.\<close>

definition on_track_ended :: "string \<Rightarrow> string \<Rightarrow> room \<times> ctx \<Rightarrow> room \<times> ctx" where
  "on_track_ended sid tid s =
     (let (r, cx) = s in
      on_track_unpublished sid tid (upd_media sid (\<lambda>m. m\<lparr> m_forwarders := del tid (m_forwarders m) \<rparr>) r, cx))"

definition handle_publisher_offer ::
    "(string, string) result \<Rightarrow> session_description \<Rightarrow> participant \<Rightarrow> (string, session_description) result \<times> participant" where
  "handle_publisher_offer webrtc_answer offer p =
     (let p = p\<lparr> p_media := (ensure_publisher (p_media p))\<lparr> m_publisher_mids := sd_mid_to_track_id offer,
                   m_audio_level_ext := audio_level_ext_id_from_sdp (sd_sdp offer) \<rparr> \<rparr>
      in (case webrtc_answer of
            Inl e \<Rightarrow> (Inl e, p)
          | Inr sdp \<Rightarrow> (Inr \<lparr> sd_type = ''answer'', sd_sdp = sdp, sd_id = sd_id offer, sd_mid_to_track_id = [] \<rparr>, p)))"

text \<open>The first time the media connection is up.\<close>

definition on_ice_connected :: "string \<Rightarrow> room \<Rightarrow> room" where
  "on_ice_connected sid r =
     (case get_participant sid r of
        None \<Rightarrow> r
      | Some p \<Rightarrow>
          (case set_state Active p of
             (False, _) \<Rightarrow> r
           | (True, _) \<Rightarrow>
               (case info_of sid (upd sid (\<lambda>p. snd (set_state Active p)) r) of
                  (None, r) \<Rightarrow> r
                | (Some info, r) \<Rightarrow> broadcast_participant_update [info] (Some sid) r)))"

section \<open>Data\<close>

definition outgoing_packet :: "participant \<Rightarrow> bool \<Rightarrow> data_packet \<Rightarrow> data_packet" where
  "outgoing_packet p lossy packet =
     (let out = packet\<lparr> dp_kind := (if lossy then 1 else 0) \<rparr> in
      if pm_hidden (p_permission p) then out\<lparr> dp_identity := [], dp_sid := [] \<rparr>
      else out\<lparr> dp_identity := (if dp_identity out = [] then p_identity p else dp_identity out),
                dp_sid := (if dp_sid out = [] then p_sid p else dp_sid out) \<rparr>)"

definition packet_reaches :: "string \<Rightarrow> data_packet \<Rightarrow> participant \<Rightarrow> bool" where
  "packet_reaches sender out q \<longleftrightarrow>
     (let dest_sids = (case dp_value out of UserPacket _ sids \<Rightarrow> sids | OtherPacket _ \<Rightarrow> []);
          broadcast = (dp_dest_identities out = [] \<and> dest_sids = [])
      in p_sid q \<noteq> sender \<and> (broadcast \<or> p_identity q \<in> set (dp_dest_identities out) \<or> p_sid q \<in> set dest_sids))"

definition handle_incoming_data :: "(8 word list \<Rightarrow> data_packet option) \<Rightarrow> string \<Rightarrow> 8 word list \<Rightarrow> bool \<Rightarrow> room \<Rightarrow> room" where
  "handle_incoming_data decode sid data lossy r =
     (case decode data of
        None \<Rightarrow> r
      | Some packet \<Rightarrow>
          (case get_participant sid r of
             None \<Rightarrow> r
           | Some p \<Rightarrow>
               if \<not> pm_can_publish_data (p_permission p) then r
               else
                 let out = outgoing_packet p lossy packet in
                 map_participants (\<lambda>q. if packet_reaches sid out q
                    then q\<lparr> p_media := send_data out (p_media q) \<rparr> else q) r))"

section \<open>Invariant\<close>

text \<open>A forwarder has a participant among its subscribers only while that
  participant is in the room and holds a sender for the track.\<close>

definition sender_of :: "string \<Rightarrow> string \<Rightarrow> room \<Rightarrow> nat option" where
  "sender_of sid tid r = Option.bind (get_participant sid r) (\<lambda>p. look (m_subscriber_senders (p_media p)) tid)"

definition subs_inv :: "room \<Rightarrow> bool" where
  "subs_inv r \<longleftrightarrow> (\<forall>publisher tid f sid. forwarder_of publisher tid r = Some f \<longrightarrow>
      look (f_subscribers f) sid \<noteq> None \<longrightarrow> sender_of sid tid r \<noteq> None)"

text \<open>Whom a new track is subscribed for without a request.\<close>

definition auto_subscribes :: "string \<Rightarrow> room \<Rightarrow> bool" where
  "auto_subscribes k r \<longleftrightarrow> (case get_participant k r of
     None \<Rightarrow> False | Some p \<Rightarrow> pm_can_subscribe (p_permission p) \<and> p_auto_subscribe p)"

section \<open>A sample room\<close>

definition sample_ctx :: ctx where
  "sample_ctx = \<lparr> cx_metrics = metrics_new, cx_webhooks = [], cx_agent = agent_manager_new [],
     cx_cluster = \<lparr> cl_bus = mem_bus_new, cl_node_id = ''n1'', cl_enabled = False \<rparr>, cx_speakers = [] \<rparr>"

definition sample_participant :: "string \<Rightarrow> string \<Rightarrow> participant" where
  "sample_participant sid identity =
     (participant_new [2] 0 identity [] [] Standard)\<lparr> p_sid := sid,
       p_permission := permission_default\<lparr> pm_can_subscribe := True, pm_can_publish := True, pm_can_publish_data := True \<rparr>,
       p_media := media_default\<lparr> m_reliable := Some [] \<rparr> \<rparr>"

definition sample_room :: room where
  "sample_room =
     (room_new \<lparr> cf_empty_timeout = 300, cf_departure_timeout = 20, cf_max_participants = 0 \<rparr> [0] 0 ''r'')
       \<lparr> r_participants :=
           [(''PA_a'', (sample_participant ''PA_a'' ''ann'')
               \<lparr> p_media := media_default\<lparr> m_forwarders := [(''TR_1'', forwarder_new ''TR_1'' ''PA_a'' None ''MICROPHONE'')] \<rparr> \<rparr>),
            (''PA_b'', sample_participant ''PA_b'' ''bob'')],
         r_ever_joined := True, r_empty_since := None, r_on_close := True \<rparr>"

section \<open>Lemmas\<close>

lemma get_participant_upd [simp]:
  "get_participant k (upd sid f r) = (if k = sid then map_option f (get_participant k r) else get_participant k r)"
  by (simp add: get_participant_def upd_def)

lemma get_participant_upd_media [simp]:
  "get_participant k (upd_media sid f r) =
     (if k = sid then map_option (\<lambda>p. p\<lparr> p_media := f (p_media p) \<rparr>) (get_participant k r) else get_participant k r)"
  by (simp add: upd_media_def)

lemma get_participant_map [simp]: "get_participant k (map_participants f r) = map_option f (get_participant k r)"
  by (simp add: get_participant_def)

lemma upd_immut [simp, immut_simps]:
  "r_name (upd sid f r) = r_name r" "r_closed (upd sid f r) = r_closed r" "r_on_close (upd sid f r) = r_on_close r"
  "r_name (upd_media sid g r) = r_name r" "r_closed (upd_media sid g r) = r_closed r"
  "r_on_close (upd_media sid g r) = r_on_close r"
  "map fst (r_participants (upd sid f r)) = map fst (r_participants r)"
  "map fst (r_participants (upd_media sid g r)) = map fst (r_participants r)"
  by (simp_all add: upd_def upd_media_def)

lemma setup_subscriber_simps [simp]:
  "m_forwarders (setup_subscriber m) = m_forwarders m"
  "m_subscriber_senders (setup_subscriber m) = m_subscriber_senders m"
  "m_subscriber (setup_subscriber m) \<noteq> None"
  by (simp_all add: setup_subscriber_def take_pending_def commit_subscriber_def split: option.splits)

lemma request_negotiation_simps [simp]:
  "m_forwarders (request_subscriber_negotiation m) = m_forwarders m"
  "m_subscriber_senders (request_subscriber_negotiation m) = m_subscriber_senders m"
  "m_subscriber (request_subscriber_negotiation m) = m_subscriber m"
  by (simp_all add: request_subscriber_negotiation_def)

text \<open>Forwarders and senders of a room whose participants keep theirs.\<close>

definition keeps_routes :: "(participant \<Rightarrow> participant) \<Rightarrow> bool" where
  "keeps_routes f \<longleftrightarrow> (\<forall>p. m_forwarders (p_media (f p)) = m_forwarders (p_media p)
     \<and> m_subscriber_senders (p_media (f p)) = m_subscriber_senders (p_media p))"

lemma routes_upd [simp]:
  assumes "keeps_routes g"
  shows "forwarder_of k tid (upd sid g r) = forwarder_of k tid r" "sender_of k tid (upd sid g r) = sender_of k tid r"
proof -
  have g: "m_forwarders (p_media (g p)) = m_forwarders (p_media p)"
    "m_subscriber_senders (p_media (g p)) = m_subscriber_senders (p_media p)" for p
    using assms by (simp_all add: keeps_routes_def)
  show "forwarder_of k tid (upd sid g r) = forwarder_of k tid r" "sender_of k tid (upd sid g r) = sender_of k tid r"
    unfolding forwarder_of_def sender_of_def get_participant_upd
    by (cases "k = sid"; cases "get_participant k r"; simp add: g)+
qed

lemma routes_map [simp]:
  "keeps_routes g \<Longrightarrow> forwarder_of k tid (map_participants g r) = forwarder_of k tid r"
  "keeps_routes g \<Longrightarrow> sender_of k tid (map_participants g r) = sender_of k tid r"
  by (cases "get_participant k r"; simp add: forwarder_of_def sender_of_def keeps_routes_def)+

lemma keeps_routes_media:
  "(\<And>p. p_media (f p) = p_media p) \<Longrightarrow> keeps_routes f"
  "(\<And>m. m_forwarders (g m) = m_forwarders m \<and> m_subscriber_senders (g m) = m_subscriber_senders m) \<Longrightarrow>
     keeps_routes (\<lambda>p. p\<lparr> p_media := g (p_media p) \<rparr>)"
  by (simp_all add: keeps_routes_def)

lemma routes_broadcast [simp]:
  "forwarder_of k tid (broadcast_participant_update infos ex r) = forwarder_of k tid r"
  "sender_of k tid (broadcast_participant_update infos ex r) = sender_of k tid r"
  by (simp_all add: broadcast_participant_update_def Let_def keeps_routes_media)

lemma routes_info [simp]:
  "forwarder_of k tid (snd (info_of sid r)) = forwarder_of k tid r"
  "sender_of k tid (snd (info_of sid r)) = sender_of k tid r"
  by (cases "get_participant sid r"; cases "k = sid"; simp add: info_of_def forwarder_of_def sender_of_def split_def Let_def)+

lemma get_participant_info:
  "get_participant k (snd (info_of sid r)) =
     (if k = sid then map_option (snd \<circ> participant_to_proto) (get_participant k r) else get_participant k r)"
  by (cases "get_participant sid r") (auto simp: info_of_def split_def Let_def)

lemma subs_inv_routes:
  assumes "\<And>k tid. forwarder_of k tid r' = forwarder_of k tid r" "\<And>k tid. sender_of k tid r' = sender_of k tid r"
  shows "subs_inv r' = subs_inv r"
  using assms by (simp add: subs_inv_def)

subsection \<open>Effect on forwarders and senders\<close>

lemma attach_routes:
  assumes "get_participant subscriber r = Some p" "get_participant publisher r = Some q"
  shows "forwarder_of k t (attach_subscription subscriber tid publisher c r) =
      (if k = publisher \<and> t = tid then map_option (add_subscriber subscriber (pc_next c)) (forwarder_of k t r)
       else forwarder_of k t r)"
    and "sender_of k t (attach_subscription subscriber tid publisher c r) =
      (if k = subscriber \<and> t = tid then Some (pc_next c) else sender_of k t r)"
  using assms
  by (cases "k = subscriber"; cases "k = publisher";
      simp add: attach_subscription_def pc_add_track_def forwarder_of_def sender_of_def Let_def)+

lemma upd_media_setup_routes:
  "forwarder_of k t (upd_media sid setup_subscriber r) = forwarder_of k t r"
  "sender_of k t (upd_media sid setup_subscriber r) = sender_of k t r"
  "forwarder_of k t (upd_media sid request_subscriber_negotiation r) = forwarder_of k t r"
  "sender_of k t (upd_media sid request_subscriber_negotiation r) = sender_of k t r"
  unfolding upd_media_def by (simp_all add: keeps_routes_media)

lemma add_subscription_None:
  assumes "forwarder_of publisher tid r = None"
  shows "add_subscription subscriber tid publisher (r, cx) =
     (Inl (''track '' @ tid @ '' has no forwarder yet''), upd_media subscriber setup_subscriber r, cx)"
  using assms by (simp add: add_subscription_def upd_media_setup_routes Let_def)

lemma add_subscription_Some:
  assumes "forwarder_of publisher tid r = Some f" "get_participant subscriber r = Some p"
    and "m_subscriber (setup_subscriber (p_media p)) = Some c"
  shows "add_subscription subscriber tid publisher (r, cx) =
     (Inr (), upd_media subscriber request_subscriber_negotiation
        (attach_subscription subscriber tid publisher c (upd_media subscriber setup_subscriber r)), subscribed_inc cx)"
  using assms by (simp add: add_subscription_def upd_media_setup_routes Let_def)

lemma forwarder_of_SomeD: "forwarder_of publisher tid r = Some f \<Longrightarrow> \<exists>q. get_participant publisher r = Some q"
  by (cases "get_participant publisher r") (simp_all add: forwarder_of_def)

lemma add_subscription_routes:
  assumes "get_participant subscriber r = Some p" "add_subscription subscriber tid publisher (r, cx) = (res, r', cx')"
  obtains n where
    "\<And>k t. forwarder_of k t r' = (if k = publisher \<and> t = tid
        then map_option (add_subscriber subscriber n) (forwarder_of k t r) else forwarder_of k t r)"
    "\<And>k t. sender_of k t r' = (if k = subscriber \<and> t = tid \<and> forwarder_of publisher tid r \<noteq> None
        then Some n else sender_of k t r)"
    "res = Inr () \<longleftrightarrow> forwarder_of publisher tid r \<noteq> None"
proof (cases "forwarder_of publisher tid r")
  case None
  then show ?thesis
    using assms(2) that [of 0] by (auto simp: add_subscription_None upd_media_setup_routes)
next
  case (Some f)
  obtain c where c: "m_subscriber (setup_subscriber (p_media p)) = Some c"
    using setup_subscriber_simps(3) [of "p_media p"] by blast
  let ?r1 = "upd_media subscriber setup_subscriber r"
  obtain q where q: "get_participant publisher ?r1 = Some q"
    using forwarder_of_SomeD [OF Some] by (cases "publisher = subscriber") auto
  have "get_participant subscriber ?r1 = Some (p\<lparr> p_media := setup_subscriber (p_media p) \<rparr>)"
    using assms(1) by simp
  note a = attach_routes [OF this q]
  show ?thesis
    using assms(2) add_subscription_Some [OF Some assms(1) c] Some
    by (intro that [of "pc_next c"]) (auto simp: upd_media_setup_routes a)
qed

lemma subs_inv_add:
  assumes "subs_inv r" "get_participant subscriber r = Some p"
  shows "subs_inv (fst (snd (add_subscription subscriber tid publisher (r, cx))))"
proof -
  obtain res r' cx' where a: "add_subscription subscriber tid publisher (r, cx) = (res, r', cx')" by (metis prod_cases3)
  obtain n where f: "\<And>k t. forwarder_of k t r' = (if k = publisher \<and> t = tid
        then map_option (add_subscriber subscriber n) (forwarder_of k t r) else forwarder_of k t r)"
    and s: "\<And>k t. sender_of k t r' = (if k = subscriber \<and> t = tid \<and> forwarder_of publisher tid r \<noteq> None
        then Some n else sender_of k t r)"
    by (rule add_subscription_routes [OF assms(2) a]) (rule that)
  show ?thesis unfolding a fst_conv snd_conv subs_inv_def
  proof (intro allI impI)
    fix k t fw sid assume fw: "forwarder_of k t r' = Some fw" "look (f_subscribers fw) sid \<noteq> None"
    show "sender_of sid t r' \<noteq> None"
    proof (cases "k = publisher \<and> t = tid")
      case True
      then obtain f0 where f0: "forwarder_of k t r = Some f0" "fw = add_subscriber subscriber n f0"
        using fw(1) by (auto simp: f)
      then show ?thesis using True fw(2) assms(1) by (cases "sid = subscriber") (auto simp: s subs_inv_def)
    next
      case False
      then have "forwarder_of k t r = Some fw" using fw(1) by (simp add: f split: if_splits)
      then have "sender_of sid t r \<noteq> None" using assms(1) fw(2) unfolding subs_inv_def by blast
      then show ?thesis by (auto simp: s)
    qed
  qed
qed

lemma remove_subscription_routes:
  "forwarder_of k t (fst (remove_subscription subscriber tid (r, cx))) =
     (if t = tid then map_option (remove_subscriber subscriber) (forwarder_of k t r) else forwarder_of k t r)"
  "sender_of k t (fst (remove_subscription subscriber tid (r, cx))) =
     (if k = subscriber \<and> t = tid then None else sender_of k t r)"
  by (cases "get_participant k r"; auto simp: remove_subscription_def forwarder_of_def sender_of_def Let_def
      split: option.splits)+

lemma subs_inv_remove:
  assumes "subs_inv r"
  shows "subs_inv (fst (remove_subscription subscriber tid (r, cx)))"
  unfolding subs_inv_def
proof (intro allI impI)
  fix k t fw sid
  assume fw: "forwarder_of k t (fst (remove_subscription subscriber tid (r, cx))) = Some fw" "look (f_subscribers fw) sid \<noteq> None"
  then obtain f0 where f0: "forwarder_of k t r = Some f0" "look (f_subscribers f0) sid \<noteq> None" "t = tid \<longrightarrow> sid \<noteq> subscriber"
    by (auto simp: remove_subscription_routes split: if_splits)
  then have "sender_of sid t r \<noteq> None" using assms unfolding subs_inv_def by blast
  then show "sender_of sid t (fst (remove_subscription subscriber tid (r, cx))) \<noteq> None"
    using f0(3) by (auto simp: remove_subscription_routes)
qed

subsection \<open>Operations that change neither membership nor gauges\<close>

definition member_key :: "participant \<Rightarrow> string \<times> string \<times> participant_kind" where
  "member_key p = (p_sid p, p_identity p, p_kind p)"

definition same_room :: "room \<Rightarrow> room \<Rightarrow> bool" where
  "same_room r r' \<longleftrightarrow> r_name r' = r_name r \<and> r_closed r' = r_closed r \<and> r_on_close r' = r_on_close r
     \<and> r_empty_since r' = r_empty_since r \<and> r_ever_joined r' = r_ever_joined r
     \<and> map (\<lambda>(k, p). (k, member_key p)) (r_participants r') = map (\<lambda>(k, p). (k, member_key p)) (r_participants r)"

definition totals :: "ctx \<Rightarrow> int \<times> int" where
  "totals cx = (mt_room_total (cx_metrics cx), mt_participant_total (cx_metrics cx))"

definition quiet :: "room \<times> ctx \<Rightarrow> room \<times> ctx \<Rightarrow> bool" where
  "quiet s s' \<longleftrightarrow> same_room (fst s) (fst s') \<and> totals (snd s') = totals (snd s)
     \<and> (subs_inv (fst s) \<longrightarrow> subs_inv (fst s'))"

lemma quiet_refl [simp]: "quiet s s"
  by (simp add: quiet_def same_room_def)

lemma quiet_trans: "quiet s s' \<Longrightarrow> quiet s' s'' \<Longrightarrow> quiet s s''"
  by (simp add: quiet_def same_room_def)

lemma quiet_fold: "(\<And>x s. quiet s (f x s)) \<Longrightarrow> quiet s (fold f xs s)"
proof (induction xs arbitrary: s)
  case (Cons x xs)
  show ?case using quiet_trans [OF Cons.prems Cons.IH [OF Cons.prems]] by simp
qed simp

lemma keeps_member_key: "keeps_identity f \<longleftrightarrow> (\<forall>p. member_key (f p) = member_key p)"
  by (auto simp: keeps_identity_def member_key_def)

lemma same_room_map: "keeps_identity f \<Longrightarrow> same_room r (map_participants f r)"
  by (simp add: same_room_def map_participants_def keeps_member_key split_def)

lemma same_room_upd: "keeps_identity f \<Longrightarrow> same_room r (upd sid f r)"
  by (simp add: same_room_def upd_def adjust_def keeps_member_key split_def)

lemma same_room_upd_media: "same_room r (upd_media sid g r)"
  unfolding upd_media_def by (rule same_room_upd) (simp add: keeps_identity_def)

lemma same_room_trans: "same_room r r' \<Longrightarrow> same_room r' r'' \<Longrightarrow> same_room r r''"
  by (simp add: same_room_def)

lemma same_room_then:
  "same_room r r"
  "same_room r r' \<Longrightarrow> same_room r (upd_media sid g r')"
  "keeps_identity f \<Longrightarrow> same_room r r' \<Longrightarrow> same_room r (upd sid f r')"
  "keeps_identity f \<Longrightarrow> same_room r r' \<Longrightarrow> same_room r (map_participants f r')"
  using same_room_trans same_room_upd_media same_room_upd same_room_map by (simp add: same_room_def, blast+)

lemma same_room_fst: "same_room r r' \<Longrightarrow> map fst (r_participants r') = map fst (r_participants r)"
proof -
  have k: "map fst ps = map fst (map (\<lambda>(k, p). (k, member_key p)) ps)" for ps :: "(string, participant) assoc"
    by (induction ps) auto
  assume "same_room r r'"
  then show ?thesis unfolding k [of "r_participants r"] k [of "r_participants r'"] by (simp only: same_room_def)
qed

lemma same_room_look:
  assumes "same_room r r'"
  shows "map_option member_key (look (r_participants r') k) = map_option member_key (look (r_participants r) k)"
proof -
  have "map_option member_key (look ps k) = map_of (map (\<lambda>(k, p). (k, member_key p)) ps) k" for ps
    by (simp add: look_def map_of_map)
  then show ?thesis using assms by (simp add: same_room_def)
qed

lemma same_room_inv:
  assumes "same_room r r'" "room_inv r"
  shows "room_inv r'"
proof -
  have keys: "keys_distinct (r_participants r') = keys_distinct (r_participants r)"
    using same_room_fst [OF assms(1)] by (simp add: keys_distinct_def)
  have kd: "keys_distinct (r_participants r)" using assms(2) by (simp add: room_inv_def members_inv_def)
  have mk: "\<exists>q. look (r_participants r) k = Some q \<and> member_key q = member_key p" if "look (r_participants r') k = Some p" for k p
    using same_room_look [OF assms(1), of k] that by (cases "look (r_participants r) k") auto
  have mk': "\<exists>q. look (r_participants r') k = Some q \<and> member_key q = member_key p" if "look (r_participants r) k = Some p" for k p
    using same_room_look [OF assms(1), of k] that by (cases "look (r_participants r') k") auto
  have "members_inv (r_participants r')"
    unfolding members_inv_def
  proof (intro conjI allI impI)
    show "keys_distinct (r_participants r')" using keys kd by simp
    fix k p assume "look (r_participants r') k = Some p"
    from mk [OF this] show "p_sid p = k" using assms(2) by (auto simp: room_inv_def members_inv_def member_key_def)
  next
    fix k l p q assume "look (r_participants r') k = Some p" "look (r_participants r') l = Some q" "p_identity p = p_identity q"
    then show "k = l" using mk assms(2) unfolding room_inv_def members_inv_def member_key_def by (metis prod.inject)
  qed
  moreover have "has_non_dependent r' = has_non_dependent r"
  proof -
    have "(\<exists>k p. look (r_participants r') k = Some p \<and> P (member_key p)) \<longleftrightarrow>
        (\<exists>k p. look (r_participants r) k = Some p \<and> P (member_key p))" for P
      using mk mk' by metis
    from this [of "\<lambda>(_, _, k). \<not> is_dependent k"] show ?thesis
      using kd keys by (simp add: has_non_dependent_look member_key_def)
  qed
  ultimately show ?thesis using assms by (auto simp: room_inv_def same_room_def)
qed

lemma same_room_broadcast: "same_room r (broadcast_participant_update infos ex r)"
  unfolding broadcast_participant_update_def Let_def by (rule same_room_map) (simp add: keeps_identity_def)

lemma same_room_info: "same_room r (snd (info_of sid r))"
  unfolding info_of_def snd_conv by (rule same_room_upd) (simp add: keeps_identity_def)

lemma subs_inv_info_broadcast [simp]:
  "subs_inv (broadcast_participant_update infos ex r) = subs_inv r"
  "subs_inv (snd (info_of sid r)) = subs_inv r"
  by (rule subs_inv_routes; simp)+

lemma totals_simps [simp]:
  "totals (subscribed_inc cx) = totals cx" "totals (subscribed_dec cx) = totals cx"
  "totals (published_inc cx) = totals cx" "totals (published_dec cx) = totals cx"
  "totals (emit e cx) = totals cx"
  by (simp_all add: totals_def subscribed_inc_def subscribed_dec_def published_inc_def published_dec_def emit_def Let_def)

lemma quiet_upd:
  assumes "keeps_identity f" "keeps_routes f"
  shows "quiet (r, cx) (upd sid f r, cx)" "quiet (r, cx) (map_participants f r, cx)"
proof -
  have "subs_inv (upd sid f r) = subs_inv r" "subs_inv (map_participants f r) = subs_inv r"
    by (rule subs_inv_routes; simp add: assms)+
  then show "quiet (r, cx) (upd sid f r, cx)" "quiet (r, cx) (map_participants f r, cx)"
    using assms by (simp_all add: quiet_def same_room_upd same_room_map)
qed

lemma quiet_broadcast: "quiet (r, cx) (broadcast_participant_update infos ex r, cx)"
  by (simp add: quiet_def same_room_broadcast)

lemma quiet_info: "quiet (r, cx) (snd (info_of sid r), cx)"
  by (simp add: quiet_def same_room_info)

lemma quiet_ctx: "totals cx' = totals cx \<Longrightarrow> quiet (r, cx) (r, cx')"
  by (simp add: quiet_def same_room_def)

lemma same_room_attach:
  "same_room r (upd_media k f (attach_subscription subscriber tid publisher c (upd_media l g r)))"
  unfolding attach_subscription_def Let_def split_def
  by (intro same_room_then)

lemma quiet_add: "quiet s (snd (add_subscription subscriber tid publisher s))"
proof (cases s)
  case s: (Pair r cx)
  show ?thesis
  proof (cases "get_participant subscriber r")
    case None
    then have "quiet (r, cx) (upd_media subscriber setup_subscriber r, cx)"
      unfolding upd_media_def by (intro quiet_upd keeps_routes_media) (simp_all add: keeps_identity_def)
    with None show ?thesis by (auto simp: s add_subscription_def Let_def split: option.splits)
  next
    case (Some p)
    have "same_room r (fst (snd (add_subscription subscriber tid publisher (r, cx))))"
      using same_room_attach by (simp add: add_subscription_def Let_def same_room_upd_media split: option.splits)
    moreover have "totals (snd (snd (add_subscription subscriber tid publisher (r, cx)))) = totals cx"
      by (simp add: add_subscription_def Let_def split: option.splits)
    ultimately show ?thesis using subs_inv_add [OF _ Some] by (simp add: quiet_def s)
  qed
qed

lemma quiet_remove: "quiet s (remove_subscription subscriber tid s)"
proof (cases s)
  case s: (Pair r cx)
  have "same_room r (fst (remove_subscription subscriber tid (r, cx)))"
    unfolding remove_subscription_def Let_def prod.case fst_conv
    by (intro same_room_then) (simp add: keeps_identity_def)
  then show ?thesis using subs_inv_remove by (simp add: quiet_def s) (simp add: remove_subscription_def Let_def)
qed

lemma quiet_then:
  "quiet s (r, cx) \<Longrightarrow> quiet s (broadcast_participant_update infos ex r, cx)"
  "quiet s (r, cx) \<Longrightarrow> quiet s (snd (info_of sid r), cx)"
  "quiet s (r, cx) \<Longrightarrow> quiet s (r, emit e cx)"
  "quiet s (r, cx) \<Longrightarrow> quiet s (r, published_inc cx)"
  "quiet s (r, cx) \<Longrightarrow> quiet s (r, published_dec cx)"
  "keeps_identity f \<Longrightarrow> keeps_routes f \<Longrightarrow> quiet s (r, cx) \<Longrightarrow> quiet s (upd sid f r, cx)"
  by (erule quiet_trans, simp add: quiet_broadcast quiet_info quiet_ctx)+
    (erule quiet_trans, erule quiet_upd(1), assumption)

lemma quiet_on_track_published: "quiet s (on_track_published sid t s)"
proof (cases s)
  case s: (Pair r cx)
  obtain oi r1 where i: "info_of sid r = (oi, r1)" by fastforce
  then have q1: "quiet (r, cx) (r1, cx)" using quiet_info [of r cx sid] by simp
  show ?thesis
  proof (cases oi)
    case None
    then show ?thesis using q1 i by (simp add: s on_track_published_def Let_def)
  next
    case (Some info)
    let ?r2 = "broadcast_participant_update [info] (Some sid) r1"
    obtain r3 cx3 where f: "fold (auto_subscribe_step sid (t_sid t)) (other_sids sid ?r2) (?r2, cx) = (r3, cx3)" by fastforce
    have "quiet (?r2, cx) (r3, cx3)"
      unfolding f [symmetric] by (rule quiet_fold) (simp add: quiet_add auto_subscribe_step_def split: option.split)
    then have "quiet (r, cx) (r3, cx3)" using q1 by (blast intro: quiet_trans quiet_then)
    then show ?thesis using Some i f by (auto simp: s on_track_published_def Let_def intro: quiet_then)
  qed
qed

lemma quiet_on_track_unpublished: "quiet s (on_track_unpublished sid tid s)"
proof (cases s)
  case s: (Pair r cx)
  show ?thesis
  proof (cases "Option.bind (get_participant sid r) (get_track tid)")
    case (Some t)
    let ?r1 = "upd sid (\<lambda>p. snd (remove_track tid p)) r"
    obtain r2 cx2 where f: "fold (\<lambda>k. remove_subscription k tid) (other_sids sid ?r1) (?r1, cx) = (r2, cx2)" by fastforce
    have "quiet (r, cx) (?r1, cx)"
      by (rule quiet_upd) (simp_all add: keeps_identity_def keeps_routes_def remove_track_def Let_def split: option.splits)
    moreover have "quiet (?r1, cx) (r2, cx2)"
      unfolding f [symmetric] by (rule quiet_fold) (rule quiet_remove)
    ultimately have q: "quiet (r, cx) (r2, cx2)" by (rule quiet_trans)
    have send: "keeps_identity (\<lambda>p. snd (p_send m p))" "keeps_routes (\<lambda>p. snd (p_send m p))" for m
      by (simp_all add: keeps_identity_def keeps_routes_def)
    show ?thesis
      using q Some f by (auto simp: s on_track_unpublished_def Let_def split_def split: option.split
          intro!: quiet_then send)
  qed (simp add: s on_track_unpublished_def)
qed

lemma match_track_immut [simp]:
  "p_media (snd (match_track draws now cid mid p)) = p_media p"
  "p_sid (snd (match_track draws now cid mid p)) = p_sid p"
  "p_identity (snd (match_track draws now cid mid p)) = p_identity p"
  "p_kind (snd (match_track draws now cid mid p)) = p_kind p"
  by (simp_all add: match_track_def add_track_def Let_def split: option.split)

lemma receive_track_identity: "keeps_identity (\<lambda>p. snd (receive_track draws now cid mid p))"
  by (simp add: keeps_identity_def receive_track_def set_track_def Let_def split_def)

lemma subs_inv_fewer:
  assumes "subs_inv r" "\<And>k t. sender_of k t r' = sender_of k t r"
    and "\<And>k t f. forwarder_of k t r' = Some f \<Longrightarrow> forwarder_of k t r = Some f \<or> f_subscribers f = []"
  shows "subs_inv r'"
  unfolding subs_inv_def
proof (intro allI impI)
  fix k t f sid assume "forwarder_of k t r' = Some f" "look (f_subscribers f) sid \<noteq> None"
  then have "forwarder_of k t r = Some f" "look (f_subscribers f) sid \<noteq> None" using assms(3) by fastforce+
  then show "sender_of sid t r' \<noteq> None" using assms(1) unfolding assms(2) subs_inv_def by blast
qed

lemma quiet_receive_track: "quiet (r, cx) (upd sid (\<lambda>p. snd (receive_track draws now cid mid p)) r, cx)"
proof -
  let ?f = "\<lambda>p. snd (receive_track draws now cid mid p)" and ?t = "\<lambda>p. fst (receive_track draws now cid mid p)"
  have fw: "\<exists>f. f_subscribers f = [] \<and> m_forwarders (p_media (?f p)) = put (t_sid (?t p)) f (m_forwarders (p_media p))"
    and se: "m_subscriber_senders (p_media (?f p)) = m_subscriber_senders (p_media p)" for p
    by (simp_all add: receive_track_def set_track_def Let_def split_def)
      (rule exI, rule conjI [OF _ refl], simp add: forwarder_new_def)
  have se': "sender_of k t (upd sid ?f r) = sender_of k t r" for k t
    by (cases "get_participant k r"; cases "k = sid"; simp add: sender_of_def se)
  have fw': "forwarder_of k t r = Some f \<or> f_subscribers f = []" if "forwarder_of k t (upd sid ?f r) = Some f" for k t f
  proof (cases "get_participant k r")
    case None
    then show ?thesis using that by (simp add: forwarder_of_def split: if_splits)
  next
    case (Some p)
    obtain g where "f_subscribers g = []" "m_forwarders (p_media (?f p)) = put (t_sid (?t p)) g (m_forwarders (p_media p))"
      using fw by blast
    then show ?thesis using that Some by (auto simp: forwarder_of_def split: if_splits)
  qed
  have "subs_inv r \<Longrightarrow> subs_inv (upd sid ?f r)"
    by (rule subs_inv_fewer [OF _ se' fw'])
  then show ?thesis by (simp add: quiet_def same_room_upd receive_track_identity)
qed

lemma quiet_on_track: "quiet s (on_track draws now cid mid sid s)"
proof (cases s)
  case s: (Pair r cx)
  have "quiet (r, cx) (on_track_published sid t (upd sid (\<lambda>p. snd (receive_track draws now cid mid p)) r, cx))" for t
    by (rule quiet_trans [OF quiet_receive_track quiet_on_track_published])
  then show ?thesis by (simp add: s on_track_def split: option.split)
qed

lemma quiet_on_track_ended: "quiet s (on_track_ended sid tid s)"
proof (cases s)
  case s: (Pair r cx)
  let ?g = "\<lambda>m. m\<lparr> m_forwarders := del tid (m_forwarders m) \<rparr>"
  have se: "sender_of k t (upd_media sid ?g r) = sender_of k t r" for k t
    by (cases "get_participant k r"; cases "k = sid"; simp add: sender_of_def)
  have fw: "forwarder_of k t r = Some f \<or> f_subscribers f = []" if "forwarder_of k t (upd_media sid ?g r) = Some f" for k t f
    using that by (cases "get_participant k r") (auto simp: forwarder_of_def split: if_splits)
  have "subs_inv r \<Longrightarrow> subs_inv (upd_media sid ?g r)" by (rule subs_inv_fewer [OF _ se fw])
  then have "quiet (r, cx) (upd_media sid ?g r, cx)" by (simp add: quiet_def same_room_upd_media)
  from quiet_trans [OF this quiet_on_track_unpublished] show ?thesis by (simp add: s on_track_ended_def)
qed

lemma quiet_on_ice_connected: "quiet (r, cx) (on_ice_connected sid r, cx)"
proof -
  have "keeps_identity (\<lambda>p. snd (set_state Active p))" "keeps_routes (\<lambda>p. snd (set_state Active p))"
    by (simp_all add: keeps_identity_def keeps_routes_def)
  then have "quiet (r, cx) (snd (info_of sid (upd sid (\<lambda>p. snd (set_state Active p)) r)), cx)"
    by (intro quiet_then quiet_refl)
  then show ?thesis
    by (auto simp: on_ice_connected_def split: option.split prod.split bool.split intro: quiet_then)
qed

lemma send_data_keeps:
  "keeps_identity (\<lambda>q. if P q then q\<lparr> p_media := send_data out (p_media q) \<rparr> else q)"
  "keeps_routes (\<lambda>q. if P q then q\<lparr> p_media := send_data out (p_media q) \<rparr> else q)"
  by (auto simp: keeps_identity_def keeps_routes_def send_data_def Let_def split: option.split packet_kind.split)

lemma quiet_handle_incoming_data: "quiet (r, cx) (handle_incoming_data decode sid data lossy r, cx)"
  by (simp add: handle_incoming_data_def Let_def quiet_upd(2) [OF send_data_keeps] split: option.split)

lemma ensure_publisher_routes [simp]:
  "m_forwarders (ensure_publisher m) = m_forwarders m"
  "m_subscriber_senders (ensure_publisher m) = m_subscriber_senders m"
  by (simp_all add: ensure_publisher_def take_pending_def Let_def split: option.split)

lemma handle_publisher_offer_keeps:
  "keeps_identity (\<lambda>p. snd (handle_publisher_offer ans offer p))"
  "keeps_routes (\<lambda>p. snd (handle_publisher_offer ans offer p))"
  by (simp_all add: keeps_identity_def keeps_routes_def handle_publisher_offer_def Let_def split: sum.split)

subsection \<open>Properties\<close>

lemma packet_channel:
  "send_data (outgoing_packet p lossy pkt) m =
     (if lossy then m\<lparr> m_lossy := map_option (\<lambda>ps. ps @ [outgoing_packet p lossy pkt]) (m_lossy m) \<rparr>
      else m\<lparr> m_reliable := map_option (\<lambda>ps. ps @ [outgoing_packet p lossy pkt]) (m_reliable m) \<rparr>)"
  by (simp add: send_data_def kind_try_from_def outgoing_packet_def Let_def)


lemma get_sample [simp]:
  "get_participant ''PA_a'' sample_room = Some ((sample_participant ''PA_a'' ''ann'')
     \<lparr> p_media := media_default\<lparr> m_forwarders := [(''TR_1'', forwarder_new ''TR_1'' ''PA_a'' None ''MICROPHONE'')] \<rparr> \<rparr>)"
  "get_participant ''PA_b'' sample_room = Some (sample_participant ''PA_b'' ''bob'')"
  by (simp_all add: get_participant_def sample_room_def look_def)

lemma sample_room_inv: "room_inv sample_room"
  by (auto simp: room_inv_def members_inv_def sample_room_def sample_participant_def room_new_def participant_new_def
      has_non_dependent_def participants_def is_dependent_def keys_distinct_def look_def split: if_splits)

lemma sample_subs_inv: "subs_inv sample_room"
  by (auto simp: subs_inv_def forwarder_of_def get_participant_def sample_room_def sample_participant_def look_def
      participant_new_def media_default_def forwarder_new_def split: if_splits)


lemma del_absent: "look m k = None \<Longrightarrow> del k m = m"
  by (simp add: del_filter look_def map_of_eq_None_iff) (metis (mono_tags, lifting) filter_True fst_conv imageI)

lemma del_put_absent: "look m k = None \<Longrightarrow> del k (put k v m) = m"
  using del_absent [of m k] by (simp add: put_fresh) (simp add: del_filter)

lemma remove_add_subscriber:
  assumes "look (f_subscribers f) sid = None"
  shows "remove_subscriber sid (add_subscriber sid n f) = f" "remove_subscriber sid f = f"
  using assms by (simp_all add: remove_subscriber_def add_subscriber_def del_put_absent del_absent)



lemma auto_subscribes_upd_media [simp]: "auto_subscribes k (upd_media sid g r) = auto_subscribes k r"
  by (simp add: auto_subscribes_def split: option.split)

lemma auto_subscribes_add [simp]:
  "auto_subscribes k (fst (snd (add_subscription subscriber tid publisher (r, cx)))) = auto_subscribes k r"
  by (simp add: add_subscription_def attach_subscription_def Let_def split_def split: option.split)

lemma auto_subscribes_info_broadcast [simp]:
  "auto_subscribes k (broadcast_participant_update infos ex r) = auto_subscribes k r"
  "auto_subscribes k (snd (info_of sid r)) = auto_subscribes k r"
  by (simp_all add: auto_subscribes_def broadcast_participant_update_def info_of_def Let_def split: option.split)

lemma auto_subscribe_step_alt:
  "auto_subscribe_step sid tid k s = (if auto_subscribes k (fst s) then snd (add_subscription k tid sid s) else s)"
  by (simp add: auto_subscribe_step_def auto_subscribes_def split: option.split)

lemma auto_subscribe_fold:
  assumes "forwarder_of sid tid (fst s) = Some f"
  shows "\<exists>f'. forwarder_of sid tid (fst (fold (auto_subscribe_step sid tid) ks s)) = Some f'
     \<and> (\<forall>k. look (f_subscribers f') k \<noteq> None \<longleftrightarrow>
          look (f_subscribers f) k \<noteq> None \<or> k \<in> set ks \<and> auto_subscribes k (fst s))"
  using assms
proof (induction ks arbitrary: s f)
  case (Cons x ks)
  obtain r cx where s: "s = (r, cx)" by fastforce
  show ?case
  proof (cases "auto_subscribes x r")
    case False
    then show ?thesis using Cons.IH [OF Cons.prems] by (auto simp: auto_subscribe_step_alt s)
  next
    case True
    obtain res r' cx' where a: "add_subscription x tid sid (r, cx) = (res, r', cx')" by (metis prod_cases3)
    obtain p where "get_participant x r = Some p"
      using True by (auto simp: auto_subscribes_def split: option.splits)
    then obtain n where "forwarder_of sid tid r' = map_option (add_subscriber x n) (forwarder_of sid tid r)"
      by (rule add_subscription_routes [OF _ a]) (simp add: that)
    then have f': "forwarder_of sid tid (fst (r', cx')) = Some (add_subscriber x n f)" using Cons.prems s by simp
    have "auto_subscribes k r' = auto_subscribes k r" for k
      using auto_subscribes_add [of k x tid sid r cx] by (simp add: a)
    then show ?thesis
      using Cons.IH [OF f'] True by (auto simp: auto_subscribe_step_alt s a split: if_splits)
  qed
qed simp

lemma auto_subscribes_receive [simp]:
  "auto_subscribes k (upd sid (\<lambda>p. snd (receive_track draws now cid mid p)) r) = auto_subscribes k r"
  by (simp add: auto_subscribes_def receive_track_def match_track_def set_track_def add_track_def Let_def split_def
      split: option.split)

lemma forwarder_receive:
  assumes "get_participant sid r = Some p"
  shows "\<exists>f. forwarder_of sid (t_sid (fst (receive_track draws now cid mid p)))
      (upd sid (\<lambda>p. snd (receive_track draws now cid mid p)) r) = Some f \<and> f_subscribers f = []"
  using assms by (simp add: forwarder_of_def receive_track_def set_track_def forwarder_new_def Let_def split_def)



end
