(* ===== verification/Signal.thy ===== *)
theory Signal
  imports Subscription
begin

text \<open>
  Signalling (\<open>lk-server/src/signal.rs\<close>): the handlers of the requests of a participant,
  the end of a participant, joining, resuming and the session around them.  A handler
  works on the room and the shared context and names the participant by its id.  A
  participant that is no longer in the room has been disconnected by whatever removed
  it, so a session whose participant is gone is over.
\<close>

section \<open>Environment\<close>

text \<open>What a handler takes from outside: the clock, random draws for ids (one list per
  id), the answer of the webrtc library to a publisher offer, whether it accepts the
  subscriber answer, and the JSON decoder of ICE candidates.\<close>

record sig_env =
  se_now :: int
  se_draws :: "nat \<Rightarrow> nat list"
  se_answer :: "(string, string) result"
  se_remote_ok :: bool
  se_candidate :: "string \<Rightarrow> string option"

text \<open>The disconnect reasons of the protocol; those the server never uses itself are
  \<open>OtherReason\<close> with their number.\<close>

definition disconnect_reason_try_from :: "int \<Rightarrow> disconnect_reason option" where
  "disconnect_reason_try_from v =
     (if v = 0 then Some UnknownReason else if v = 1 then Some ClientInitiated
      else if v = 2 then Some DuplicateIdentity else if v = 3 then Some ServerShutdown
      else if v = 4 then Some ParticipantRemoved else if v = 5 then Some RoomDeleted
      else if v = 9 then Some SignalClose else if v = 10 then Some RoomClosed
      else if 6 \<le> v \<and> v \<le> 16 then Some (OtherReason v) else None)"

section \<open>End of a participant\<close>

definition mark_disconnected :: "disconnect_reason \<Rightarrow> participant \<Rightarrow> participant" where
  "mark_disconnected reason p =
     clear_signal_sink ((snd (set_state Disconnected p))\<lparr> p_disconnected_reason := reason \<rparr>)"

definition session_duration :: "int \<Rightarrow> participant \<Rightarrow> ctx \<Rightarrow> ctx" where
  "session_duration now p cx =
     (let mt = cx_metrics cx in
      cx\<lparr> cx_metrics := mt\<lparr> mt_session_duration := mt_session_duration mt @ [unix_millis now - p_joined_at_ms p] \<rparr> \<rparr>)"

definition end_participant :: "int \<Rightarrow> disconnect_reason \<Rightarrow> string \<Rightarrow> room \<times> ctx \<Rightarrow> room \<times> ctx" where
  "end_participant now reason sid s =
     (let (r, cx) = s in
      (case get_participant sid r of
         None \<Rightarrow> (r, cx)
       | Some p \<Rightarrow>
           let p = mark_disconnected reason p;
               room_proto = room_to_proto r;
               (info, p) = participant_to_proto p;
               r = snd (remove_participant now sid r);
               r = release_subscriber sid r;
               r = broadcast_participant_update [info] (Some sid) r;
               r = on_participant_left now r
           in (r, emit (WhParticipantLeft room_proto info) (session_duration now p (participant_total_dec cx)))))"

definition on_media_disconnected :: "int \<Rightarrow> bool \<Rightarrow> string \<Rightarrow> room \<times> ctx \<Rightarrow> room \<times> ctx" where
  "on_media_disconnected now failed sid s = (if failed then end_participant now ClientInitiated sid s else s)"

definition close_signal :: "disconnect_reason \<Rightarrow> participant \<Rightarrow> participant" where
  "close_signal reason p =
     (let p = snd (send_update (RespLeave reason) p) in
      if p_state p \<noteq> Disconnected then (snd (set_state Disconnected p))\<lparr> p_disconnected_reason := reason \<rparr> else p)"

section \<open>Requests\<close>

definition handle_offer :: "(string, string) result \<Rightarrow> session_description \<Rightarrow> participant \<Rightarrow> participant" where
  "handle_offer webrtc_answer offer p =
     (let p = snd (set_state Joined p) in
      if \<not> pm_can_publish (p_permission p) then p
      else (case handle_publisher_offer webrtc_answer offer p of
              (Inr answer, p) \<Rightarrow> snd (p_send (RespAnswer answer) p)
            | (Inl _, p) \<Rightarrow> p))"

definition send_request_response :: "request_reason \<Rightarrow> add_track_request \<Rightarrow> participant \<Rightarrow> participant" where
  "send_request_response reason req p = snd (p_send (RespRequestResponse reason req) p)"

definition TRACK_TYPE_AUDIO :: int where "TRACK_TYPE_AUDIO = 0"

definition requested_track :: "nat list \<Rightarrow> int \<Rightarrow> add_track_request \<Rightarrow> track" where
  "requested_track draws now req =
     (let t = track_new draws now (at_name req) (at_cid req) (source_from_proto (at_source req)) (at_stream req);
          t = (if at_muted req then snd (track_set_muted now True t) else t)
      in t\<lparr> t_red_enabled := \<not> at_disable_red req, t_encryption := at_encryption req, t_stereo := at_stereo req,
            t_disable_dtx := at_disable_dtx req, t_audio_features := at_audio_features req,
            t_backup_codec_policy := at_backup_codec_policy req \<rparr>)"

definition handle_add_track :: "nat list \<Rightarrow> int \<Rightarrow> add_track_request \<Rightarrow> participant \<Rightarrow> participant" where
  "handle_add_track draws now req p =
     (if \<not> pm_can_publish (p_permission p) then send_request_response NotAllowed req p
      else if at_type req \<noteq> TRACK_TYPE_AUDIO then send_request_response UnsupportedType req p
      else
        let t = requested_track draws now req;
            p = add_track t p
        in snd (p_send (RespTrackPublished (at_cid req) (track_to_proto t)) p))"

definition broadcast_own_update :: "string option \<Rightarrow> string \<Rightarrow> room \<Rightarrow> room" where
  "broadcast_own_update except sid r =
     (case info_of sid r of
        (None, r) \<Rightarrow> r
      | (Some info, r) \<Rightarrow> broadcast_participant_update [info] except r)"

definition set_track_muted :: "int \<Rightarrow> string \<Rightarrow> bool \<Rightarrow> bool \<Rightarrow> string \<Rightarrow> room \<Rightarrow> room" where
  "set_track_muted now tid muted from_server sid r =
     (case Option.bind (get_participant sid r) (get_track tid) of
        None \<Rightarrow> r
      | Some t \<Rightarrow>
          (case track_set_muted now muted t of
             (False, _) \<Rightarrow> r
           | (True, t) \<Rightarrow>
               let r = upd sid (set_track t) r;
                   r = (if from_server then upd sid (\<lambda>p. snd (p_send (RespMute tid muted) p)) r else r)
               in broadcast_own_update (Some sid) sid r))"

definition find_track :: "string \<Rightarrow> room \<Rightarrow> (string \<times> track) option" where
  "find_track tid r =
     map_option (\<lambda>p. (p_sid p, the (get_track tid p))) (List.find (\<lambda>p. get_track tid p \<noteq> None) (participants r))"

definition change_subscription :: "bool \<Rightarrow> string \<Rightarrow> string \<Rightarrow> string \<Rightarrow> room \<times> ctx \<Rightarrow> room \<times> ctx" where
  "change_subscription subscribe sid tid publisher s =
     (if subscribe then snd (add_subscription sid tid publisher s) else remove_subscription sid tid s)"

definition change_listed :: "bool \<Rightarrow> string \<Rightarrow> participant_tracks \<Rightarrow> room \<times> ctx \<Rightarrow> room \<times> ctx" where
  "change_listed subscribe sid pt s =
     (case get_participant (pt_participant_sid pt) (fst s) of
        None \<Rightarrow> s
      | Some _ \<Rightarrow>
          fold (\<lambda>tid s. case Option.bind (get_participant (pt_participant_sid pt) (fst s)) (get_track tid) of
                  None \<Rightarrow> s
                | Some _ \<Rightarrow> change_subscription subscribe sid tid (pt_participant_sid pt) s)
            (pt_track_sids pt) s)"

definition change_named :: "update_subscription \<Rightarrow> string \<Rightarrow> string \<Rightarrow> room \<times> ctx \<Rightarrow> room \<times> ctx" where
  "change_named u sid tid s =
     (if list_ex (\<lambda>pt. tid \<in> set (pt_track_sids pt)) (us_participant_tracks u) then s
      else (case find_track tid (fst s) of
              None \<Rightarrow> s
            | Some (publisher, _) \<Rightarrow> change_subscription (us_subscribe u) sid tid publisher s))"

definition handle_update_subscriptions :: "update_subscription \<Rightarrow> string \<Rightarrow> room \<times> ctx \<Rightarrow> room \<times> ctx" where
  "handle_update_subscriptions u sid s =
     (case get_participant sid (fst s) of
        None \<Rightarrow> s
      | Some p \<Rightarrow>
          if \<not> pm_can_subscribe (p_permission p) then s
          else fold (change_named u sid) (us_track_sids u)
                 (fold (change_listed (us_subscribe u) sid) (us_participant_tracks u) s))"

definition handle_leave :: "int \<Rightarrow> int \<Rightarrow> string \<Rightarrow> room \<times> ctx \<Rightarrow> room \<times> ctx" where
  "handle_leave now reason sid s =
     end_participant now (unwrap_or ClientInitiated (disconnect_reason_try_from reason)) sid s"

definition handle_update_metadata :: "update_metadata_msg \<Rightarrow> string \<Rightarrow> room \<Rightarrow> room" where
  "handle_update_metadata u sid r =
     (case get_participant sid r of
        None \<Rightarrow> r
      | Some p \<Rightarrow>
          if \<not> pm_can_update_metadata (p_permission p) then r
          else
            let nm = (if um_name u = [] then None else Some (um_name u));
                changed = fst (update_metadata (um_metadata u) nm p);
                r = upd sid (\<lambda>p. snd (update_metadata (um_metadata u) nm p)) r
            in if changed \<or> um_attributes u \<noteq> []
               then broadcast_own_update None sid (upd sid (\<lambda>p. snd (set_attributes (um_attributes u) p)) r)
               else r)"

text \<open>The tracks a client says it publishes: unknown ones are added, the \<open>i\<close>-th with the
  \<open>i\<close>-th id.\<close>

fun sync_tracks :: "(nat \<Rightarrow> nat list) \<Rightarrow> int \<Rightarrow> nat \<Rightarrow> published_track_msg list \<Rightarrow> participant \<Rightarrow> participant" where
  "sync_tracks draws now i [] p = p"
| "sync_tracks draws now i (pb # pbs) p =
     sync_tracks draws now (Suc i) pbs
       (case pb_track pb of
          None \<Rightarrow> p
        | Some t \<Rightarrow>
            if get_track_by_cid (pb_cid pb) p = None
            then add_track (track_new (draws i) now (ti_name t) (pb_cid pb) (source_from_proto (ti_source t)) (ti_stream t)) p
            else p)"

definition handle_sync_state :: "(nat \<Rightarrow> nat list) \<Rightarrow> int \<Rightarrow> published_track_msg list \<Rightarrow> participant \<Rightarrow> participant" where
  "handle_sync_state draws now pbs p =
     (let p = sync_tracks draws now 0 pbs p
      in p\<lparr> p_media := request_subscriber_negotiation (p_media p) \<rparr>)"

fun handle_participant_request :: "sig_env \<Rightarrow> string \<Rightarrow> signal_request \<Rightarrow> room \<times> ctx \<Rightarrow> room \<times> ctx" where
  "handle_participant_request e sid (ReqOffer offer) (r, cx) = (upd sid (handle_offer (se_answer e) offer) r, cx)"
| "handle_participant_request e sid (ReqAnswer answer) (r, cx) =
     (upd sid (\<lambda>p. snd (handle_subscriber_answer (se_remote_ok e) p)) r, cx)"
| "handle_participant_request e sid (ReqTrickle candidate target) (r, cx) =
     (upd_media sid (\<lambda>m. snd (add_ice_candidate (se_candidate e) candidate target m)) r, cx)"
| "handle_participant_request e sid (ReqAddTrack req) (r, cx) = (upd sid (handle_add_track (se_draws e 0) (se_now e) req) r, cx)"
| "handle_participant_request e sid (ReqMute tid muted) (r, cx) = (set_track_muted (se_now e) tid muted False sid r, cx)"
| "handle_participant_request e sid (ReqSubscription u) s = handle_update_subscriptions u sid s"
| "handle_participant_request e sid ReqTrackSetting s = s"
| "handle_participant_request e sid (ReqLeave reason) s = handle_leave (se_now e) reason sid s"
| "handle_participant_request e sid (ReqUpdateMetadata u) (r, cx) = (handle_update_metadata u sid r, cx)"
| "handle_participant_request e sid (ReqPingReq timestamp) (r, cx) =
     (upd sid (\<lambda>p. snd (p_send (RespPongResp timestamp (se_now e sdiv 1000)) p)) r, cx)"
| "handle_participant_request e sid (ReqPing timestamp) (r, cx) =
     (upd sid (\<lambda>p. snd (p_send (RespPong (se_now e sdiv 1000)) p)) r, cx)"
| "handle_participant_request e sid (ReqSyncState pbs) (r, cx) = (upd sid (handle_sync_state (se_draws e) (se_now e) pbs) r, cx)"
| "handle_participant_request e sid ReqSubscriptionPermission s = s"
| "handle_participant_request e sid ReqIgnored s = s"

section \<open>Joining and resuming\<close>

record session_params =
  ss_reconnect :: bool
  ss_participant_sid :: string
  ss_auto_subscribe :: bool
  ss_publish :: bool
  ss_metadata :: string
  ss_attributes :: attrs
  ss_add_tracks :: "add_track_request list"
  ss_publisher_offer :: "session_description option"
  ss_sync_state :: "published_track_msg list option"

definition joining_participant ::
    "nat list \<Rightarrow> int \<Rightarrow> verified_token \<Rightarrow> session_params \<Rightarrow> participant_kind \<Rightarrow> participant" where
  "joining_participant draws now token params knd =
     (let p = participant_new draws now (vt_identity token) (vt_name token) (vt_metadata token) knd;
          p = p\<lparr> p_auto_subscribe := ss_auto_subscribe params \<rparr>;
          p = snd (set_attributes (vt_attributes token) p);
          p = p\<lparr> p_permission := permission_from_grant (vt_video token) \<rparr>
      in if ss_metadata params \<noteq> [] then p\<lparr> p_metadata := ss_metadata params \<rparr> else p)"

definition add_token_dispatch ::
    "room_agent_dispatch \<Rightarrow> room_agent_dispatch list \<times> room \<Rightarrow> room_agent_dispatch list \<times> room" where
  "add_token_dispatch d s =
     (let (new, r) = s; key = rad_agent_name d @ [CHR 0x00] @ rad_metadata d in
      (case add_agent_dispatch d r of
         (True, r) \<Rightarrow> (new @ [d], mark_dispatch_launched key r)
       | (False, r) \<Rightarrow> (new, r)))"

definition token_dispatches :: "verified_token \<Rightarrow> room \<Rightarrow> room_agent_dispatch list \<times> room" where
  "token_dispatches token r =
     (case vt_room_config token of
        None \<Rightarrow> ([], r)
      | Some rc \<Rightarrow> fold add_token_dispatch (rc_agents rc) ([], r))"

text \<open>The session of a participant with the same identity is ended first.\<close>

definition end_duplicate :: "int \<Rightarrow> string \<Rightarrow> room \<times> ctx \<Rightarrow> room \<times> ctx" where
  "end_duplicate now identity s =
     (let (r, cx) = s in
      (case get_participant_by_identity identity r of
         None \<Rightarrow> (r, cx)
       | Some q \<Rightarrow> end_participant now DuplicateIdentity (p_sid q) (upd (p_sid q) (close_signal DuplicateIdentity) r, cx)))"

text \<open>A participant that was accepted is announced.\<close>

definition announce_join :: "bool \<Rightarrow> string \<Rightarrow> room \<times> ctx \<Rightarrow> room \<times> ctx" where
  "announce_join first_join sid s =
     (let (r, cx) = s; room_proto = room_to_proto r in
      (case info_of sid r of
         (None, r) \<Rightarrow> (r, cx)
       | (Some info, r) \<Rightarrow>
           let cx = (if first_join then emit (WhRoomStarted room_proto) cx else cx);
               cx = participant_total_inc cx;
               r = broadcast_participant_update [info] (Some sid) r
           in (r, emit (WhParticipantJoined room_proto info) cx)))"

definition admit ::
    "int \<Rightarrow> participant \<Rightarrow> verified_token \<Rightarrow> room \<times> ctx \<Rightarrow> (string, string \<times> room_agent_dispatch list) result \<times> room \<times> ctx" where
  "admit now p token s =
     (let (r, cx) = s;
          first_join = (\<not> r_ever_joined r);
          (new, r) = token_dispatches token r
      in (case room_join now p r of
            (False, r) \<Rightarrow> (Inl ''room is full or closed'', r, cx)
          | (True, r) \<Rightarrow> (Inr (p_sid p, new), announce_join first_join (p_sid p) (r, cx))))"

definition join_denied :: "verified_token \<Rightarrow> session_params \<Rightarrow> string option" where
  "join_denied token params =
     (if \<not> vg_room_join (vt_video token) then Some ''join permission denied''
      else if vt_identity token = [] then Some ''identity is required''
      else if vg_room (vt_video token) = [] then Some ''room is required''
      else if \<not> ss_publish params \<and> \<not> token_can_subscribe token then Some ''subscribe permission denied''
      else None)"

definition join_room ::
    "(nat \<Rightarrow> nat list) \<Rightarrow> int \<Rightarrow> verified_token \<Rightarrow> session_params \<Rightarrow> participant_kind \<Rightarrow> server
     \<Rightarrow> (string, string \<times> room_agent_dispatch list) result \<times> server" where
  "join_room draws now token params knd sv =
     (case join_denied token params of
        Some e \<Rightarrow> (Inl e, sv)
      | None \<Rightarrow>
          let (r, sv) = get_or_create_room (draws 0) now (vg_room (vt_video token)) sv;
              s = end_duplicate now (vt_identity token) (r, sv_ctx sv);
              (res, r, cx) = admit now (joining_participant (draws 1) now token params knd) token s
          in (res, set_room r cx sv))"

definition resume_room_participant :: "verified_token \<Rightarrow> session_params \<Rightarrow> server \<Rightarrow> string option \<times> server" where
  "resume_room_participant token params sv =
     (case get_room (vg_room (vt_video token)) sv of
        None \<Rightarrow> (None, sv)
      | Some r \<Rightarrow>
          (case get_participant_by_identity (vt_identity token) r of
             None \<Rightarrow> (None, sv)
           | Some p \<Rightarrow>
               if p_state p = Disconnected then (None, sv)
               else if ss_participant_sid params \<noteq> [] \<and> p_sid p \<noteq> ss_participant_sid params then (None, sv)
               else (Some (p_sid p),
                     set_room (upd (p_sid p) (\<lambda>p. p\<lparr> p_resume_gen := p_resume_gen p + 1 \<rparr>) r) (sv_ctx sv) sv)))"

section \<open>Responses\<close>

definition PROTOCOL_VERSION :: int where "PROTOCOL_VERSION = 17"
definition SERVER_VERSION :: string where "SERVER_VERSION = ''1.13.5''"
definition AGENT_PROTOCOL :: int where "AGENT_PROTOCOL = 1"
definition PING_INTERVAL_SECS :: int where "PING_INTERVAL_SECS = 5"
definition PING_TIMEOUT_SECS :: int where "PING_TIMEOUT_SECS = 15"

definition server_info :: "server \<Rightarrow> server_info_msg" where
  "server_info sv =
     \<lparr> si_version = SERVER_VERSION, si_protocol = PROTOCOL_VERSION, si_region = sv_region sv,
       si_node_id = cl_node_id (cx_cluster (sv_ctx sv)), si_agent_protocol = AGENT_PROTOCOL \<rparr>"

definition build_reconnect_response :: "(string \<Rightarrow> ice_server list) \<Rightarrow> server \<Rightarrow> string \<Rightarrow> reconnect_response" where
  "build_reconnect_response ice sv sid = \<lparr> rr_ice_servers = ice sid, rr_server_info = server_info sv \<rparr>"

text \<open>The participants whose information goes into a response get a new version each.\<close>

fun infos_of :: "string list \<Rightarrow> room \<Rightarrow> participant_info list \<times> room" where
  "infos_of [] r = ([], r)"
| "infos_of (k # ks) r =
     (let (oi, r) = info_of k r;
          (infos, r) = infos_of ks r
      in (case oi of None \<Rightarrow> infos | Some i \<Rightarrow> i # infos, r))"

definition visible_others :: "string \<Rightarrow> room \<Rightarrow> string list" where
  "visible_others sid r =
     map fst (filter (\<lambda>(k, p). k \<noteq> sid \<and> \<not> pm_hidden (p_permission p)) (r_participants r))"

definition build_join_response :: "(string \<Rightarrow> ice_server list) \<Rightarrow> server \<Rightarrow> string \<Rightarrow> room \<Rightarrow> join_response option \<times> room" where
  "build_join_response ice sv sid r =
     (let (others, r) = infos_of (visible_others sid r) r;
          room_proto = room_to_proto r
      in (case info_of sid r of
            (None, r) \<Rightarrow> (None, r)
          | (Some info, r) \<Rightarrow>
              (Some \<lparr> jr_room = room_proto, jr_participant = info, jr_other_participants = others,
                      jr_server_version = SERVER_VERSION, jr_ice_servers = ice sid, jr_subscriber_primary = True,
                      jr_server_region = sv_region sv, jr_ping_timeout = PING_TIMEOUT_SECS,
                      jr_ping_interval = PING_INTERVAL_SECS, jr_server_info = server_info sv,
                      jr_enabled_publish_codecs = sv_codecs sv, jr_fast_publish = True \<rparr>, r)))"

section \<open>Sessions\<close>

definition connection_inc :: "ctx \<Rightarrow> ctx" where
  "connection_inc cx = (let mt = cx_metrics cx in cx\<lparr> cx_metrics := mt\<lparr> mt_connections := mt_connections mt + 1 \<rparr> \<rparr>)"

definition connection_dec :: "ctx \<Rightarrow> ctx" where
  "connection_dec cx = (let mt = cx_metrics cx in cx\<lparr> cx_metrics := mt\<lparr> mt_connections := mt_connections mt - 1 \<rparr> \<rparr>)"

definition session_requests :: "session_params \<Rightarrow> signal_request list" where
  "session_requests params =
     map ReqAddTrack (ss_add_tracks params)
     @ (case ss_publisher_offer params of None \<Rightarrow> [] | Some offer \<Rightarrow> [ReqOffer offer])
     @ (case ss_sync_state params of None \<Rightarrow> [] | Some pbs \<Rightarrow> [ReqSyncState pbs])"

definition existing_tracks :: "string \<Rightarrow> room \<Rightarrow> (string \<times> string) list" where
  "existing_tracks sid r =
     (case get_participant sid r of
        None \<Rightarrow> []
      | Some p \<Rightarrow>
          if pm_can_subscribe (p_permission p)
          then concat (map (\<lambda>(k, q). map (\<lambda>tid. (k, tid)) (map fst (p_tracks q)))
                 (filter (\<lambda>(k, q). k \<noteq> sid) (r_participants r)))
          else [])"

definition subscribe_existing :: "string \<Rightarrow> room \<times> ctx \<Rightarrow> room \<times> ctx" where
  "subscribe_existing sid s =
     (let (r, cx) = s;
          r = upd_media sid setup_subscriber r;
          (r, cx) = fold (\<lambda>(publisher, tid) s. snd (add_subscription sid tid publisher s)) (existing_tracks sid r) (r, cx)
      in (upd_media sid request_subscriber_negotiation r, cx))"

text \<open>The start of a session: the requests that came with the join are handled with one
  environment each, then the tracks already in the room are subscribed.\<close>

definition session_start :: "(nat \<Rightarrow> sig_env) \<Rightarrow> bool \<Rightarrow> session_params \<Rightarrow> string \<Rightarrow> room \<times> ctx \<Rightarrow> room \<times> ctx" where
  "session_start env resume params sid s =
     (let (r, cx) = s;
          s = (upd sid set_signal_sink r, connection_inc cx)
      in if resume then s
         else subscribe_existing sid
                (fold (\<lambda>(i, req). handle_participant_request (env i) sid req) (enumerate 0 (session_requests params)) s))"

definition launch_agents ::
    "(json \<Rightarrow> string \<Rightarrow> (string, string) result) \<Rightarrow> (string \<Rightarrow> nat list \<times> nat \<times> wait_result) \<Rightarrow> int \<Rightarrow> room_agent_dispatch list
     \<Rightarrow> room \<times> ctx \<Rightarrow> room \<times> ctx" where
  "launch_agents jwt_encode env now dispatches s =
     (let (r, cx) = s in
      (r, cx\<lparr> cx_agent := fold (\<lambda>d am. let (draws, draw, res) = env (rad_agent_name d) in
               snd (launch_room_job jwt_encode draws draw now res (rad_agent_name d) (room_to_proto r) (rad_metadata d)
                      (rad_deployment d) (rad_attributes d) None am)) dispatches (cx_agent cx) \<rparr>))"

definition session_over :: "string \<Rightarrow> room \<Rightarrow> bool" where
  "session_over sid r = (case get_participant sid r of None \<Rightarrow> True | Some p \<Rightarrow> p_state p = Disconnected)"

text \<open>The reader loop over the requests the transport delivers.\<close>

fun session_loop :: "string \<Rightarrow> (sig_env \<times> signal_request) list \<Rightarrow> room \<times> ctx \<Rightarrow> room \<times> ctx" where
  "session_loop sid [] s = s"
| "session_loop sid ((e, req) # reqs) s =
     (let s = handle_participant_request e sid req s
      in if session_over sid (fst s) then s else session_loop sid reqs s)"

text \<open>The end of a session: unless the participant is disconnected a task is left that ends
  it after the grace period, if no newer session has resumed it by then.\<close>

definition session_end :: "string \<Rightarrow> room \<times> ctx \<Rightarrow> 64 word option \<times> room \<times> ctx" where
  "session_end sid s =
     (let (r, cx) = s in
      (if session_over sid r then None else map_option p_resume_gen (get_participant sid r), r, connection_dec cx))"

definition grace_expired :: "int \<Rightarrow> 64 word \<Rightarrow> string \<Rightarrow> room \<times> ctx \<Rightarrow> room \<times> ctx" where
  "grace_expired now gen sid s =
     (case get_participant sid (fst s) of
        None \<Rightarrow> s
      | Some p \<Rightarrow> if p_resume_gen p = gen then end_participant now SignalClose sid s else s)"

section \<open>The websocket transport\<close>

datatype ws_frame = WsBinary "8 word list" | WsText string | WsClose | WsPing | WsPong

datatype ws_event = WsFrame ws_frame | WsError | WsTimeout | WsEof

record ws_state =
  ws_json :: bool
  ws_close_code :: "16 word"

definition ws_decode ::
    "(8 word list \<Rightarrow> signal_request option) \<Rightarrow> (string \<Rightarrow> signal_request option) \<Rightarrow> ws_frame \<Rightarrow> bool
     \<Rightarrow> signal_request option \<times> bool" where
  "ws_decode dec_proto dec_json msg json =
     (case msg of
        WsBinary bytes \<Rightarrow> (dec_proto bytes, False)
      | WsText txt \<Rightarrow> (dec_json txt, True)
      | _ \<Rightarrow> (None, json))"

text \<open>\<open>next_request\<close> over what the socket delivers: the request, if any, the rest of the
  events and the state of the transport.\<close>

fun ws_next_request ::
    "(8 word list \<Rightarrow> signal_request option) \<Rightarrow> (string \<Rightarrow> signal_request option) \<Rightarrow> nat \<Rightarrow> ws_event list \<Rightarrow> ws_state
     \<Rightarrow> signal_request option \<times> ws_event list \<times> ws_state" where
  "ws_next_request dp dj limit [] w = (None, [], w)"
| "ws_next_request dp dj limit (WsFrame (WsBinary bytes) # evs) w =
     (let w = w\<lparr> ws_json := False \<rparr> in
      if limit < length bytes then (None, evs, w\<lparr> ws_close_code := 1009 \<rparr>) else (dp bytes, evs, w))"
| "ws_next_request dp dj limit (WsFrame (WsText txt) # evs) w =
     (let w = w\<lparr> ws_json := True \<rparr> in
      if limit < length txt then (None, evs, w\<lparr> ws_close_code := 1009 \<rparr>) else (dj txt, evs, w))"
| "ws_next_request dp dj limit (WsFrame WsClose # evs) w = (None, evs, w)"
| "ws_next_request dp dj limit (WsFrame WsPing # evs) w = ws_next_request dp dj limit evs w"
| "ws_next_request dp dj limit (WsFrame WsPong # evs) w = ws_next_request dp dj limit evs w"
| "ws_next_request dp dj limit (WsError # evs) w = (None, evs, w)"
| "ws_next_request dp dj limit (WsTimeout # evs) w = (None, evs, w)"
| "ws_next_request dp dj limit (WsEof # evs) w = (None, evs, w)"

text \<open>All requests of a session, until the first \<open>next_request\<close> that returns nothing.\<close>

function ws_requests ::
    "(8 word list \<Rightarrow> signal_request option) \<Rightarrow> (string \<Rightarrow> signal_request option) \<Rightarrow> nat \<Rightarrow> ws_event list \<Rightarrow> ws_state
     \<Rightarrow> signal_request list \<times> ws_state" where
  "ws_requests dp dj limit evs w =
     (case ws_next_request dp dj limit evs w of
        (None, _, w) \<Rightarrow> ([], w)
      | (Some req, evs', w) \<Rightarrow> let (reqs, w) = ws_requests dp dj limit evs' w in (req # reqs, w))"
  by pat_completeness auto

lemma ws_next_shorter:
  "ws_next_request dp dj limit evs w = (Some req, evs', w') \<Longrightarrow> length evs' < length evs"
  by (induction dp dj limit evs w rule: ws_next_request.induct) (auto simp: Let_def split: if_splits)

termination ws_requests
  by (relation "measure (\<lambda>(dp, dj, limit, evs, w). length evs)") (auto dest!: ws_next_shorter [OF sym])

section \<open>Invariant\<close>

text \<open>An operation on a room of the registry is balanced when it keeps the room open, well
  formed and its routing consistent, and changes the participant gauge by as much as
  the number of participants.\<close>

definition open_room :: "room \<Rightarrow> bool" where
  "open_room r \<longleftrightarrow> room_inv r \<and> subs_inv r \<and> \<not> r_closed r \<and> r_on_close r"

definition balanced :: "room \<times> ctx \<Rightarrow> room \<times> ctx \<Rightarrow> bool" where
  "balanced s s' \<longleftrightarrow> (open_room (fst s) \<longrightarrow> open_room (fst s') \<and> r_name (fst s') = r_name (fst s)
     \<and> mt_room_total (cx_metrics (snd s')) = mt_room_total (cx_metrics (snd s))
     \<and> mt_participant_total (cx_metrics (snd s')) - int (length (r_participants (fst s'))) =
         mt_participant_total (cx_metrics (snd s)) - int (length (r_participants (fst s))))"

section \<open>Lemmas\<close>

lemma balanced_refl [simp]: "balanced s s"
  by (simp add: balanced_def)

lemma balanced_trans: "balanced s s' \<Longrightarrow> balanced s' s'' \<Longrightarrow> balanced s s''"
  by (simp add: balanced_def)

lemma balanced_fold: "(\<And>x s. balanced s (f x s)) \<Longrightarrow> balanced s (fold f xs s)"
proof (induction xs arbitrary: s)
  case (Cons x xs)
  show ?case using balanced_trans [OF Cons.prems Cons.IH [OF Cons.prems]] by simp
qed simp

lemma quiet_balanced:
  assumes "quiet s s'"
  shows "balanced s s'"
proof -
  have sr: "same_room (fst s) (fst s')" using assms by (simp add: quiet_def)
  have "length (r_participants (fst s')) = length (r_participants (fst s))"
    using same_room_fst [OF sr] by (metis length_map)
  moreover have "open_room (fst s')" if "open_room (fst s)"
    using that same_room_inv [OF sr] assms by (simp add: open_room_def quiet_def same_room_def)
  ultimately show ?thesis using assms sr by (simp add: balanced_def quiet_def totals_def same_room_def)
qed

subsection \<open>Handlers that keep the members\<close>

lemma quiet_then_own_update:
  assumes "quiet s (r, cx)"
  shows "quiet s (broadcast_own_update ex sid r, cx)"
proof -
  have "quiet s (snd (info_of sid r), cx)" using assms by (rule quiet_then)
  then show ?thesis
    by (cases "info_of sid r") (auto simp: broadcast_own_update_def split: option.split intro: quiet_then)
qed

lemmas keeps_defs = keeps_identity_def keeps_routes_def

lemma p_send_keeps: "keeps_identity (\<lambda>p. snd (p_send m p))" "keeps_routes (\<lambda>p. snd (p_send m p))"
  by (simp_all add: keeps_defs)

lemma handle_offer_keeps: "keeps_identity (handle_offer ans offer)" "keeps_routes (handle_offer ans offer)"
  by (auto simp: keeps_defs handle_offer_def handle_publisher_offer_def Let_def split: sum.split)

lemma handle_subscriber_answer_keeps:
  "keeps_identity (\<lambda>p. snd (handle_subscriber_answer ok p))" "keeps_routes (\<lambda>p. snd (handle_subscriber_answer ok p))"
  by (simp_all add: keeps_defs handle_subscriber_answer_def Let_def)

lemma add_ice_candidate_routes [simp]:
  "m_forwarders (snd (add_ice_candidate dec c t m)) = m_forwarders m"
  "m_subscriber_senders (snd (add_ice_candidate dec c t m)) = m_subscriber_senders m"
  by (simp_all add: add_ice_candidate_def set_target_pc_def split: option.split)

lemma handle_add_track_keeps: "keeps_identity (handle_add_track draws now req)" "keeps_routes (handle_add_track draws now req)"
  by (simp_all add: keeps_defs handle_add_track_def send_request_response_def add_track_def Let_def)

lemma set_track_keeps: "keeps_identity (set_track t)" "keeps_routes (set_track t)"
  by (simp_all add: keeps_defs set_track_def)

lemma update_metadata_keeps:
  "keeps_identity (\<lambda>p. snd (update_metadata m n p))" "keeps_routes (\<lambda>p. snd (update_metadata m n p))"
  by (auto simp: keeps_defs update_metadata_def Let_def split: option.split)

lemma set_attributes_keeps:
  "keeps_identity (\<lambda>p. snd (set_attributes a p))" "keeps_routes (\<lambda>p. snd (set_attributes a p))"
  by (simp_all add: keeps_defs set_attributes_def Let_def split_def)

lemma sync_tracks_immut [simp]:
  "p_sid (sync_tracks draws now i pbs p) = p_sid p"
  "p_identity (sync_tracks draws now i pbs p) = p_identity p"
  "p_kind (sync_tracks draws now i pbs p) = p_kind p"
  "p_media (sync_tracks draws now i pbs p) = p_media p"
  by (induction draws now i pbs p rule: sync_tracks.induct) (auto simp: add_track_def split: option.split)

lemma handle_sync_state_keeps: "keeps_identity (handle_sync_state draws now pbs)" "keeps_routes (handle_sync_state draws now pbs)"
  by (simp_all add: keeps_defs handle_sync_state_def Let_def)

lemma close_signal_keeps: "keeps_identity (close_signal reason)" "keeps_routes (close_signal reason)"
  by (simp_all add: keeps_defs close_signal_def Let_def)

lemma set_signal_sink_keeps: "keeps_identity set_signal_sink" "keeps_routes set_signal_sink"
  by (simp_all add: keeps_defs set_signal_sink_def)

lemma quiet_set_track_muted: "quiet (r, cx) (set_track_muted now tid muted from_server sid r, cx)"
  unfolding set_track_muted_def Let_def
  by (auto split: option.split prod.split bool.split intro!: quiet_then_own_update quiet_then set_track_keeps p_send_keeps)

lemma quiet_change_subscription: "quiet s (change_subscription subscribe sid tid publisher s)"
  by (simp add: change_subscription_def quiet_add quiet_remove)

lemma quiet_change_listed: "quiet s (change_listed subscribe sid pt s)"
  unfolding change_listed_def
  by (auto split: option.split intro!: quiet_fold quiet_change_subscription)

lemma quiet_change_named: "quiet s (change_named u sid tid s)"
  unfolding change_named_def by (auto split: option.split intro!: quiet_change_subscription)

lemma quiet_handle_update_subscriptions: "quiet s (handle_update_subscriptions u sid s)"
proof -
  have "quiet s (fold (change_named u sid) ts (fold (change_listed b sid) pts s))" for ts pts b
    by (rule quiet_trans [OF quiet_fold quiet_fold]) (rule quiet_change_listed quiet_change_named)+
  then show ?thesis by (simp add: handle_update_subscriptions_def split: option.split)
qed

lemma quiet_handle_update_metadata: "quiet (r, cx) (handle_update_metadata u sid r, cx)"
  unfolding handle_update_metadata_def Let_def
  by (auto split: option.split intro!: quiet_then_own_update quiet_then update_metadata_keeps set_attributes_keeps)

subsection \<open>Leaving\<close>

lemma same_room_release: "same_room r (release_subscriber sid r)"
  unfolding release_subscriber_def by (rule same_room_map) (simp add: keeps_identity_def)

lemma same_room_kinds:
  assumes "same_room r r'"
  shows "has_non_dependent r' = has_non_dependent r"
proof -
  have k: "has_non_dependent x = list_ex (\<lambda>(_, _, _, k). \<not> is_dependent k) (map (\<lambda>(k, p). (k, member_key p)) (r_participants x))" for x
    by (simp add: has_non_dependent_def participants_def list_ex_iff member_key_def split_def)
  show ?thesis using assms unfolding k same_room_def by simp
qed

lemma same_room_left:
  assumes "same_room r r'"
  shows "same_room (on_participant_left now r) (on_participant_left now r')"
  using assms same_room_kinds [OF assms] by (simp add: same_room_def on_participant_left_def split: option.split)

lemma routes_left [simp]:
  "forwarder_of k t (on_participant_left now r) = forwarder_of k t r"
  "sender_of k t (on_participant_left now r) = sender_of k t r"
  by (simp_all add: forwarder_of_def sender_of_def get_participant_def)

lemma routes_removed:
  assumes "get_participant sid r = Some p"
  shows "forwarder_of k t (snd (remove_participant now sid r)) = (if k = sid then None else forwarder_of k t r)"
    and "sender_of k t (snd (remove_participant now sid r)) = (if k = sid then None else sender_of k t r)"
  using assms by (simp_all add: forwarder_of_def sender_of_def get_participant_def remove_participant_simps)

lemma routes_release:
  "forwarder_of k t (release_subscriber sid r) = map_option (remove_subscriber sid) (forwarder_of k t r)"
  "sender_of k t (release_subscriber sid r) = sender_of k t r"
  by (cases "get_participant k r"; simp add: forwarder_of_def sender_of_def release_subscriber_def drop_subscriber_look)
    (cases "get_participant k r"; simp add: sender_of_def release_subscriber_def drop_subscriber_def)

text \<open>The room after \<open>end_participant\<close>.\<close>

definition left_room :: "int \<Rightarrow> participant_info \<Rightarrow> string \<Rightarrow> room \<Rightarrow> room" where
  "left_room now info sid r = on_participant_left now (broadcast_participant_update [info] (Some sid)
     (release_subscriber sid (snd (remove_participant now sid r))))"

lemma left_room_routes:
  assumes "get_participant sid r = Some p"
  shows "forwarder_of k t (left_room now info sid r) =
      (if k = sid then None else map_option (remove_subscriber sid) (forwarder_of k t r))"
    and "sender_of k t (left_room now info sid r) = (if k = sid then None else sender_of k t r)"
  by (simp_all add: left_room_def routes_release routes_removed [OF assms])

lemma left_room_inv:
  assumes "get_participant sid r = Some p" "room_inv r"
  shows "room_inv (left_room now info sid r)"
proof -
  have "same_room (snd (remove_participant now sid r)) (broadcast_participant_update [info] (Some sid)
      (release_subscriber sid (snd (remove_participant now sid r))))"
    by (rule same_room_trans [OF same_room_release same_room_broadcast])
  from same_room_inv [OF same_room_left [OF this]] room_inv_leave [OF assms(2), of sid now] assms(1)
  show ?thesis by (simp add: left_room_def)
qed

lemma left_room_subs:
  assumes "get_participant sid r = Some p" "subs_inv r"
  shows "subs_inv (left_room now info sid r)"
  unfolding subs_inv_def
proof (intro allI impI)
  fix k t f s assume f: "forwarder_of k t (left_room now info sid r) = Some f" "look (f_subscribers f) s \<noteq> None"
  then obtain g where "forwarder_of k t r = Some g" "look (f_subscribers g) s \<noteq> None" "s \<noteq> sid"
    by (auto simp: left_room_routes [OF assms(1)] split: if_splits)
  then show "sender_of s t (left_room now info sid r) \<noteq> None"
    using assms(2) unfolding left_room_routes [OF assms(1)] subs_inv_def by auto
qed

lemma left_room_simps:
  assumes "get_participant sid r = Some p"
  shows "map fst (r_participants (left_room now info sid r)) = map fst (del sid (r_participants r))"
    "r_name (left_room now info sid r) = r_name r" "r_closed (left_room now info sid r) = r_closed r"
    "r_on_close (left_room now info sid r) = r_on_close r"
proof -
  have "same_room (snd (remove_participant now sid r)) (broadcast_participant_update [info] (Some sid)
      (release_subscriber sid (snd (remove_participant now sid r))))"
    by (rule same_room_trans [OF same_room_release same_room_broadcast])
  from same_room_fst [OF this] this assms
  show "map fst (r_participants (left_room now info sid r)) = map fst (del sid (r_participants r))"
    "r_name (left_room now info sid r) = r_name r" "r_closed (left_room now info sid r) = r_closed r"
    "r_on_close (left_room now info sid r) = r_on_close r"
    by (simp_all add: left_room_def same_room_def remove_participant_simps get_participant_def)
qed

lemma session_duration_simps [simp]:
  "mt_room_total (cx_metrics (session_duration now p cx)) = mt_room_total (cx_metrics cx)"
  "mt_participant_total (cx_metrics (session_duration now p cx)) = mt_participant_total (cx_metrics cx)"
  "cx_webhooks (session_duration now p cx) = cx_webhooks cx"
  by (simp_all add: session_duration_def Let_def)

lemma end_participant_None: "get_participant sid (fst s) = None \<Longrightarrow> end_participant now reason sid s = s"
  by (cases s) (simp add: end_participant_def)

lemma end_participant_Some:
  assumes "get_participant sid r = Some p"
  shows "end_participant now reason sid (r, cx) =
     (let (info, q) = participant_to_proto (mark_disconnected reason p) in
      (left_room now info sid r, emit (WhParticipantLeft (room_to_proto r) info) (session_duration now q (participant_total_dec cx))))"
  using assms by (simp add: end_participant_def left_room_def Let_def split_def)

lemma balanced_end_participant: "balanced s (end_participant now reason sid s)"
proof (cases "get_participant sid (fst s)")
  case None
  then show ?thesis by (simp add: end_participant_None)
next
  case p: (Some p)
  obtain r cx where s: "s = (r, cx)" by fastforce
  obtain info q where pr: "participant_to_proto (mark_disconnected reason p) = (info, q)" by fastforce
  have p': "get_participant sid r = Some p" using p s by simp
  have "Suc (length (r_participants (left_room now info sid r))) = length (r_participants r)" if "open_room r"
    using that p' length_del [of "r_participants r" sid p] left_room_simps(1) [OF p', of now info, THEN arg_cong [of _ _ length]]
    by (simp add: open_room_def room_inv_def members_inv_def get_participant_def)
  then show ?thesis
    using left_room_inv [OF p'] left_room_subs [OF p'] left_room_simps [OF p', of now info]
    unfolding s end_participant_Some [OF p'] pr by (auto simp: balanced_def open_room_def)
qed

lemma balanced_handle_leave: "balanced s (handle_leave now reason sid s)"
  by (simp add: handle_leave_def balanced_end_participant)

lemma balanced_request: "balanced s (handle_participant_request e sid req s)"
proof -
  obtain r cx where s: "s = (r, cx)" by fastforce
  have u: "balanced (r, cx) (upd sid f r, cx)" if "keeps_identity f" "keeps_routes f" for f
    using that by (intro quiet_balanced quiet_upd)
  show ?thesis
  proof (cases req)
    case (ReqTrickle c t)
    then show ?thesis by (auto simp: s upd_media_def keeps_defs intro!: u)
  next
    case (ReqMute tid m)
    then show ?thesis by (auto simp: s intro: quiet_balanced quiet_set_track_muted)
  next
    case (ReqUpdateMetadata m)
    then show ?thesis by (auto simp: s intro: quiet_balanced quiet_handle_update_metadata)
  qed (auto simp: s intro!: u handle_offer_keeps handle_subscriber_answer_keeps handle_add_track_keeps p_send_keeps
      handle_sync_state_keeps quiet_balanced [OF quiet_handle_update_subscriptions] balanced_handle_leave)
qed

subsection \<open>Joining\<close>

lemma balanced_end_duplicate: "balanced s (end_duplicate now identity s)"
proof -
  obtain r cx where s: "s = (r, cx)" by fastforce
  have "balanced (r, cx) (upd k (close_signal DuplicateIdentity) r, cx)" for k
    by (intro quiet_balanced quiet_upd close_signal_keeps)
  from balanced_trans [OF this balanced_end_participant] show ?thesis
    by (simp add: s end_duplicate_def split: option.split)
qed

definition sans_agents :: "room \<Rightarrow> room" where
  "sans_agents r = r\<lparr> r_agents := [], r_launched := [] \<rparr>"

lemma token_dispatches_room: "sans_agents (snd (token_dispatches token r)) = sans_agents r"
proof -
  have step: "sans_agents (snd (add_token_dispatch d s)) = sans_agents (snd s)" for d s
    by (cases s) (simp add: add_token_dispatch_def add_agent_dispatch_def mark_dispatch_launched_def sans_agents_def Let_def)
  have "sans_agents (snd (fold add_token_dispatch ds s)) = sans_agents (snd s)" for ds s
    by (induction ds arbitrary: s) (simp_all add: step)
  from this [of _ "([], r)"] show ?thesis by (simp add: token_dispatches_def split: option.split)
qed

lemma sans_agents_fields:
  assumes "sans_agents r' = sans_agents r"
  shows "r_participants r' = r_participants r" "r_name r' = r_name r" "r_closed r' = r_closed r"
    "r_on_close r' = r_on_close r" "r_ever_joined r' = r_ever_joined r" "r_empty_since r' = r_empty_since r"
    "r_max_participants r' = r_max_participants r"
  using assms [THEN arg_cong [of _ _ r_participants]] assms [THEN arg_cong [of _ _ r_name]]
    assms [THEN arg_cong [of _ _ r_closed]] assms [THEN arg_cong [of _ _ r_on_close]]
    assms [THEN arg_cong [of _ _ r_ever_joined]] assms [THEN arg_cong [of _ _ r_empty_since]]
    assms [THEN arg_cong [of _ _ r_max_participants]]
  by (simp_all add: sans_agents_def)

lemma same_members_routes:
  "r_participants r' = r_participants r \<Longrightarrow> subs_inv r' = subs_inv r"
  by (rule subs_inv_routes) (simp_all add: forwarder_of_def sender_of_def get_participant_def)

lemma quiet_token_dispatches: "quiet (r, cx) (snd (token_dispatches token r), cx)"
  using sans_agents_fields [OF token_dispatches_room [of token r]]
    same_members_routes [of "snd (token_dispatches token r)" r]
  by (simp add: quiet_def same_room_def)

lemma subs_inv_join:
  assumes "subs_inv r" "get_participant (p_sid p) r = None" "m_forwarders (p_media p) = []"
    and "r_participants r' = put (p_sid p) p (r_participants r)"
  shows "subs_inv r'"
  unfolding subs_inv_def
proof (intro allI impI)
  have get: "get_participant k r' = (if k = p_sid p then Some p else get_participant k r)" for k
    by (simp add: get_participant_def assms(4))
  fix k t f s assume f: "forwarder_of k t r' = Some f" "look (f_subscribers f) s \<noteq> None"
  then have "forwarder_of k t r = Some f" using assms(3) by (simp add: forwarder_of_def get split: if_splits)
  then have "sender_of s t r \<noteq> None" using assms(1) f(2) unfolding subs_inv_def by blast
  then show "sender_of s t r' \<noteq> None" using assms(2) by (auto simp: sender_of_def get)
qed

lemma announce_join_simps:
  assumes "get_participant sid r = Some p"
  shows "quiet (r, cx) (fst (announce_join fj sid (r, cx)), cx)"
    "mt_room_total (cx_metrics (snd (announce_join fj sid (r, cx)))) = mt_room_total (cx_metrics cx)"
    "mt_participant_total (cx_metrics (snd (announce_join fj sid (r, cx)))) = mt_participant_total (cx_metrics cx) + 1"
proof -
  obtain info r1 where i: "info_of sid r = (Some info, r1)" using assms by (simp add: info_of_def)
  then have "quiet (r, cx) (r1, cx)" using quiet_info [of r cx sid] by simp
  then show "quiet (r, cx) (fst (announce_join fj sid (r, cx)), cx)"
    by (simp add: announce_join_def i Let_def quiet_then)
  show "mt_room_total (cx_metrics (snd (announce_join fj sid (r, cx)))) = mt_room_total (cx_metrics cx)"
    "mt_participant_total (cx_metrics (snd (announce_join fj sid (r, cx)))) = mt_participant_total (cx_metrics cx) + 1"
    by (simp_all add: announce_join_def i Let_def)
qed

lemma room_join_on_close [simp]: "r_on_close (snd (room_join now p r)) = r_on_close r"
  by (simp add: room_join_def room_bump_version_def Let_def)

lemma balanced_admit:
  assumes "get_participant (p_sid p) (fst s) = None" "m_forwarders (p_media p) = []"
  shows "balanced s (snd (admit now p token s))"
proof -
  obtain r cx where s: "s = (r, cx)" by fastforce
  define r1 where "r1 = snd (token_dispatches token r)"
  note f1 = sans_agents_fields [OF token_dispatches_room [of token r], folded r1_def]
  have b1: "balanced s (r1, cx)" unfolding s r1_def by (intro quiet_balanced quiet_token_dispatches)
  have fresh: "get_participant (p_sid p) r1 = None" using assms(1) f1(1) by (simp add: s get_participant_def)
  show ?thesis
  proof (cases rule: room_join_cases [of now p r1])
    case rejected
    then show ?thesis using b1 by (simp add: s admit_def split_def Let_def r1_def)
  next
    case (accepted r2)
    have a: "snd (admit now p token s) = announce_join (\<not> r_ever_joined r) (p_sid p) (r2, cx)"
      using accepted(1) by (simp add: s admit_def split_def Let_def r1_def)
    have p2: "get_participant (p_sid p) r2 = Some p" by (simp add: get_participant_def accepted(5))
    note an = announce_join_simps [OF p2, where cx = cx and fj = "\<not> r_ever_joined r"]
    let ?a = "announce_join (\<not> r_ever_joined r) (p_sid p) (r2, cx)"
    have q: "balanced (r2, cx) (fst ?a, cx)" by (rule quiet_balanced [OF an(1)])
    have sr: "same_room r2 (fst ?a)" using an(1) by (simp add: quiet_def)
    have oc: "r_on_close r2 = r_on_close r1" using room_join_on_close [of now p r1] accepted(1) by simp
    have open2: "open_room r2" if "open_room r1"
      using that room_inv_join [OF _ fresh, of now] subs_inv_join [OF _ fresh assms(2) accepted(5)] accepted(1,8) oc
      by (simp add: open_room_def)
    have "length (r_participants (fst ?a)) = Suc (length (r_participants r1))"
      using same_room_fst [OF sr, THEN arg_cong [of _ _ length]] accepted(5) fresh
      by (simp add: put_fresh get_participant_def)
    then show ?thesis
      using b1 q open2 accepted(10) sr an(2,3) by (auto simp: a balanced_def same_room_def)
  qed
qed

lemma joining_participant_simps [simp]:
  "p_sid (joining_participant draws now token params knd) = new_participant_sid draws"
  "p_identity (joining_participant draws now token params knd) = vt_identity token"
  "p_kind (joining_participant draws now token params knd) = knd"
  "p_media (joining_participant draws now token params knd) = media_default"
  "p_permission (joining_participant draws now token params knd) = permission_from_grant (vt_video token)"
  "p_auto_subscribe (joining_participant draws now token params knd) = ss_auto_subscribe params"
  by (simp_all add: joining_participant_def participant_new_def set_attributes_def Let_def split_def)

subsection \<open>Sessions\<close>

lemma balanced_ctx:
  "mt_room_total (cx_metrics cx') = mt_room_total (cx_metrics cx) \<Longrightarrow>
   mt_participant_total (cx_metrics cx') = mt_participant_total (cx_metrics cx) \<Longrightarrow> balanced (r, cx) (r, cx')"
  by (simp add: balanced_def)

lemma connection_totals [simp]:
  "mt_room_total (cx_metrics (connection_inc cx)) = mt_room_total (cx_metrics cx)"
  "mt_participant_total (cx_metrics (connection_inc cx)) = mt_participant_total (cx_metrics cx)"
  "mt_room_total (cx_metrics (connection_dec cx)) = mt_room_total (cx_metrics cx)"
  "mt_participant_total (cx_metrics (connection_dec cx)) = mt_participant_total (cx_metrics cx)"
  by (simp_all add: connection_inc_def connection_dec_def Let_def)

lemma quiet_subscribe_existing: "quiet s (subscribe_existing sid s)"
proof -
  obtain r cx where s: "s = (r, cx)" by fastforce
  have m: "quiet (r, cx) (upd_media sid setup_subscriber r, cx)" "quiet (r, cx) (upd_media sid request_subscriber_negotiation r, cx)" for r cx
    unfolding upd_media_def by (intro quiet_upd keeps_routes_media; simp add: keeps_identity_def)+
  let ?r1 = "upd_media sid setup_subscriber r"
  obtain r2 cx2 where f: "fold (\<lambda>(publisher, tid) s. snd (add_subscription sid tid publisher s)) (existing_tracks sid ?r1) (?r1, cx) = (r2, cx2)"
    by fastforce
  have "quiet (?r1, cx) (r2, cx2)"
    unfolding f [symmetric] by (rule quiet_fold) (simp add: split_def quiet_add)
  with m have "quiet (r, cx) (upd_media sid request_subscriber_negotiation r2, cx2)" by (blast intro: quiet_trans)
  then show ?thesis using f by (simp add: s subscribe_existing_def Let_def)
qed

lemma balanced_session_start: "balanced s (session_start env resume params sid s)"
proof -
  obtain r cx where s: "s = (r, cx)" by fastforce
  have 1: "balanced (r, cx) (upd sid set_signal_sink r, connection_inc cx)"
    by (rule balanced_trans [OF quiet_balanced [OF quiet_upd(1) [OF set_signal_sink_keeps]] balanced_ctx]) simp_all
  have 2: "balanced x (fold (\<lambda>(i, req). handle_participant_request (env i) sid req) reqs x)" for reqs x
    by (rule balanced_fold) (simp add: split_def balanced_request)
  show ?thesis
    using balanced_trans [OF balanced_trans [OF 1 2] quiet_balanced [OF quiet_subscribe_existing]] 1
    by (simp add: s session_start_def Let_def)
qed

lemma balanced_session_loop: "balanced s (session_loop sid reqs s)"
proof (induction sid reqs s rule: session_loop.induct)
  case (2 sid e req reqs s)
  then show ?case using balanced_request [of s e sid req] by (auto simp: Let_def intro: balanced_trans)
qed simp

lemma balanced_session_end: "balanced s (snd (session_end sid s))"
  by (cases s) (simp add: session_end_def balanced_ctx)

lemma balanced_grace_expired: "balanced s (grace_expired now gen sid s)"
  by (simp add: grace_expired_def balanced_end_participant split: option.split)

lemma balanced_launch_agents: "balanced s (launch_agents jwt env now ds s)"
  by (cases s) (simp add: launch_agents_def balanced_ctx)

lemma balanced_on_media_disconnected: "balanced s (on_media_disconnected now failed sid s)"
  by (simp add: on_media_disconnected_def balanced_end_participant)

section \<open>A sample server\<close>

definition sample_server :: server where
  "sample_server =
     \<lparr> sv_config = \<lparr> cf_empty_timeout = 300, cf_departure_timeout = 20, cf_max_participants = 0 \<rparr>, sv_region = [],
       sv_codecs = [''audio/opus''], sv_keys = [], sv_rooms = [(''r'', sample_room)],
       sv_ctx = sample_ctx\<lparr> cx_metrics := metrics_new\<lparr> mt_room_total := 1, mt_participant_total := 2 \<rparr> \<rparr>, sv_launches = [] \<rparr>"

definition sample_token :: "string \<Rightarrow> verified_token" where
  "sample_token identity =
     \<lparr> vt_api_key = ''k'', vt_identity = identity, vt_name = [], vt_metadata = [], vt_attributes = [], vt_kind = [],
       vt_video = video_grant_default\<lparr> vg_room_join := True, vg_room := ''r'' \<rparr>, vt_sip = \<lparr> sg_admin = False, sg_call = False \<rparr>,
       vt_room_config = None, vt_room_preset = [], vt_sha256 = [], vt_nbf = None \<rparr>"

definition sample_params :: session_params where
  "sample_params =
     \<lparr> ss_reconnect = False, ss_participant_sid = [], ss_auto_subscribe = True, ss_publish = False, ss_metadata = [],
       ss_attributes = [], ss_add_tracks = [], ss_publisher_offer = None, ss_sync_state = None \<rparr>"

lemma sample_room_fields: "r_name sample_room = ''r''" "\<not> r_closed sample_room" "r_on_close sample_room"
  "length (r_participants sample_room) = 2"
  by (simp_all add: sample_room_def room_new_def)

lemma sample_server_inv: "server_inv sample_server"
  by (simp add: server_inv_def sample_server_def room_ok_def sample_room_inv sample_room_fields participant_count_def
      look_def keys_distinct_def split: if_splits)

lemma get_sample_server [simp]: "get_room ''r'' sample_server = Some sample_room"
  by (simp add: get_room_def sample_server_def look_def)

section \<open>Properties\<close>

subsection \<open>Leaving\<close>

lemma get_participant_None: "get_participant k r = None \<longleftrightarrow> k \<notin> fst ` set (r_participants r)"
  by (simp add: get_participant_def look_def map_of_eq_None_iff)

lemma left_room_others:
  assumes "get_participant sid r = Some p"
  shows "get_participant k (left_room now info sid r) = None \<longleftrightarrow> k = sid \<or> get_participant k r = None"
  unfolding get_participant_None set_map [symmetric] left_room_simps(1) [OF assms] by (auto simp: set_del)

lemma mark_disconnected_simps [simp]:
  "p_sid (mark_disconnected reason p) = p_sid p"
  "p_identity (mark_disconnected reason p) = p_identity p"
  "p_state (mark_disconnected reason p) = Disconnected"
  "p_disconnected_reason (mark_disconnected reason p) = reason"
  "p_tx (mark_disconnected reason p) = None"
  by (simp_all add: mark_disconnected_def clear_signal_sink_def)

text \<open>C5: ending a participant of the room takes exactly this participant out, together
  with everything forwarded from it or to it, reports it once as left with the reason,
  and ending it a second time does nothing.\<close>

theorem end_participant_complete:
  assumes "room_inv r" "get_participant sid r = Some p" "end_participant now reason sid (r, cx) = (r', cx')"
  shows "get_participant sid r' = None
    \<and> (\<forall>k. k \<noteq> sid \<longrightarrow> (get_participant k r' = None) = (get_participant k r = None))
    \<and> (\<forall>k t f. forwarder_of k t r' = Some f \<longrightarrow> k \<noteq> sid \<and> look (f_subscribers f) sid = None)
    \<and> (\<exists>info. cx_webhooks cx' = cx_webhooks cx @ [WhParticipantLeft (room_to_proto r) info] \<and> pi_sid info = sid
         \<and> pi_identity info = p_identity p \<and> pi_state info = Disconnected \<and> pi_disconnect_reason info = reason)
    \<and> mt_participant_total (cx_metrics cx') = mt_participant_total (cx_metrics cx) - 1
    \<and> (\<forall>now' reason'. end_participant now' reason' sid (r', cx') = (r', cx'))"
proof -
  obtain info q where pr: "participant_to_proto (mark_disconnected reason p) = (info, q)" by fastforce
  have sid: "p_sid p = sid" using assms(1,2) by (simp add: room_inv_def members_inv_def get_participant_def)
  have i: "pi_sid info = sid" "pi_identity info = p_identity p" "pi_state info = Disconnected" "pi_disconnect_reason info = reason"
    using pr sid by (auto simp: participant_to_proto_def split_def Let_def)
  have e: "r' = left_room now info sid r"
    "cx' = emit (WhParticipantLeft (room_to_proto r) info) (session_duration now q (participant_total_dec cx))"
    using assms(3) by (simp_all add: end_participant_Some [OF assms(2)] pr)
  have gone: "get_participant sid r' = None" using left_room_others [OF assms(2)] by (simp add: e)
  show ?thesis
    using gone left_room_others [OF assms(2)] left_room_routes(1) [OF assms(2)] i end_participant_None [of sid "(r', cx')"]
    by (auto simp: e split: if_splits)
qed

theorem end_participant_complete_witness:
  "\<exists>r' cx'. end_participant 0 SignalClose ''PA_b'' (sample_room, sample_ctx) = (r', cx')
     \<and> get_participant ''PA_b'' r' = None \<and> get_participant ''PA_a'' r' \<noteq> None \<and> length (cx_webhooks cx') = 1"
proof -
  let ?e = "end_participant 0 SignalClose ''PA_b'' (sample_room, sample_ctx)"
  have "?e = (fst ?e, snd ?e)" by simp
  from end_participant_complete [OF sample_room_inv get_sample(2) this] have
    "get_participant ''PA_b'' (fst ?e) = None" "get_participant ''PA_a'' (fst ?e) \<noteq> None" "length (cx_webhooks (snd ?e)) = 1"
    by (auto simp: sample_ctx_def)
  then show ?thesis by (metis prod.collapse)
qed

subsection \<open>Joining\<close>

lemma left_room_look:
  assumes "get_participant sid r = Some p" "get_participant k (left_room now info sid r) = Some q'"
  shows "k \<noteq> sid \<and> (\<exists>q. get_participant k r = Some q \<and> member_key q' = member_key q)"
proof -
  have "k \<noteq> sid" using left_room_others [OF assms(1), of k now info] assms(2) by auto
  moreover have "same_room (on_participant_left now (snd (remove_participant now sid r))) (left_room now info sid r)"
    unfolding left_room_def by (rule same_room_left [OF same_room_trans [OF same_room_release same_room_broadcast]])
  from same_room_look [OF this, of k] assms \<open>k \<noteq> sid\<close> obtain q where "get_participant k r = Some q" "member_key q' = member_key q"
    by (cases "look (r_participants r) k") (auto simp: get_participant_def remove_participant_simps)
  ultimately show ?thesis by blast
qed

text \<open>The reports of a join about the session it replaces.\<close>

definition replaced_reports :: "string \<Rightarrow> room \<Rightarrow> webhook_event list \<Rightarrow> bool" where
  "replaced_reports identity r ws \<longleftrightarrow> length ws \<le> 1 \<and> (\<forall>w \<in> set ws. \<exists>info.
     w = WhParticipantLeft (room_to_proto (upd (pi_sid info) (close_signal DuplicateIdentity) r)) info
     \<and> pi_identity info = identity \<and> pi_disconnect_reason info = DuplicateIdentity)"

lemma room_inv_keys: "room_inv r \<Longrightarrow> keys_distinct (r_participants r)"
  by (simp add: room_inv_def members_inv_def)

lemma end_duplicate_spec:
  assumes "room_inv r" "end_duplicate now identity (r, cx) = (r', cx')"
  shows "room_inv r' \<and> r_name r' = r_name r \<and> r_closed r' = r_closed r \<and> r_ever_joined r' = r_ever_joined r
    \<and> (\<forall>k q. get_participant k r' = Some q \<longrightarrow> p_identity q \<noteq> identity)
    \<and> (\<forall>k. get_participant k r = None \<longrightarrow> get_participant k r' = None)
    \<and> (\<exists>left. cx_webhooks cx' = cx_webhooks cx @ left \<and> replaced_reports identity r left)"
proof (cases "get_participant_by_identity identity r")
  case None
  then have "\<forall>q \<in> set (participants r). p_identity q \<noteq> identity"
    by (auto simp: get_participant_by_identity_def find_None_iff)
  then have "\<forall>k q. get_participant k r = Some q \<longrightarrow> p_identity q \<noteq> identity"
    using look_participants [OF room_inv_keys [OF assms(1)]] by (auto simp: get_participant_def)
  then show ?thesis using assms None by (auto simp: end_duplicate_def replaced_reports_def)
next
  case (Some q)
  then have "q \<in> set (participants r)" "p_identity q = identity"
    by (auto simp: get_participant_by_identity_def find_Some_iff)
  then obtain k where k: "get_participant k r = Some q" using look_participants [OF room_inv_keys [OF assms(1)]] by (auto simp: get_participant_def)
  then have sid: "p_sid q = k" using assms(1) by (simp add: room_inv_def members_inv_def get_participant_def)
  define r1 where "r1 = upd k (close_signal DuplicateIdentity) r"
  have q1: "get_participant k r1 = Some (close_signal DuplicateIdentity q)" by (simp add: r1_def k)
  have sr: "same_room r r1" unfolding r1_def by (rule same_room_upd [OF close_signal_keeps(1)])
  have inv1: "room_inv r1" by (rule same_room_inv [OF sr assms(1)])
  obtain info p2 where pr: "participant_to_proto (mark_disconnected DuplicateIdentity (close_signal DuplicateIdentity q)) = (info, p2)"
    by fastforce
  have e: "r' = left_room now info k r1"
    "cx' = emit (WhParticipantLeft (room_to_proto r1) info) (session_duration now p2 (participant_total_dec cx))"
    using assms(2) Some by (simp_all add: end_duplicate_def sid r1_def [symmetric] end_participant_Some [OF q1] pr)
  have ck: "p_sid (close_signal DuplicateIdentity q) = k" "p_identity (close_signal DuplicateIdentity q) = identity"
    using close_signal_keeps(1) [of DuplicateIdentity] sid \<open>p_identity q = identity\<close> by (simp_all add: keeps_identity_def)
  have i: "pi_sid info = k" "pi_identity info = identity" "pi_disconnect_reason info = DuplicateIdentity"
    using pr ck by (auto simp: participant_to_proto_def split_def Let_def)
  have ids: "p_identity q' \<noteq> identity" if g: "get_participant l r' = Some q'" for l q'
  proof -
    obtain x where x: "l \<noteq> k" "get_participant l r1 = Some x" "member_key q' = member_key x"
      using left_room_look [OF q1, of l now info q'] g by (auto simp: e)
    then have "p_identity x \<noteq> p_identity (close_signal DuplicateIdentity q)"
      using inv1 q1 unfolding room_inv_def members_inv_def get_participant_def by blast
    then show ?thesis using x(3) ck by (simp add: member_key_def)
  qed
  have left: "\<exists>left. cx_webhooks cx' = cx_webhooks cx @ left \<and> replaced_reports identity r left"
    using i by (intro exI [where x = "[WhParticipantLeft (room_to_proto r1) info]"])
      (auto simp: e r1_def replaced_reports_def)
  have ever: "r_ever_joined r' = r_ever_joined r"
    using q1 sr by (simp add: e left_room_def broadcast_participant_update_def release_subscriber_def map_participants_def
        remove_participant_simps get_participant_def Let_def same_room_def)
  have none: "get_participant l r' = None" if "get_participant l r = None" for l
    using left_room_others [OF q1, of l now info] that by (simp add: e r1_def)
  show ?thesis
    using left_room_inv [OF q1 inv1] left_room_simps [OF q1, of now info] ids left ever none sr
    by (simp add: e same_room_def)
qed

lemma get_participant_broadcast:
  "get_participant k r = Some p \<Longrightarrow>
   \<exists>p'. get_participant k (broadcast_participant_update infos ex r) = Some p' \<and> member_key p' = member_key p
     \<and> p_permission p' = p_permission p"
  by (simp add: broadcast_participant_update_def member_key_def Let_def)

lemma announce_join_members:
  assumes "get_participant sid r = Some p" "announce_join fj sid (r, cx) = (r', cx')"
  shows "\<exists>p'. get_participant sid r' = Some p' \<and> member_key p' = member_key p \<and> p_permission p' = p_permission p"
    and "\<exists>info. pi_sid info = p_sid p \<and> pi_identity info = p_identity p
      \<and> cx_webhooks cx' = cx_webhooks cx @ (if fj then [WhRoomStarted (room_to_proto r)] else [])
           @ [WhParticipantJoined (room_to_proto r) info]"
proof -
  let ?info = "fst (participant_to_proto p)" and ?r1 = "upd sid (\<lambda>p. snd (participant_to_proto p)) r"
  have e: "r' = broadcast_participant_update [?info] (Some sid) ?r1"
    "cx' = emit (WhParticipantJoined (room_to_proto r) ?info)
       (participant_total_inc (if fj then emit (WhRoomStarted (room_to_proto r)) cx else cx))"
    using assms by (simp_all add: announce_join_def info_of_def Let_def)
  show "\<exists>p'. get_participant sid r' = Some p' \<and> member_key p' = member_key p \<and> p_permission p' = p_permission p"
    using get_participant_broadcast [of sid ?r1 "snd (participant_to_proto p)" "[?info]" "Some sid"] assms(1)
    by (simp add: e member_key_def)
  show "\<exists>info. pi_sid info = p_sid p \<and> pi_identity info = p_identity p
      \<and> cx_webhooks cx' = cx_webhooks cx @ (if fj then [WhRoomStarted (room_to_proto r)] else [])
           @ [WhParticipantJoined (room_to_proto r) info]"
    by (rule exI [where x = ?info]) (simp add: e)
qed

lemma look_member_key:
  assumes "same_room r r'" "get_participant k r' = Some q'"
  shows "\<exists>q. get_participant k r = Some q \<and> member_key q = member_key q'"
  using same_room_look [OF assms(1), of k] assms(2) by (cases "look (r_participants r) k") (auto simp: get_participant_def)

lemma admit_spec:
  assumes "room_inv r" "get_participant (p_sid p) r = None"
    and "\<forall>k q. get_participant k r = Some q \<longrightarrow> p_identity q \<noteq> p_identity p"
    and "admit now p token (r, cx) = (res, r', cx')"
  shows "case res of
      Inl e \<Rightarrow> e = ''room is full or closed'' \<and> (r_closed r \<or> \<not> is_dependent (p_kind p) \<and> is_full r)
        \<and> r_participants r' = r_participants r \<and> cx' = cx \<and> r_name r' = r_name r
    | Inr (sid, _) \<Rightarrow> sid = p_sid p \<and> r_name r' = r_name r
        \<and> (\<exists>p'. get_participant sid r' = Some p' \<and> member_key p' = member_key p \<and> p_permission p' = p_permission p)
        \<and> (\<forall>k q. get_participant k r' = Some q \<longrightarrow> p_identity q = p_identity p \<longrightarrow> k = sid)
        \<and> (\<exists>rp info. pi_sid info = p_sid p \<and> pi_identity info = p_identity p
             \<and> cx_webhooks cx' = cx_webhooks cx @ (if r_ever_joined r then [] else [WhRoomStarted rp]) @ [WhParticipantJoined rp info])"
proof -
  define r1 where "r1 = snd (token_dispatches token r)"
  note f1 = sans_agents_fields [OF token_dispatches_room [of token r], folded r1_def]
  have same: "participants r1 = participants r" "is_full r1 = is_full r"
    by (simp_all add: participants_def is_full_def real_count_def f1)
  show ?thesis
  proof (cases rule: room_join_cases [of now p r1])
    case rejected
    have "\<not> (\<exists>q \<in> set (participants r). p_identity q = p_identity p)"
      using assms(3) look_participants [OF room_inv_keys [OF assms(1)]] by (auto simp: get_participant_def)
    then have "r_closed r \<or> \<not> is_dependent (p_kind p) \<and> is_full r" using rejected(2) by (simp add: same f1)
    moreover have "res = Inl ''room is full or closed''" "r' = r1" "cx' = cx"
      using assms(4) rejected(1) by (simp_all add: admit_def split_def Let_def r1_def)
    ultimately show ?thesis by (simp add: f1)
  next
    case (accepted r2)
    have a: "res = Inr (p_sid p, fst (token_dispatches token r))"
      "announce_join (\<not> r_ever_joined r) (p_sid p) (r2, cx) = (r', cx')"
      using assms(4) accepted(1) by (auto simp: admit_def split_def Let_def r1_def)
    have g2: "get_participant k r2 = (if k = p_sid p then Some p else get_participant k r)" for k
      by (simp add: get_participant_def accepted(5) f1)
    have p2: "get_participant (p_sid p) r2 = Some p" by (simp add: g2)
    have sr: "same_room r2 r'" using announce_join_simps(1) [OF p2, of cx "\<not> r_ever_joined r"] a(2) by (simp add: quiet_def)
    have only: "k = p_sid p" if k: "get_participant k r' = Some q" "p_identity q = p_identity p" for k q
    proof (rule ccontr)
      assume "k \<noteq> p_sid p"
      moreover obtain x where "get_participant k r2 = Some x" "member_key x = member_key q"
        using look_member_key [OF sr k(1)] by blast
      ultimately show False using assms(3) k(2) by (auto simp: g2 member_key_def)
    qed
    have nm: "r_name r' = r_name r" using sr accepted(10) f1 by (simp add: same_room_def)
    obtain info where info: "pi_sid info = p_sid p" "pi_identity info = p_identity p"
      "cx_webhooks cx' = cx_webhooks cx @ (if \<not> r_ever_joined r then [WhRoomStarted (room_to_proto r2)] else [])
         @ [WhParticipantJoined (room_to_proto r2) info]"
      using announce_join_members(2) [OF p2 a(2)] by blast
    then show ?thesis
      using announce_join_members(1) [OF p2 a(2)] only nm unfolding a(1)
      by (auto intro!: exI [where x = "room_to_proto r2"] exI [where x = info])
  qed
qed

lemma get_set_room: "get_room nm (set_room r cx sv) =
    (if nm = r_name r then map_option (\<lambda>_. r) (get_room nm sv) else get_room nm sv)" "sv_ctx (set_room r cx sv) = cx"
  by (simp_all add: get_room_def set_room_def)

lemma get_or_create_room_spec:
  assumes "server_inv sv" "get_or_create_room draws now nm sv = (r, sv1)"
  shows "get_room nm sv1 = Some r" "room_inv r" "r_name r = nm" "\<not> r_closed r"
    and "cx_webhooks (sv_ctx sv1) = cx_webhooks (sv_ctx sv)"
    and "get_room nm sv = Some r \<or> r_participants r = []"
proof -
  have "get_room nm sv1 = Some r \<and> cx_webhooks (sv_ctx sv1) = cx_webhooks (sv_ctx sv)
      \<and> (get_room nm sv = Some r \<or> r_participants r = [])"
    using assms(2) by (auto simp: get_or_create_room_def get_room_def room_new_def Let_def split: option.splits)
  moreover have "room_ok nm r"
    using server_inv_create [OF assms(1), of draws now nm] calculation assms(2)
    by (simp add: server_inv_def get_room_def)
  ultimately show "get_room nm sv1 = Some r" "room_inv r" "r_name r = nm" "\<not> r_closed r"
    and "cx_webhooks (sv_ctx sv1) = cx_webhooks (sv_ctx sv)" and "get_room nm sv = Some r \<or> r_participants r = []"
    by (simp_all add: room_ok_def)
qed


lemma sample_token_fields [simp]:
  "vg_room (vt_video (sample_token i)) = ''r''" "vt_identity (sample_token i) = i"
  "i \<noteq> [] \<Longrightarrow> join_denied (sample_token i) sample_params = None"
  by (simp_all add: sample_token_def join_denied_def token_can_subscribe_def video_grant_default_def unwrap_or_def)


subsection \<open>Resuming\<close>

lemma session_end_gen:
  assumes "session_end sid (r, cx) = (Some gen, r1, cx1)"
  shows "\<exists>p. get_participant sid r = Some p \<and> gen = p_resume_gen p \<and> r1 = r"
  using assms by (cases "get_participant sid r"; cases "session_over sid r"; simp add: session_end_def)



text \<open>A session that notices the end of its connection only after the participant was
  resumed captures the generation of the new session: its grace period ends the
  resumed participant.\<close>

lemma late_session_end_ends_resumed:
  assumes "get_participant sid r = Some p" "p_state p \<noteq> Disconnected"
    and "r' = upd sid (\<lambda>p. p\<lparr> p_resume_gen := p_resume_gen p + 1 \<rparr>) r"
  shows "\<exists>gen. session_end sid (r', cx) = (Some gen, r', connection_dec cx)
     \<and> get_participant sid (fst (grace_expired now gen sid (r', connection_dec cx))) = None"
proof -
  have p': "get_participant sid r' = Some (p\<lparr> p_resume_gen := p_resume_gen p + 1 \<rparr>)" by (simp add: assms)
  have "get_participant sid (fst (end_participant now SignalClose sid (r', connection_dec cx))) = None"
    using left_room_others [OF p'] by (simp add: end_participant_Some [OF p'] split_def Let_def)
  then show ?thesis using p' assms(2) by (simp add: session_end_def session_over_def grace_expired_def)
qed

subsection \<open>Publishing\<close>

lemma p_send_open:
  assumes "p_tx p = Some k" "sk_open k"
  shows "p_sent (snd (p_send m p)) = p_sent p @ [m]" "p_tracks (snd (p_send m p)) = p_tracks p"
    "p_tracks_by_cid (snd (p_send m p)) = p_tracks_by_cid p"
  using assms by (simp_all add: p_send_def)

text \<open>C10: a request to publish is answered exactly once on an open channel: with
  \<open>NotAllowed\<close> when the participant may not publish, with \<open>UnsupportedType\<close> when the track
  is not audio, both leaving its tracks alone, and otherwise with the new track, which is
  registered under its own id and under the client's id and is what the request asked
  for.\<close>

theorem publish_request_answered:
  assumes "p_tx p = Some k" "sk_open k" "handle_add_track draws now req p = p'"
  shows "if \<not> pm_can_publish (p_permission p) then
       p_sent p' = p_sent p @ [RespRequestResponse NotAllowed req] \<and> p_tracks p' = p_tracks p
     else if at_type req \<noteq> 0 then
       p_sent p' = p_sent p @ [RespRequestResponse UnsupportedType req] \<and> p_tracks p' = p_tracks p
     else (\<exists>t. p_sent p' = p_sent p @ [RespTrackPublished (at_cid req) (track_to_proto t)]
        \<and> get_track (new_track_sid draws) p' = Some t \<and> get_track_by_cid (at_cid req) p' = Some t
        \<and> t_sid t = new_track_sid draws \<and> t_cid t = at_cid req \<and> t_name t = at_name req \<and> t_muted t = at_muted req
        \<and> t_source t = source_from_proto (at_source req) \<and> (t_red_enabled t \<longleftrightarrow> \<not> at_disable_red req))"
proof -
  let ?t = "requested_track draws now req"
  have t: "t_sid ?t = new_track_sid draws" "t_cid ?t = at_cid req" "t_name ?t = at_name req" "t_muted ?t = at_muted req"
    "t_source ?t = source_from_proto (at_source req)" "t_red_enabled ?t = (\<not> at_disable_red req)"
    by (simp_all add: requested_track_def track_new_def track_set_muted_def track_bump_version_def Let_def)
  have a: "p_tx (add_track ?t p) = Some k" "p_sent (add_track ?t p) = p_sent p"
    "look (p_tracks (add_track ?t p)) (new_track_sid draws) = Some ?t"
    "look (p_tracks_by_cid (add_track ?t p)) (at_cid req) = Some (new_track_sid draws)"
    using assms(1) by (simp_all add: add_track_def t)
  note s = p_send_open [OF assms(1,2)] and sa = p_send_open [OF a(1) assms(2)]
  show ?thesis
    using assms(3) t
    by (auto simp: handle_add_track_def send_request_response_def TRACK_TYPE_AUDIO_def s sa a get_track_def
        get_track_by_cid_def Let_def)
qed

theorem publish_request_answered_witness:
  "\<exists>t p'. handle_add_track [2] 0
       \<lparr> at_cid = ''c1'', at_name = ''mic'', at_type = 0, at_source = 2, at_stream = [], at_muted = True, at_disable_red = False,
         at_encryption = 0, at_stereo = False, at_disable_dtx = False, at_audio_features = [], at_backup_codec_policy = 0 \<rparr>
       (set_signal_sink (sample_participant ''PA_b'' ''bob'')) = p'
     \<and> get_track_by_cid ''c1'' p' = Some t \<and> t_muted t \<and> t_source t = Microphone
     \<and> p_sent p' = [RespTrackPublished ''c1'' (track_to_proto t)]"
proof -
  let ?p = "set_signal_sink (sample_participant ''PA_b'' ''bob'')"
  have "p_tx ?p = Some \<lparr> sk_queued = 0, sk_open = True \<rparr>" by (simp add: set_signal_sink_def)
  from publish_request_answered [OF this _ refl, of "[2]" 0 "\<lparr> at_cid = ''c1'', at_name = ''mic'', at_type = 0, at_source = 2,
      at_stream = [], at_muted = True, at_disable_red = False, at_encryption = 0, at_stereo = False, at_disable_dtx = False,
      at_audio_features = [], at_backup_codec_policy = 0 \<rparr>"]
  show ?thesis
    by (auto simp: set_signal_sink_def sample_participant_def participant_new_def source_from_proto_def)
qed

subsection \<open>Reading requests\<close>

text \<open>A frame the reader takes: within the limit and decodable.\<close>

fun accepted_frame ::
    "(8 word list \<Rightarrow> signal_request option) \<Rightarrow> (string \<Rightarrow> signal_request option) \<Rightarrow> nat \<Rightarrow> ws_event \<Rightarrow> signal_request option" where
  "accepted_frame dp dj limit (WsFrame (WsBinary bytes)) = (if length bytes \<le> limit then dp bytes else None)"
| "accepted_frame dp dj limit (WsFrame (WsText txt)) = (if length txt \<le> limit then dj txt else None)"
| "accepted_frame dp dj limit _ = None"

fun oversized :: "nat \<Rightarrow> ws_event \<Rightarrow> bool" where
  "oversized limit (WsFrame (WsBinary bytes)) \<longleftrightarrow> limit < length bytes"
| "oversized limit (WsFrame (WsText txt)) \<longleftrightarrow> limit < length txt"
| "oversized limit _ \<longleftrightarrow> False"

definition skipped_frame :: "ws_event \<Rightarrow> bool" where
  "skipped_frame ev \<longleftrightarrow> ev = WsFrame WsPing \<or> ev = WsFrame WsPong"

lemma ws_next_step:
  "skipped_frame ev \<Longrightarrow> ws_next_request dp dj limit (ev # evs) w = ws_next_request dp dj limit evs w"
  "accepted_frame dp dj limit ev = Some req \<Longrightarrow>
     \<exists>w'. ws_next_request dp dj limit (ev # evs) w = (Some req, evs, w') \<and> ws_close_code w' = ws_close_code w"
  "\<not> skipped_frame ev \<Longrightarrow> accepted_frame dp dj limit ev = None \<Longrightarrow>
     \<exists>w'. ws_next_request dp dj limit (ev # evs) w = (None, evs, w')
       \<and> ws_close_code w' = (if oversized limit ev then 1009 else ws_close_code w)"
  by (cases "(dp, dj, limit, ev)" rule: accepted_frame.cases; auto simp: skipped_frame_def Let_def split: if_splits)+

text \<open>C9: the reader of a websocket hands the requests of the decodable frames within
  the size limit to the session, in their order and skipping pings and pongs, until the
  first event that is neither: there it ends for good, with close code 1009 exactly
  when that event is a frame over the limit.\<close>

theorem websocket_requests_in_order:
  assumes "\<forall>ev \<in> set evs. skipped_frame ev \<or> accepted_frame dp dj limit ev \<noteq> None"
    and "\<not> skipped_frame stop" "accepted_frame dp dj limit stop = None"
    and "ws_requests dp dj limit (evs @ stop # rest) w = (reqs, w')"
  shows "reqs = List.map_filter (accepted_frame dp dj limit) evs
    \<and> ws_close_code w' = (if oversized limit stop then 1009 else ws_close_code w)"
  using assms(1,4)
proof (induction evs arbitrary: w reqs w')
  case Nil
  then show ?case
    using ws_next_step(3) [OF assms(2,3), of rest w] by (auto simp: List.map_filter_def)
next
  case (Cons ev evs)
  show ?case
  proof (cases "skipped_frame ev")
    case True
    then have "accepted_frame dp dj limit ev = None" by (auto simp: skipped_frame_def)
    moreover have "ws_requests dp dj limit (evs @ stop # rest) w = (reqs, w')"
      using Cons.prems(2) ws_next_step(1) [OF True] by (subst ws_requests.simps, subst (asm) ws_requests.simps) simp
    ultimately show ?thesis using Cons.IH Cons.prems(1) by (simp add: map_filter_simps)
  next
    case False
    then obtain req where a: "accepted_frame dp dj limit ev = Some req" using Cons.prems(1) by auto
    then obtain w1 where n: "ws_next_request dp dj limit (ev # evs @ stop # rest) w = (Some req, evs @ stop # rest, w1)"
      "ws_close_code w1 = ws_close_code w" using ws_next_step(2) by blast
    obtain reqs1 w2 where r: "ws_requests dp dj limit (evs @ stop # rest) w1 = (reqs1, w2)" by fastforce
    have "reqs = req # reqs1" "w' = w2"
      using Cons.prems(2) n r by (subst (asm) ws_requests.simps, simp)+
    then show ?thesis using Cons.IH [OF _ r] Cons.prems(1) a n(2) by (simp add: map_filter_simps)
  qed
qed

theorem websocket_requests_in_order_witness:
  "fst (ws_requests (\<lambda>_. Some ReqTrackSetting) (\<lambda>_. None) 3 [WsFrame WsPing, WsFrame (WsBinary [0]), WsFrame (WsText ''abcd''), WsEof]
     \<lparr> ws_json = False, ws_close_code = 1000 \<rparr>) = [ReqTrackSetting]"
proof -
  let ?w = "\<lparr> ws_json = False, ws_close_code = 1000 \<rparr>" and ?dp = "\<lambda>_ :: 8 word list. Some ReqTrackSetting"
    and ?dj = "\<lambda>_ :: string. None :: signal_request option"
  let ?r = "ws_requests ?dp ?dj 3 ([WsFrame WsPing, WsFrame (WsBinary [0])] @ WsFrame (WsText ''abcd'') # [WsEof]) ?w"
  have "?r = (fst ?r, snd ?r)" by simp
  from websocket_requests_in_order [OF _ _ _ this]
  show ?thesis by (simp add: skipped_frame_def map_filter_simps del: ws_requests.simps)
qed

subsection \<open>The join response\<close>

lemma infos_of_spec:
  assumes "distinct ks" "\<forall>k \<in> set ks. get_participant k r \<noteq> None"
  shows "map pi_sid (fst (infos_of ks r)) = map (\<lambda>k. p_sid (the (get_participant k r))) ks
     \<and> map pi_permission (fst (infos_of ks r)) = map (\<lambda>k. p_permission (the (get_participant k r))) ks
     \<and> same_room r (snd (infos_of ks r))"
  using assms
proof (induction ks arbitrary: r)
  case Nil
  show ?case by (simp add: same_room_def)
next
  case (Cons k ks)
  obtain p where p: "get_participant k r = Some p" using Cons.prems(2) by auto
  let ?r1 = "snd (info_of k r)"
  have g: "get_participant l ?r1 = get_participant l r" if "l \<in> set ks" for l
    using that Cons.prems(1) by (auto simp: get_participant_info)
  have i: "info_of k r = (Some (fst (participant_to_proto p)), ?r1)" using p by (simp add: info_of_def)
  have m: "map (\<lambda>k. p_sid (the (get_participant k ?r1))) ks = map (\<lambda>k. p_sid (the (get_participant k r))) ks"
    "map (\<lambda>k. p_permission (the (get_participant k ?r1))) ks = map (\<lambda>k. p_permission (the (get_participant k r))) ks"
    by (simp_all add: g)
  have "\<forall>l \<in> set ks. get_participant l ?r1 \<noteq> None" using Cons.prems(2) by (simp add: g)
  with Cons.IH [of ?r1] Cons.prems(1) have ih:
    "map pi_sid (fst (infos_of ks ?r1)) = map (\<lambda>k. p_sid (the (get_participant k r))) ks"
    "map pi_permission (fst (infos_of ks ?r1)) = map (\<lambda>k. p_permission (the (get_participant k r))) ks"
    "same_room ?r1 (snd (infos_of ks ?r1))" unfolding m by simp_all
  have "infos_of (k # ks) r = (fst (participant_to_proto p) # fst (infos_of ks ?r1), snd (infos_of ks ?r1))"
    by (subst infos_of.simps, subst i) (simp add: split_def Let_def)
  then show ?case using ih same_room_trans [OF same_room_info [of r k] ih(3)] p by simp
qed

lemma build_join_response_fields:
  assumes "infos_of (visible_others sid r) r = (others, r1)" "info_of sid r1 = (Some info, r2)"
  shows "\<exists>jr. build_join_response ice sv sid r = (Some jr, r2) \<and> jr_participant jr = info \<and> jr_other_participants jr = others"
  by (simp add: build_join_response_def assms)

text \<open>C11: the response to a join lists the other participants of the room that are not
  hidden, every one of them once and nobody else, and the joining participant itself
  separately.\<close>

theorem join_response_lists_visible:
  assumes "room_inv r" "get_participant sid r = Some p" "build_join_response ice sv sid r = (resp, r')"
  shows "\<exists>jr. resp = Some jr
    \<and> pi_sid (jr_participant jr) = sid
    \<and> distinct (map pi_sid (jr_other_participants jr))
    \<and> (\<forall>k. k \<in> set (map pi_sid (jr_other_participants jr)) \<longleftrightarrow>
         k \<noteq> sid \<and> (\<exists>q. get_participant k r = Some q \<and> \<not> pm_hidden (p_permission q)))
    \<and> list_all (\<lambda>i. \<not> pm_hidden (pi_permission i)) (jr_other_participants jr)
    \<and> same_room r r'"
proof -
  have kd: "keys_distinct (r_participants r)" by (rule room_inv_keys [OF assms(1)])
  have key: "p_sid q = k" if "get_participant k r = Some q" for k q
    using assms(1) that by (simp add: room_inv_def members_inv_def get_participant_def)
  let ?ks = "visible_others sid r"
  have mem: "k \<in> set ?ks \<longleftrightarrow> k \<noteq> sid \<and> (\<exists>q. get_participant k r = Some q \<and> \<not> pm_hidden (p_permission q))" for k
  proof -
    have "k \<in> set ?ks \<longleftrightarrow> (\<exists>q. (k, q) \<in> set (r_participants r) \<and> k \<noteq> sid \<and> \<not> pm_hidden (p_permission q))"
      by (auto simp: visible_others_def image_iff)
    then show ?thesis by (auto simp: get_participant_def look_Some_iff [OF kd])
  qed
  have dist: "distinct ?ks" using kd by (simp add: visible_others_def keys_distinct_def distinct_map_filter)
  obtain others r1 where o: "infos_of ?ks r = (others, r1)" by fastforce
  have "\<forall>k \<in> set ?ks. get_participant k r \<noteq> None" using mem by auto
  note spec = infos_of_spec [OF dist this, unfolded o fst_conv snd_conv]
  have vis_key: "p_sid (the (get_participant k r)) = k \<and> \<not> pm_hidden (p_permission (the (get_participant k r)))" if "k \<in> set ?ks" for k
    using that mem [of k] key [of k] by auto
  have sids: "map pi_sid others = ?ks"
    unfolding conjunct1 [OF spec] by (rule map_idI) (use vis_key in blast)
  have "\<forall>x \<in> set (map pi_permission others). \<not> pm_hidden x"
    unfolding conjunct1 [OF conjunct2 [OF spec]] set_map using vis_key by blast
  then have vis: "list_all (\<lambda>i. \<not> pm_hidden (pi_permission i)) others" by (simp add: list_all_iff)
  obtain p1 where p1: "get_participant sid r1 = Some p1" "member_key p1 = member_key p"
    using same_room_look [OF conjunct2 [OF conjunct2 [OF spec]], of sid] assms(2)
    by (cases "look (r_participants r1) sid") (auto simp: get_participant_def)
  have "p_sid p1 = sid" using p1(2) key [OF assms(2)] by (simp add: member_key_def)
  then obtain info r2 where i: "info_of sid r1 = (Some info, r2)" "pi_sid info = sid" using p1(1) by (simp add: info_of_def)
  have "same_room r r2" using same_room_trans [OF conjunct2 [OF conjunct2 [OF spec]] same_room_info [of r1 sid]] i by simp
  moreover have "r' = r2" "\<exists>jr. resp = Some jr \<and> jr_participant jr = info \<and> jr_other_participants jr = others"
    using assms(3) build_join_response_fields [OF o i(1), of ice sv] by auto
  moreover have "distinct (map pi_sid others)" "\<forall>k. k \<in> set (map pi_sid others) \<longleftrightarrow>
      k \<noteq> sid \<and> (\<exists>q. get_participant k r = Some q \<and> \<not> pm_hidden (p_permission q))"
    unfolding sids using dist mem by blast+
  ultimately show ?thesis using i(2) vis by (elim exE conjE, hypsubst_thin) (rule exI, intro conjI, rule refl, simp_all)
qed

theorem join_response_lists_visible_witness:
  "\<exists>jr. fst (build_join_response (\<lambda>_. []) sample_server ''PA_b'' sample_room) = Some jr
     \<and> set (map pi_sid (jr_other_participants jr)) = {''PA_a''}"
proof -
  let ?b = "build_join_response (\<lambda>_. []) sample_server ''PA_b'' sample_room"
  have "?b = (fst ?b, snd ?b)" by simp
  from join_response_lists_visible [OF sample_room_inv get_sample(2) this] obtain jr where
    "fst ?b = Some jr" and m: "\<forall>k. k \<in> set (map pi_sid (jr_other_participants jr)) \<longleftrightarrow>
         k \<noteq> ''PA_b'' \<and> (\<exists>q. get_participant k sample_room = Some q \<and> \<not> pm_hidden (p_permission q))"
    by (elim exE conjE) (rule that, assumption, assumption)
  moreover have "set (map pi_sid (jr_other_participants jr)) = {''PA_a''}"
  proof (rule set_eqI)
    fix k
    have "get_participant k sample_room = None" if "k \<noteq> ''PA_a''" "k \<noteq> ''PA_b''"
      using that by (simp add: get_participant_None sample_room_def)
    then show "k \<in> set (map pi_sid (jr_other_participants jr)) \<longleftrightarrow> k \<in> {''PA_a''}"
      unfolding m [rule_format] by (cases "k = ''PA_a''"; cases "k = ''PA_b''"; simp add: sample_participant_def permission_default_def)
  qed
  ultimately show ?thesis by blast
qed

end
