(* ===== verification/Twirp.thy ===== *)
theory Twirp
  imports Signal
begin

text \<open>
  The HTTP front (\<open>lk-server/src/http.rs\<close>): Twirp errors, content negotiation,
  authentication of a request, and the checks and parameters of a signalling
  connection.  Token verification, base64, protobuf and gzip decoding are parameters.
\<close>

section \<open>Errors\<close>

record twirp_error =
  te_code :: string
  te_status :: nat
  te_msg :: string

definition invalid_argument :: "string \<Rightarrow> twirp_error" where
  "invalid_argument msg = \<lparr> te_code = ''invalid_argument'', te_status = 400, te_msg = msg \<rparr>"
definition not_found :: "string \<Rightarrow> twirp_error" where
  "not_found msg = \<lparr> te_code = ''not_found'', te_status = 404, te_msg = msg \<rparr>"
definition permission_denied :: "string \<Rightarrow> twirp_error" where
  "permission_denied msg = \<lparr> te_code = ''permission_denied'', te_status = 403, te_msg = msg \<rparr>"
definition unauthenticated :: "string \<Rightarrow> twirp_error" where
  "unauthenticated msg = \<lparr> te_code = ''unauthenticated'', te_status = 401, te_msg = msg \<rparr>"
definition already_exists :: "string \<Rightarrow> twirp_error" where
  "already_exists msg = \<lparr> te_code = ''already_exists'', te_status = 409, te_msg = msg \<rparr>"
definition failed_precondition :: "string \<Rightarrow> twirp_error" where
  "failed_precondition msg = \<lparr> te_code = ''failed_precondition'', te_status = 400, te_msg = msg \<rparr>"
definition deadline_exceeded :: "string \<Rightarrow> twirp_error" where
  "deadline_exceeded msg = \<lparr> te_code = ''deadline_exceeded'', te_status = 504, te_msg = msg \<rparr>"
definition unavailable :: "string \<Rightarrow> twirp_error" where
  "unavailable msg = \<lparr> te_code = ''unavailable'', te_status = 503, te_msg = msg \<rparr>"
definition resource_exhausted :: "string \<Rightarrow> twirp_error" where
  "resource_exhausted msg = \<lparr> te_code = ''resource_exhausted'', te_status = 429, te_msg = msg \<rparr>"
definition unimplemented :: "string \<Rightarrow> twirp_error" where
  "unimplemented msg = \<lparr> te_code = ''unimplemented'', te_status = 501, te_msg = msg \<rparr>"
definition bad_route :: "string \<Rightarrow> twirp_error" where
  "bad_route msg = \<lparr> te_code = ''bad_route'', te_status = 404, te_msg = msg \<rparr>"
definition internal_error :: "string \<Rightarrow> twirp_error" where
  "internal_error msg = \<lparr> te_code = ''internal'', te_status = 500, te_msg = msg \<rparr>"

lemmas twirp_errors = invalid_argument_def not_found_def permission_denied_def unauthenticated_def already_exists_def
  failed_precondition_def deadline_exceeded_def unavailable_def resource_exhausted_def unimplemented_def bad_route_def
  internal_error_def

section \<open>Requests\<close>

datatype wire_format = Json | Protobuf

definition format_from :: "string option \<Rightarrow> (twirp_error, wire_format) result" where
  "format_from content_type =
     (let ct = unwrap_or [] content_type in
      if str_contains ''application/protobuf'' ct then Inr Protobuf
      else if ct = [] \<or> str_contains ''application/json'' ct then Inr Json
      else Inl (bad_route (''unsupported content type: '' @ ct)))"

definition auth_twirp_error :: "auth_error \<Rightarrow> twirp_error" where
  "auth_twirp_error e =
     (case e of
        MissingAuthorization \<Rightarrow> unauthenticated ''missing authorization''
      | InvalidAuthorization \<Rightarrow> unauthenticated ''invalid authorization''
      | InvalidApiKey \<Rightarrow> unauthenticated ''invalid api key''
      | InvalidToken msg \<Rightarrow> unauthenticated msg)"

text \<open>The token of a request: the header if it is there and not blank, else the
  parameter; a \<open>Bearer\<close> prefix is taken off if there is one.\<close>

definition request_token :: "string option \<Rightarrow> attrs \<Rightarrow> (twirp_error, string) result" where
  "request_token header params =
     (let token = Option.bind header (\<lambda>h. if trim h = [] then None else Some (trim h))
      in (case or_else token (look params ''access_token'') of
            None \<Rightarrow> Inl (unauthenticated ''missing authorization'')
          | Some t \<Rightarrow> Inr (case bearer_token (Some t) of Inr b \<Rightarrow> b | Inl _ \<Rightarrow> t)))"

definition authenticate ::
    "(string \<Rightarrow> (auth_error, verified_token) result) \<Rightarrow> string option \<Rightarrow> attrs \<Rightarrow> (twirp_error, verified_token) result" where
  "authenticate check header params =
     ebind (request_token header params) (\<lambda>token.
     (case check token of Inl e \<Rightarrow> Inl (auth_twirp_error e) | Inr t \<Rightarrow> Inr t))"

definition validate_rtc ::
    "(string \<Rightarrow> (auth_error, verified_token) result) \<Rightarrow> string option \<Rightarrow> attrs \<Rightarrow> (twirp_error, unit) result" where
  "validate_rtc check header params =
     ebind (authenticate check header params) (\<lambda>token.
     if vg_room_join (vt_video token) then Inr () else Inl (unauthenticated ''no permissions to access the room''))"

definition agent_ws ::
    "(string \<Rightarrow> (auth_error, verified_token) result) \<Rightarrow> string option \<Rightarrow> attrs \<Rightarrow> (twirp_error, verified_token) result" where
  "agent_ws check header params =
     ebind (authenticate check header params) (\<lambda>token.
     if vg_agent (vt_video token) then Inr token else Inl (unauthenticated ''no permissions to access the room''))"

section \<open>Signalling connections\<close>

record join_request =
  jq_reconnect :: bool
  jq_participant_sid :: string
  jq_metadata :: string
  jq_attributes :: attrs
  jq_add_tracks :: "add_track_request list"
  jq_publisher_offer :: "session_description option"
  jq_sync_state :: "published_track_msg list option"
  jq_auto_subscribe :: "bool option"

text \<open>The decoders the server uses: base64, the wrapper (compression and payload), gzip
  reading at most so many bytes, and the join request.\<close>

record join_codec =
  jc_base64 :: "string \<Rightarrow> 8 word list option"
  jc_wrapper :: "8 word list \<Rightarrow> (int \<times> 8 word list) option"
  jc_gunzip :: "nat \<Rightarrow> 8 word list \<Rightarrow> 8 word list option"
  jc_request :: "8 word list \<Rightarrow> join_request option"

definition server_limit :: nat where
  "server_limit = 2 * 1024 * 1024"

definition COMPRESSION_GZIP :: int where "COMPRESSION_GZIP = 1"

definition join_payload :: "join_codec \<Rightarrow> int \<times> 8 word list \<Rightarrow> (twirp_error, 8 word list) result" where
  "join_payload jc w =
     (let (compression, raw) = w in
      if compression = COMPRESSION_GZIP then
        (case jc_gunzip jc (server_limit + 1) raw of
           None \<Rightarrow> Inl (invalid_argument ''failed to decompress join request'')
         | Some out \<Rightarrow>
             if server_limit < length out then Inl (invalid_argument ''join request too large'') else Inr out)
      else Inr raw)"

definition unwrap_join_request :: "join_codec \<Rightarrow> attrs \<Rightarrow> (twirp_error, join_request) result" where
  "unwrap_join_request jc params =
     ebind (ok_or (invalid_argument ''missing join_request'') (look params ''join_request'')) (\<lambda>b64.
     ebind (ok_or (invalid_argument ''invalid join_request encoding'') (jc_base64 jc b64)) (\<lambda>bytes.
     ebind (ok_or (invalid_argument ''invalid wrapped join request'') (jc_wrapper jc bytes)) (\<lambda>w.
     ebind (join_payload jc w) (\<lambda>payload.
     ok_or (invalid_argument ''invalid join request'') (jc_request jc payload)))))"

definition flag_param :: "attrs \<Rightarrow> string \<Rightarrow> bool \<Rightarrow> bool" where
  "flag_param params key dflt =
     (case look params key of None \<Rightarrow> dflt | Some v \<Rightarrow> v = ''1'' \<or> v = ''true'')"

definition build_session_params :: "join_codec \<Rightarrow> attrs \<Rightarrow> bool \<Rightarrow> (twirp_error, session_params) result" where
  "build_session_params jc params is_v1 =
     (let session = \<lparr> ss_reconnect = flag_param params ''reconnect'' False, ss_participant_sid = unwrap_or [] (look params ''sid''),
                      ss_auto_subscribe = flag_param params ''auto_subscribe'' True, ss_publish = flag_param params ''publish'' True,
                      ss_metadata = [], ss_attributes = [], ss_add_tracks = [], ss_publisher_offer = None, ss_sync_state = None \<rparr>
      in if is_v1 then
           ebind (unwrap_join_request jc params) (\<lambda>jq.
           Inr (session\<lparr> ss_reconnect := jq_reconnect jq, ss_participant_sid := jq_participant_sid jq, ss_metadata := jq_metadata jq,
                  ss_attributes := jq_attributes jq, ss_add_tracks := jq_add_tracks jq, ss_publisher_offer := jq_publisher_offer jq,
                  ss_sync_state := jq_sync_state jq,
                  ss_auto_subscribe := (case jq_auto_subscribe jq of None \<Rightarrow> ss_auto_subscribe session | Some b \<Rightarrow> b) \<rparr>))
         else Inr session)"

text \<open>A refused connection: a Twirp error, or the plain answer of a full room.\<close>

datatype ws_refusal = RefuseTwirp twirp_error | RefuseFull

definition merge_params :: "attrs \<Rightarrow> attrs \<Rightarrow> attrs" where
  "merge_params query form = fold (\<lambda>(k, v) m. if look m k = None then put k v m else m) form query"

definition rtc_ws_impl ::
    "(string \<Rightarrow> (auth_error, verified_token) result) \<Rightarrow> join_codec \<Rightarrow> string option \<Rightarrow> attrs \<Rightarrow> attrs \<Rightarrow> bool \<Rightarrow> server
     \<Rightarrow> (ws_refusal, verified_token \<times> session_params) result" where
  "rtc_ws_impl check jc header query form is_v1 sv =
     (let params = merge_params query form in
      (case authenticate check header params of
         Inl e \<Rightarrow> Inl (RefuseTwirp e)
       | Inr token \<Rightarrow>
           if \<not> vg_room_join (vt_video token) then Inl (RefuseTwirp (unauthenticated ''no permissions to access the room''))
           else if vg_room (vt_video token) = [] then Inl (RefuseTwirp (invalid_argument ''room is required''))
           else if vt_identity token = [] then Inl (RefuseTwirp (invalid_argument ''identity is required''))
           else if (case get_room (vg_room (vt_video token)) sv of None \<Rightarrow> False | Some r \<Rightarrow> is_full r) then Inl RefuseFull
           else (case build_session_params jc params is_v1 of
                   Inl e \<Rightarrow> Inl (RefuseTwirp e)
                 | Inr session \<Rightarrow> Inr (token, session))))"

text \<open>The session of an admitted connection on the node that hosts the room: a reconnect
  resumes the participant if it can, otherwise the room is joined; after a failed join
  of a room that does not exist here the claim of the room is given back.\<close>

datatype session_outcome = Resumed string | Joined_as string "room_agent_dispatch list" | Refused string

definition run_session_join ::
    "(nat \<Rightarrow> nat list) \<Rightarrow> int \<Rightarrow> verified_token \<Rightarrow> session_params \<Rightarrow> server \<Rightarrow> session_outcome \<times> server" where
  "run_session_join draws now token params sv =
     (case (if ss_reconnect params then resume_room_participant token params sv else (None, sv)) of
        (Some sid, sv) \<Rightarrow> (Resumed sid, sv)
      | (None, sv) \<Rightarrow>
          (case join_room draws now token params (participant_kind_from_token token) sv of
             (Inr (sid, dispatches), sv) \<Rightarrow> (Joined_as sid dispatches, sv)
           | (Inl e, sv) \<Rightarrow>
               (Refused e,
                if get_room (vg_room (vt_video token)) sv = None
                then sv\<lparr> sv_ctx := (sv_ctx sv)\<lparr> cx_cluster := release_room (vg_room (vt_video token)) (cx_cluster (sv_ctx sv)) \<rparr> \<rparr>
                else sv)))"

section \<open>Lemmas\<close>

lemma rtc_ws_impl_Inr:
  assumes "rtc_ws_impl check jc header query form is_v1 sv = Inr (token, session)"
  shows "authenticate check header (merge_params query form) = Inr token"
    "vg_room_join (vt_video token)" "vg_room (vt_video token) \<noteq> []" "vt_identity token \<noteq> []"
    "\<forall>r. get_room (vg_room (vt_video token)) sv = Some r \<longrightarrow> \<not> is_full r"
    "build_session_params jc (merge_params query form) is_v1 = Inr session"
  using assms by (auto simp: rtc_ws_impl_def Let_def split: sum.splits option.splits if_splits)

lemma authenticate_Inr: "authenticate check header params = Inr token \<Longrightarrow> \<exists>t. request_token header params = Inr t \<and> check t = Inr token"
  by (auto simp: authenticate_def elim!: ebind_InrE split: sum.splits)

text \<open>A full room turns away a client that would resume its session, or replace its own:
  the endpoint looks at the room before it looks at the participant.\<close>

lemma full_room_blocks_resume:
  assumes "authenticate check header (merge_params query form) = Inr token"
    "vg_room_join (vt_video token)" "vg_room (vt_video token) \<noteq> []" "vt_identity token \<noteq> []"
    "get_room (vg_room (vt_video token)) sv = Some r" "is_full r"
  shows "rtc_ws_impl check jc header query form is_v1 sv = Inl RefuseFull"
  using assms by (simp add: rtc_ws_impl_def Let_def)

end
