(* ===== verification/Session.thy ===== *)
theory Session
  imports Twirp
begin

text \<open>
  What a client sees first (\<open>lk-server/src/signal.rs\<close>): the messages a session starts with,
  the task that writes them and the participant's own messages to the transport, and the
  encoding of messages as websocket frames.
\<close>

section \<open>The start of a session\<close>

record signal_prelude =
  pl_join :: signal_response
  pl_post_join :: "signal_response list"
  pl_publisher_offer :: "session_description option"
  pl_add_tracks :: "add_track_request list"
  pl_sync_state :: "published_track_msg list option"
  pl_launch_agents :: "room_agent_dispatch list"

text \<open>After a resume: the response, then every participant of the room, then the room.\<close>

definition resume_prelude :: "(string \<Rightarrow> ice_server list) \<Rightarrow> server \<Rightarrow> string \<Rightarrow> room \<Rightarrow> signal_prelude \<times> room" where
  "resume_prelude ice sv sid r =
     (let (updates, r) = infos_of (map fst (r_participants r)) r
      in (\<lparr> pl_join = RespReconnect (build_reconnect_response ice sv sid),
            pl_post_join = [RespUpdate updates, RespRoomUpdate (room_to_proto r)],
            pl_publisher_offer = None, pl_add_tracks = [], pl_sync_state = None, pl_launch_agents = [] \<rparr>, r))"

definition join_prelude ::
    "(string \<Rightarrow> ice_server list) \<Rightarrow> server \<Rightarrow> session_params \<Rightarrow> room_agent_dispatch list \<Rightarrow> string \<Rightarrow> room
     \<Rightarrow> signal_prelude option \<times> room" where
  "join_prelude ice sv params dispatches sid r =
     (let (resp, r) = build_join_response ice sv sid r
      in (map_option (\<lambda>jr. \<lparr> pl_join = RespJoin jr, pl_post_join = [], pl_publisher_offer = ss_publisher_offer params,
            pl_add_tracks = ss_add_tracks params, pl_sync_state = ss_sync_state params, pl_launch_agents = dispatches \<rparr>) resp, r))"

section \<open>Writing\<close>

text \<open>Sending messages one by one; the results say which sends succeed (a missing result is
  a failure), and the first failure ends it.  The answer is what got through, whether all
  of it did, and the results that are left.\<close>

fun send_each :: "bool list \<Rightarrow> 'm list \<Rightarrow> 'm list \<times> bool \<times> bool list" where
  "send_each oks [] = ([], True, oks)"
| "send_each [] (m # ms) = ([], False, [])"
| "send_each (ok # oks) (m # ms) =
     (if ok then let (sent, all, oks) = send_each oks ms in (m # sent, all, oks) else ([], False, oks))"

definition writer_task :: "bool list \<Rightarrow> signal_prelude \<Rightarrow> signal_response list \<Rightarrow> signal_response list" where
  "writer_task oks pl outbound =
     (case oks of
        [] \<Rightarrow> []
      | ok # oks \<Rightarrow>
          if \<not> ok then []
          else (case send_each oks (pl_post_join pl) of
                  (sent, all, oks) \<Rightarrow>
                    pl_join pl # sent @ (if all then fst (send_each oks outbound) else [])))"

text \<open>A message as a frame: text when the client speaks JSON and the message can be printed,
  else binary.\<close>

definition ws_encode ::
    "(signal_response \<Rightarrow> string option) \<Rightarrow> (signal_response \<Rightarrow> 8 word list) \<Rightarrow> signal_response \<Rightarrow> bool \<Rightarrow> ws_frame" where
  "ws_encode to_json to_proto resp json =
     (if json then (case to_json resp of Some t \<Rightarrow> WsText t | None \<Rightarrow> WsBinary (to_proto resp))
      else WsBinary (to_proto resp))"

definition ws_send ::
    "(signal_response \<Rightarrow> string option) \<Rightarrow> (signal_response \<Rightarrow> 8 word list) \<Rightarrow> signal_response \<Rightarrow> ws_state \<Rightarrow> ws_frame" where
  "ws_send to_json to_proto resp w = ws_encode to_json to_proto resp (ws_json w)"

definition ws_new :: ws_state where
  "ws_new = \<lparr> ws_json = False, ws_close_code = 1000 \<rparr>"

section \<open>Lemmas\<close>

lemma send_each_prefix:
  "fst (send_each oks ms) = take (length (takeWhile id (take (length ms) oks))) ms"
  "fst (snd (send_each oks ms)) \<longleftrightarrow> length (takeWhile id (take (length ms) oks)) = length ms"
  "fst (snd (send_each oks ms)) \<Longrightarrow> snd (snd (send_each oks ms)) = drop (length ms) oks"
  by (induction oks ms rule: send_each.induct) (auto simp: Let_def split_def)

lemma send_each_append:
  "fst (send_each oks (ms @ ns)) =
     fst (send_each oks ms) @ (if fst (snd (send_each oks ms)) then fst (send_each (snd (snd (send_each oks ms))) ns) else [])"
  by (induction oks ms rule: send_each.induct) (auto simp: Let_def split_def)

lemma writer_task_all: "writer_task oks pl outbound = fst (send_each oks (pl_join pl # pl_post_join pl @ outbound))"
  by (cases oks) (auto simp: writer_task_def send_each_append split_def Let_def)

section \<open>Properties\<close>

text \<open>What a client receives is the response to its join or resume, then the messages
  that follow it, then the participant's own messages, in this order and without a gap,
  up to the first send that fails; a client whose sends all succeed receives everything.\<close>

theorem client_stream_in_order:
  "writer_task oks pl outbound =
     take (length (takeWhile id (take (Suc (length (pl_post_join pl) + length outbound)) oks))) (pl_join pl # pl_post_join pl @ outbound)"
  by (simp add: writer_task_all send_each_prefix)

subsection \<open>Behaviour at odds with what the code means to do\<close>

text \<open>A client that resumes is told about hidden participants too.\<close>

lemma resume_reveals_hidden:
  assumes "room_inv r" "get_participant k r = Some q" "pm_hidden (p_permission q)" "resume_prelude ice sv sid r = (pl, r')"
  shows "\<exists>infos i. RespUpdate infos \<in> set (pl_post_join pl) \<and> i \<in> set infos \<and> pi_sid i = k"
proof -
  let ?ks = "map fst (r_participants r)"
  have d: "distinct ?ks" using room_inv_keys [OF assms(1)] by (simp add: keys_distinct_def)
  have all: "\<forall>l \<in> set ?ks. get_participant l r \<noteq> None" by (auto simp: get_participant_None)
  have "k \<in> set ?ks" using assms(2) get_participant_None [of k r] by auto
  moreover have "p_sid q = k" using assms(1,2) by (simp add: room_inv_def members_inv_def get_participant_def)
  ultimately have "k \<in> set (map pi_sid (fst (infos_of ?ks r)))"
    unfolding conjunct1 [OF infos_of_spec [OF d all]] using assms(2) by (force simp: image_iff)
  then show ?thesis using assms(4) by (auto simp: resume_prelude_def split_def Let_def)
qed

end
