(* ===== verification/Room_Service.thy ===== *)
theory Room_Service
  imports Session
begin

text \<open>
  The administrative services (\<open>lk-server/src/services.rs\<close>): \<open>RoomService\<close> and
  \<open>AgentDispatchService\<close>.  A request carries its decoded body, or nothing when the body
  does not decode.  What a handler spawns is returned as a list of tasks; \<open>run_task_of\<close>
  is what a task does when it runs.
\<close>

section \<open>Requests, responses, tasks\<close>

record limits =
  lm_max_metadata :: nat
  lm_max_attributes :: nat
  lm_max_room_name_length :: nat

record create_room_request =
  cr_name :: string
  cr_metadata :: string
  cr_empty_timeout :: "32 word"
  cr_departure_timeout :: "32 word"
  cr_max_participants :: "32 word"
  cr_agents :: "room_agent_dispatch list"

record update_participant_request =
  up_room :: string
  up_identity :: string
  up_metadata :: string
  up_name :: string
  up_permission :: "permission option"
  up_attributes :: attrs

record send_data_request =
  sn_room :: string
  sn_data :: string
  sn_kind :: int
  sn_destination_identities :: "string list"

datatype room_request =
  CreateRoom "create_room_request option"
| ListRooms "string list option"
| DeleteRoom "string option"
| ListParticipants "string option"
| GetParticipant "(string \<times> string) option"
| RemoveParticipant "(string \<times> string) option"
| MutePublishedTrack "(string \<times> string \<times> string \<times> bool) option"
| UpdateParticipant "update_participant_request option"
| UpdateSubscriptions "(string \<times> string \<times> update_subscription) option"
| SendData "send_data_request option"
| UpdateRoomMetadata "(string \<times> string) option"
| UnsupportedMethod
| UnknownMethod string

datatype room_response =
  RoomResp room_info
| RoomsResp "room_info list"
| EmptyResp
| ParticipantsResp "participant_info list"
| ParticipantResp participant_info
| MuteResp track_info

datatype service_task =
  TaskRoomStarted room_info
| TaskDeleteRoom room_info string
| TaskEndParticipant string string
| TaskMute string string string bool
| TaskSubscriptions string string update_subscription

type_synonym service_result = "(twirp_error, room_response \<times> service_task list) result"

section \<open>Checks\<close>

definition ensure_admin :: "verified_token \<Rightarrow> string \<Rightarrow> (twirp_error, unit) result" where
  "ensure_admin token room =
     (if vg_room_admin (vt_video token) \<and> vg_room (vt_video token) = room then Inr ()
      else Inl (unauthenticated ''permissions denied''))"

definition ensure_create :: "verified_token \<Rightarrow> (twirp_error, unit) result" where
  "ensure_create token =
     (if vg_room_create (vt_video token) then Inr () else Inl (unauthenticated ''permissions denied''))"

definition ensure_list :: "verified_token \<Rightarrow> (twirp_error, unit) result" where
  "ensure_list token =
     (if vg_room_list (vt_video token) then Inr () else Inl (unauthenticated ''permissions denied''))"

definition validate_metadata :: "limits \<Rightarrow> string \<Rightarrow> (twirp_error, unit) result" where
  "validate_metadata lims metadata =
     (if lm_max_metadata lims < length metadata then Inl (invalid_argument ''metadata size exceeds limits'') else Inr ())"

definition validate_attributes :: "limits \<Rightarrow> attrs \<Rightarrow> (twirp_error, unit) result" where
  "validate_attributes lims attributes =
     (if lm_max_attributes lims < sum_list (map (\<lambda>(k, v). length k + length v) attributes)
      then Inl (invalid_argument ''attribute size exceeds limits'') else Inr ())"

definition parse :: "'a option \<Rightarrow> (twirp_error, 'a) result" where
  "parse body = ok_or (invalid_argument ''invalid body'') body"

definition find_room :: "string \<Rightarrow> server \<Rightarrow> (twirp_error, room) result" where
  "find_room nm sv = ok_or (not_found ''room not found'') (get_room nm sv)"

definition find_participant :: "string \<Rightarrow> room \<Rightarrow> (twirp_error, participant) result" where
  "find_participant identity r = ok_or (not_found ''participant not found'') (get_participant_by_identity identity r)"

section \<open>RoomService\<close>

definition checked_name :: "limits \<Rightarrow> string \<Rightarrow> (twirp_error, string) result" where
  "checked_name lims nm =
     (if nm = [] then Inl (invalid_argument ''room name is required'')
      else if lm_max_room_name_length lims < length nm
      then Inl (invalid_argument (''room name length exceeds limits: max length '' @ show_nat (lm_max_room_name_length lims)))
      else Inr nm)"

definition configure_room :: "int \<Rightarrow> create_room_request \<Rightarrow> room \<Rightarrow> room" where
  "configure_room now q r =
     (let r = (if cr_metadata q \<noteq> [] then snd (room_update_metadata now (cr_metadata q) r) else r);
          r = (if cr_empty_timeout q \<noteq> 0 then set_empty_timeout (cr_empty_timeout q) r else r);
          r = (if cr_departure_timeout q \<noteq> 0 then set_departure_timeout (cr_departure_timeout q) r else r);
          r = (if cr_max_participants q \<noteq> 0 then set_max_participants (cr_max_participants q) r else r)
      in fold (\<lambda>d r. snd (add_agent_dispatch d r)) (cr_agents q) r)"

definition create_room :: "limits \<Rightarrow> nat list \<Rightarrow> int \<Rightarrow> create_room_request \<Rightarrow> server \<Rightarrow> service_result \<times> server" where
  "create_room lims draws now q sv =
     (case ebind (checked_name lims (cr_name q)) (\<lambda>nm. ebind (validate_metadata lims (cr_metadata q)) (\<lambda>_. Inr nm)) of
        Inl e \<Rightarrow> (Inl e, sv)
      | Inr nm \<Rightarrow>
          let existed = (get_room nm sv \<noteq> None);
              (r, sv) = get_or_create_room draws now nm sv;
              r = configure_room now q r;
              sv = set_room r (sv_ctx sv) sv
          in (Inr (RoomResp (room_to_proto r), if existed then [] else [TaskRoomStarted (room_to_proto r)]), sv))"

definition list_participants :: "string \<Rightarrow> server \<Rightarrow> service_result \<times> server" where
  "list_participants nm sv =
     (case find_room nm sv of
        Inl e \<Rightarrow> (Inl e, sv)
      | Inr r \<Rightarrow> let (infos, r) = infos_of (map fst (r_participants r)) r
                in (Inr (ParticipantsResp infos, []), set_room r (sv_ctx sv) sv))"

text \<open>The requests about one participant find it first.\<close>

definition with_participant ::
    "string \<Rightarrow> string \<Rightarrow> server \<Rightarrow> (room \<Rightarrow> participant \<Rightarrow> service_result \<times> server) \<Rightarrow> service_result \<times> server" where
  "with_participant nm identity sv f =
     (case ebind (find_room nm sv) (\<lambda>r. ebind (find_participant identity r) (\<lambda>p. Inr (r, p))) of
        Inl e \<Rightarrow> (Inl e, sv)
      | Inr (r, p) \<Rightarrow> f r p)"

definition participant_response :: "string \<Rightarrow> room \<Rightarrow> server \<Rightarrow> service_result \<times> server" where
  "participant_response sid r sv =
     (case info_of sid r of
        (None, _) \<Rightarrow> (Inl (not_found ''participant not found''), sv)
      | (Some info, r) \<Rightarrow> (Inr (ParticipantResp info, []), set_room r (sv_ctx sv) sv))"

definition mute_published_track :: "int \<Rightarrow> string \<Rightarrow> bool \<Rightarrow> server \<Rightarrow> room \<Rightarrow> participant \<Rightarrow> service_result \<times> server" where
  "mute_published_track now tid muted sv r p =
     (case get_track tid p of
        None \<Rightarrow> (Inl (not_found ''track not found''), sv)
      | Some t \<Rightarrow>
          let t = snd (track_set_muted now muted t);
              r = upd (p_sid p) (set_track t) r
          in (Inr (MuteResp (track_to_proto t), [TaskMute (r_name r) (p_sid p) tid muted]), set_room r (sv_ctx sv) sv))"

definition change_participant :: "update_participant_request \<Rightarrow> participant \<Rightarrow> bool \<times> participant" where
  "change_participant q p =
     (let (changed, p) = update_metadata (up_metadata q) (if up_name q = [] then None else Some (up_name q)) p;
          (changed, p) = (case up_permission q of
                            None \<Rightarrow> (changed, p)
                          | Some perm \<Rightarrow> let (c, p) = update_permission perm p in (changed \<or> c, p))
      in if up_attributes q = [] then (changed, p)
         else let (c, p) = set_attributes (up_attributes q) p in (changed \<or> c, p))"

definition update_participant ::
    "limits \<Rightarrow> update_participant_request \<Rightarrow> server \<Rightarrow> room \<Rightarrow> participant \<Rightarrow> service_result \<times> server" where
  "update_participant lims q sv r p =
     (case ebind (validate_metadata lims (up_metadata q)) (\<lambda>_. validate_attributes lims (up_attributes q)) of
        Inl e \<Rightarrow> (Inl e, sv)
      | Inr _ \<Rightarrow>
          let changed = fst (change_participant q p);
              r = upd (p_sid p) (\<lambda>p. snd (change_participant q p)) r;
              r = (if changed then broadcast_own_update None (p_sid p) r else r)
          in participant_response (p_sid p) r sv)"

definition update_room_metadata :: "limits \<Rightarrow> int \<Rightarrow> string \<Rightarrow> string \<Rightarrow> server \<Rightarrow> service_result \<times> server" where
  "update_room_metadata lims now nm metadata sv =
     (case ebind (validate_metadata lims metadata) (\<lambda>_. find_room nm sv) of
        Inl e \<Rightarrow> (Inl e, sv)
      | Inr r \<Rightarrow>
          let (changed, r) = room_update_metadata now metadata r;
              r = (if changed then broadcast_room_update r else r)
          in (Inr (RoomResp (room_to_proto r), []), set_room r (sv_ctx sv) sv))"

definition send_data_packet :: "send_data_request \<Rightarrow> data_packet" where
  "send_data_packet q =
     \<lparr> dp_kind = sn_kind q, dp_identity = [], dp_sid = [], dp_dest_identities = sn_destination_identities q,
       dp_value = UserPacket (sn_data q) [] \<rparr>"

definition authorized :: "(twirp_error, unit) result \<Rightarrow> server \<Rightarrow> service_result \<times> server \<Rightarrow> service_result \<times> server" where
  "authorized check sv go = (case check of Inl e \<Rightarrow> (Inl e, sv) | Inr _ \<Rightarrow> go)"

definition parsed :: "'a option \<Rightarrow> server \<Rightarrow> ('a \<Rightarrow> service_result \<times> server) \<Rightarrow> service_result \<times> server" where
  "parsed body sv f = (case parse body of Inl e \<Rightarrow> (Inl e, sv) | Inr q \<Rightarrow> f q)"

fun room_service :: "limits \<Rightarrow> nat list \<Rightarrow> int \<Rightarrow> verified_token \<Rightarrow> room_request \<Rightarrow> server \<Rightarrow> service_result \<times> server" where
  "room_service lims draws now token (CreateRoom body) sv =
     authorized (ensure_create token) sv (parsed body sv (\<lambda>q. create_room lims draws now q sv))"
| "room_service lims draws now token (ListRooms body) sv =
     authorized (ensure_list token) sv (parsed body sv (\<lambda>names.
       (Inr (RoomsResp (map (\<lambda>(_, r). room_to_proto r)
          (filter (\<lambda>(_, r). names = [] \<or> r_name r \<in> set names) (sv_rooms sv))), []), sv)))"
| "room_service lims draws now token (DeleteRoom body) sv =
     authorized (ensure_create token) sv (parsed body sv (\<lambda>nm.
       if nm = [] then (Inl (invalid_argument ''room is required''), sv)
       else (case find_room nm sv of
               Inl e \<Rightarrow> (Inl e, sv)
             | Inr r \<Rightarrow> (Inr (EmptyResp, [TaskDeleteRoom (room_to_proto r) nm]), sv))))"
| "room_service lims draws now token (ListParticipants body) sv =
     parsed body sv (\<lambda>nm. authorized (ensure_admin token nm) sv (list_participants nm sv))"
| "room_service lims draws now token (GetParticipant body) sv =
     parsed body sv (\<lambda>(nm, identity). authorized (ensure_admin token nm) sv
       (with_participant nm identity sv (\<lambda>r p. participant_response (p_sid p) r sv)))"
| "room_service lims draws now token (RemoveParticipant body) sv =
     parsed body sv (\<lambda>(nm, identity). authorized (ensure_admin token nm) sv
       (with_participant nm identity sv (\<lambda>r p. (Inr (EmptyResp, [TaskEndParticipant nm (p_sid p)]), sv))))"
| "room_service lims draws now token (MutePublishedTrack body) sv =
     parsed body sv (\<lambda>(nm, identity, tid, muted). authorized (ensure_admin token nm) sv
       (with_participant nm identity sv (mute_published_track now tid muted sv)))"
| "room_service lims draws now token (UpdateParticipant body) sv =
     parsed body sv (\<lambda>q. authorized (ensure_admin token (up_room q)) sv
       (with_participant (up_room q) (up_identity q) sv (update_participant lims q sv)))"
| "room_service lims draws now token (UpdateSubscriptions body) sv =
     parsed body sv (\<lambda>(nm, identity, u). authorized (ensure_admin token nm) sv
       (with_participant nm identity sv (\<lambda>r p. (Inr (EmptyResp, [TaskSubscriptions nm (p_sid p) u]), sv))))"
| "room_service lims draws now token (SendData body) sv =
     parsed body sv (\<lambda>q. authorized (ensure_admin token (sn_room q)) sv
       (case find_room (sn_room q) sv of
          Inl e \<Rightarrow> (Inl e, sv)
        | Inr r \<Rightarrow> (Inr (EmptyResp, []), set_room (broadcast_data (send_data_packet q) [] r) (sv_ctx sv) sv)))"
| "room_service lims draws now token (UpdateRoomMetadata body) sv =
     parsed body sv (\<lambda>(nm, metadata). authorized (ensure_admin token nm) sv (update_room_metadata lims now nm metadata sv))"
| "room_service lims draws now token UnsupportedMethod sv = (Inl (failed_precondition ''not supported on this server''), sv)"
| "room_service lims draws now token (UnknownMethod m) sv = (Inl (not_found (''method not found: '' @ m)), sv)"

section \<open>Spawned tasks\<close>

definition with_room :: "string \<Rightarrow> (room \<times> ctx \<Rightarrow> room \<times> ctx) \<Rightarrow> server \<Rightarrow> server" where
  "with_room nm f sv =
     (case get_room nm sv of
        None \<Rightarrow> sv
      | Some r \<Rightarrow> let (r, cx) = f (r, sv_ctx sv) in set_room r cx sv)"

fun run_task_of :: "int \<Rightarrow> service_task \<Rightarrow> server \<Rightarrow> server" where
  "run_task_of now (TaskRoomStarted info) sv = sv\<lparr> sv_ctx := emit (WhRoomStarted info) (sv_ctx sv) \<rparr>"
| "run_task_of now (TaskDeleteRoom info nm) sv =
     snd (close_room now nm RoomDeleted (sv\<lparr> sv_ctx := emit (WhRoomFinished info) (sv_ctx sv) \<rparr>))"
| "run_task_of now (TaskEndParticipant nm sid) sv = with_room nm (end_participant now ParticipantRemoved sid) sv"
| "run_task_of now (TaskMute nm sid tid muted) sv =
     with_room nm (\<lambda>(r, cx). (set_track_muted now tid muted True sid r, cx)) sv"
| "run_task_of now (TaskSubscriptions nm sid u) sv = with_room nm (handle_update_subscriptions u sid) sv"

section \<open>AgentDispatchService\<close>

record create_dispatch_request =
  cd_agent_name :: string
  cd_room :: string
  cd_metadata :: string
  cd_deployment :: string
  cd_attributes :: attrs

datatype dispatch_request =
  CreateDispatch "create_dispatch_request option"
| DeleteDispatch "(string \<times> string) option"
| ListDispatch "(string \<times> string) option"
| UnknownDispatchMethod string

record dispatch_info =
  di_id :: string
  di_agent_name :: string
  di_room :: string
  di_metadata :: string
  di_deployment :: string
  di_attributes :: attrs
  di_jobs :: "job list"
  di_created_at :: int
  di_deleted_at :: int

definition dispatch_to_proto :: "agent_dispatch \<Rightarrow> dispatch_info" where
  "dispatch_to_proto d =
     \<lparr> di_id = d_id d, di_agent_name = d_agent_name d, di_room = d_room d, di_metadata = d_metadata d,
       di_deployment = d_deployment d, di_attributes = d_attributes d, di_jobs = d_jobs d,
       di_created_at = d_created_at d * 1000000000, di_deleted_at = unwrap_or 0 (d_deleted_at d) * 1000000000 \<rparr>"

definition terminate_jobs :: "job list \<Rightarrow> agent_manager \<Rightarrow> agent_manager" where
  "terminate_jobs jobs am =
     fold (\<lambda>j am. fold (\<lambda>ref. worker_send ref (SmTermination (j_id j))) (workers_for (j_agent_name j) am) am) jobs am"

text \<open>The answer, the dispatch to launch in a room that exists, and the agent manager.\<close>

fun agent_dispatch_service ::
    "nat list \<Rightarrow> int \<Rightarrow> verified_token \<Rightarrow> dispatch_request \<Rightarrow> server
     \<Rightarrow> (twirp_error, dispatch_info list \<times> agent_dispatch option) result \<times> agent_manager" where
  "agent_dispatch_service draws now token (CreateDispatch body) sv =
     (let am = cx_agent (sv_ctx sv) in
      (case ebind (parse body) (\<lambda>q. ebind (ensure_admin token (cd_room q)) (\<lambda>_.
              if cd_agent_name q = [] then Inl (invalid_argument ''agent name is required'')
              else if cd_room q = [] then Inl (invalid_argument ''room is required'') else Inr q)) of
         Inl e \<Rightarrow> (Inl e, am)
       | Inr q \<Rightarrow>
           let (d, am) = create_dispatch draws now (cd_agent_name q) (cd_room q) (cd_metadata q) (cd_deployment q)
                           (cd_attributes q) am
           in (Inr ([dispatch_to_proto d], if get_room (d_room d) sv = None then None else Some d), am)))"
| "agent_dispatch_service draws now token (DeleteDispatch body) sv =
     (let am = cx_agent (sv_ctx sv) in
      (case ebind (parse body) (\<lambda>(nm, i). ebind (ensure_admin token nm) (\<lambda>_. Inr i)) of
         Inl e \<Rightarrow> (Inl e, am)
       | Inr i \<Rightarrow>
           (case delete_dispatch now i am of
              (None, am) \<Rightarrow> (Inl (not_found ''dispatch not found''), am)
            | (Some d, am) \<Rightarrow> (Inr ([dispatch_to_proto d], None), terminate_jobs (d_jobs d) am))))"
| "agent_dispatch_service draws now token (ListDispatch body) sv =
     (let am = cx_agent (sv_ctx sv) in
      (case ebind (parse body) (\<lambda>(nm, i). ebind (ensure_admin token nm) (\<lambda>_. Inr (nm, i))) of
         Inl e \<Rightarrow> (Inl e, am)
       | Inr (nm, i) \<Rightarrow>
           (Inr (map dispatch_to_proto (if i = [] then list_dispatches nm am
                   else (case get_dispatch i am of None \<Rightarrow> [] | Some d \<Rightarrow> [d])), None), am)))"
| "agent_dispatch_service draws now token (UnknownDispatchMethod m) sv =
     (Inl (not_found (''method not found: '' @ m)), cx_agent (sv_ctx sv))"

section \<open>Lemmas\<close>

text \<open>The grant a request needs.\<close>

definition room_admin_of :: "verified_token \<Rightarrow> string \<Rightarrow> bool" where
  "room_admin_of token nm \<longleftrightarrow> vg_room_admin (vt_video token) \<and> vg_room (vt_video token) = nm"

fun service_grant :: "verified_token \<Rightarrow> room_request \<Rightarrow> bool" where
  "service_grant token (CreateRoom _) = vg_room_create (vt_video token)"
| "service_grant token (ListRooms _) = vg_room_list (vt_video token)"
| "service_grant token (DeleteRoom _) = vg_room_create (vt_video token)"
| "service_grant token (ListParticipants (Some nm)) = room_admin_of token nm"
| "service_grant token (GetParticipant (Some (nm, _))) = room_admin_of token nm"
| "service_grant token (RemoveParticipant (Some (nm, _))) = room_admin_of token nm"
| "service_grant token (MutePublishedTrack (Some (nm, _))) = room_admin_of token nm"
| "service_grant token (UpdateParticipant (Some q)) = room_admin_of token (up_room q)"
| "service_grant token (UpdateSubscriptions (Some (nm, _))) = room_admin_of token nm"
| "service_grant token (SendData (Some q)) = room_admin_of token (sn_room q)"
| "service_grant token (UpdateRoomMetadata (Some (nm, _))) = room_admin_of token nm"
| "service_grant token _ = False"

lemma parse_simps [simp]: "parse (Some q) = Inr q" "parse None = Inl (invalid_argument ''invalid body'')"
  by (simp_all add: parse_def)

lemma parsed_simps [simp]: "parsed (Some q) sv f = f q" "parsed None sv f = (Inl (invalid_argument ''invalid body''), sv)"
  by (simp_all add: parsed_def)

lemma authorized_simps [simp]:
  "authorized (ensure_create token) sv go =
     (if vg_room_create (vt_video token) then go else (Inl (unauthenticated ''permissions denied''), sv))"
  "authorized (ensure_list token) sv go =
     (if vg_room_list (vt_video token) then go else (Inl (unauthenticated ''permissions denied''), sv))"
  "authorized (ensure_admin token nm) sv go =
     (if room_admin_of token nm then go else (Inl (unauthenticated ''permissions denied''), sv))"
  by (simp_all add: authorized_def ensure_create_def ensure_list_def ensure_admin_def room_admin_of_def)

text \<open>An answer that is an error leaves the server as it was.\<close>

definition no_effect_on_error :: "server \<Rightarrow> service_result \<times> server \<Rightarrow> bool" where
  "no_effect_on_error sv out \<longleftrightarrow> (case out of (Inl _, sv') \<Rightarrow> sv' = sv | (Inr _, _) \<Rightarrow> True)"

lemma no_effect_simps [simp]: "no_effect_on_error sv (Inl e, sv') \<longleftrightarrow> sv' = sv" "no_effect_on_error sv (Inr x, sv')"
  by (simp_all add: no_effect_on_error_def)

lemma no_effect_parts [simp]:
  "no_effect_on_error sv (create_room lims draws now q sv)"
  "no_effect_on_error sv (list_participants nm sv)"
  "no_effect_on_error sv (participant_response sid r sv)"
  "no_effect_on_error sv (mute_published_track now tid muted sv r p)"
  "no_effect_on_error sv (update_participant lims u sv r p)"
  "no_effect_on_error sv (update_room_metadata lims now nm metadata sv)"
  by (simp_all add: create_room_def list_participants_def participant_response_def mute_published_track_def
      update_participant_def update_room_metadata_def Let_def split_def split: sum.split option.split)

lemma no_effect_with_participant:
  "(\<And>r p. no_effect_on_error sv (f r p)) \<Longrightarrow> no_effect_on_error sv (with_participant nm identity sv f)"
  by (simp add: with_participant_def split: sum.split prod.split)

lemma no_effect_parsed: "(\<And>q. no_effect_on_error sv (f q)) \<Longrightarrow> no_effect_on_error sv (parsed body sv f)"
  by (cases body) simp_all

section \<open>Properties\<close>

text \<open>C6: a request of the room service succeeds or changes anything only when the token
  carries the grant for it: creation for creating and deleting rooms, listing for
  listing them, and for everything else administration of exactly the room the request
  names.\<close>

theorem room_service_authorized:
  assumes "room_service lims draws now token req sv = (res, sv')" "(\<exists>x. res = Inr x) \<or> sv' \<noteq> sv"
  shows "service_grant token req"
  using assms by (cases "(token, req)" rule: service_grant.cases) (auto split: if_splits)

definition sample_limits :: limits where
  "sample_limits = \<lparr> lm_max_metadata = 8, lm_max_attributes = 8, lm_max_room_name_length = 8 \<rparr>"

theorem room_service_authorized_witness:
  "\<exists>nm. service_grant ((sample_token ''adm'')\<lparr> vt_video := video_grant_default\<lparr> vg_room_admin := True, vg_room := ''r'' \<rparr> \<rparr>)
     (SendData (Some \<lparr> sn_room = nm, sn_data = ''x'', sn_kind = 0, sn_destination_identities = [] \<rparr>)) \<and> nm = ''r''"
proof -
  let ?t = "(sample_token ''adm'')\<lparr> vt_video := video_grant_default\<lparr> vg_room_admin := True, vg_room := ''r'' \<rparr> \<rparr>"
  let ?q = "SendData (Some \<lparr> sn_room = ''r'', sn_data = ''x'', sn_kind = 0, sn_destination_identities = [] \<rparr>)"
  let ?out = "room_service sample_limits [] 0 ?t ?q sample_server"
  have "\<exists>x. fst ?out = Inr x" by (simp add: room_admin_of_def find_room_def)
  then have "(\<exists>x. fst ?out = Inr x) \<or> snd ?out \<noteq> sample_server" by blast
  from room_service_authorized [OF prod.collapse [symmetric] this] show ?thesis by blast
qed



lemma add_agent_dispatch_fields [simp]:
  "r_participants (snd (add_agent_dispatch d r)) = r_participants r"
  "r_name (snd (add_agent_dispatch d r)) = r_name r"
  "r_closed (snd (add_agent_dispatch d r)) = r_closed r"
  "r_on_close (snd (add_agent_dispatch d r)) = r_on_close r"
  "r_ever_joined (snd (add_agent_dispatch d r)) = r_ever_joined r"
  "r_empty_since (snd (add_agent_dispatch d r)) = r_empty_since r"
  "r_metadata (snd (add_agent_dispatch d r)) = r_metadata r"
  "r_empty_timeout (snd (add_agent_dispatch d r)) = r_empty_timeout r"
  "r_departure_timeout (snd (add_agent_dispatch d r)) = r_departure_timeout r"
  "r_max_participants (snd (add_agent_dispatch d r)) = r_max_participants r"
  by (simp_all add: add_agent_dispatch_def Let_def)

lemma add_agent_dispatches_fields [simp]:
  "r_participants (fold (\<lambda>d r. snd (add_agent_dispatch d r)) ds r) = r_participants r"
  "r_name (fold (\<lambda>d r. snd (add_agent_dispatch d r)) ds r) = r_name r"
  "r_closed (fold (\<lambda>d r. snd (add_agent_dispatch d r)) ds r) = r_closed r"
  "r_on_close (fold (\<lambda>d r. snd (add_agent_dispatch d r)) ds r) = r_on_close r"
  "r_ever_joined (fold (\<lambda>d r. snd (add_agent_dispatch d r)) ds r) = r_ever_joined r"
  "r_empty_since (fold (\<lambda>d r. snd (add_agent_dispatch d r)) ds r) = r_empty_since r"
  "r_metadata (fold (\<lambda>d r. snd (add_agent_dispatch d r)) ds r) = r_metadata r"
  "r_empty_timeout (fold (\<lambda>d r. snd (add_agent_dispatch d r)) ds r) = r_empty_timeout r"
  "r_departure_timeout (fold (\<lambda>d r. snd (add_agent_dispatch d r)) ds r) = r_departure_timeout r"
  "r_max_participants (fold (\<lambda>d r. snd (add_agent_dispatch d r)) ds r) = r_max_participants r"
  by (induction ds arbitrary: r) simp_all

lemma configure_room_fields [simp]:
  "r_participants (configure_room now q r) = r_participants r" "r_name (configure_room now q r) = r_name r"
  "r_closed (configure_room now q r) = r_closed r" "r_on_close (configure_room now q r) = r_on_close r"
  "r_ever_joined (configure_room now q r) = r_ever_joined r" "r_empty_since (configure_room now q r) = r_empty_since r"
  "r_metadata (configure_room now q r) = (if cr_metadata q = [] then r_metadata r else cr_metadata q)"
  "r_empty_timeout (configure_room now q r) = (if cr_empty_timeout q = 0 then r_empty_timeout r else cr_empty_timeout q)"
  "r_departure_timeout (configure_room now q r) = (if cr_departure_timeout q = 0 then r_departure_timeout r else cr_departure_timeout q)"
  "r_max_participants (configure_room now q r) = (if cr_max_participants q = 0 then r_max_participants r else cr_max_participants q)"
  by (simp_all add: configure_room_def room_update_metadata_def room_bump_version_def set_empty_timeout_def
      set_departure_timeout_def set_max_participants_def Let_def)

lemma create_room_spec:
  assumes "create_room lims draws now q sv = (Inr (resp, tasks), sv')"
  shows "cr_name q \<noteq> []" "length (cr_name q) \<le> lm_max_room_name_length lims" "length (cr_metadata q) \<le> lm_max_metadata lims"
    "\<exists>r sv1. get_or_create_room draws now (cr_name q) sv = (r, sv1) \<and> sv' = set_room (configure_room now q r) (sv_ctx sv1) sv1
      \<and> resp = RoomResp (room_to_proto (configure_room now q r))
      \<and> tasks = (if get_room (cr_name q) sv = None then [TaskRoomStarted (room_to_proto (configure_room now q r))] else [])"
proof -
  have c: "cr_name q \<noteq> [] \<and> length (cr_name q) \<le> lm_max_room_name_length lims \<and> length (cr_metadata q) \<le> lm_max_metadata lims"
    using assms by (auto simp: create_room_def checked_name_def validate_metadata_def split: if_splits)
  then show "cr_name q \<noteq> []" "length (cr_name q) \<le> lm_max_room_name_length lims" "length (cr_metadata q) \<le> lm_max_metadata lims"
    by simp_all
  show "\<exists>r sv1. get_or_create_room draws now (cr_name q) sv = (r, sv1) \<and> sv' = set_room (configure_room now q r) (sv_ctx sv1) sv1
      \<and> resp = RoomResp (room_to_proto (configure_room now q r))
      \<and> tasks = (if get_room (cr_name q) sv = None then [TaskRoomStarted (room_to_proto (configure_room now q r))] else [])"
    using assms c
    by (cases "get_or_create_room draws now (cr_name q) sv")
      (auto simp: create_room_def checked_name_def validate_metadata_def Let_def)
qed

text \<open>C12: a room that was created through the service exists under the requested name with
  the requested settings, those left out unchanged; who was in it still is; name and
  metadata are within the limits; and the start of the room is reported exactly when it
  did not exist.\<close>

theorem create_room_configures:
  assumes "server_inv sv" "create_room lims draws now q sv = (Inr (resp, tasks), sv')"
  shows "length (cr_name q) \<le> lm_max_room_name_length lims \<and> length (cr_metadata q) \<le> lm_max_metadata lims
    \<and> (\<exists>r'. get_room (cr_name q) sv' = Some r' \<and> resp = RoomResp (room_to_proto r')
       \<and> (\<forall>r. get_room (cr_name q) sv = Some r \<longrightarrow> tasks = [] \<and> r_participants r' = r_participants r)
       \<and> (get_room (cr_name q) sv = None \<longrightarrow> tasks = [TaskRoomStarted (room_to_proto r')] \<and> r_participants r' = [])
       \<and> (cr_metadata q \<noteq> [] \<longrightarrow> r_metadata r' = cr_metadata q)
       \<and> (cr_empty_timeout q \<noteq> 0 \<longrightarrow> r_empty_timeout r' = cr_empty_timeout q)
       \<and> (cr_departure_timeout q \<noteq> 0 \<longrightarrow> r_departure_timeout r' = cr_departure_timeout q)
       \<and> (cr_max_participants q \<noteq> 0 \<longrightarrow> r_max_participants r' = cr_max_participants q))"
proof -
  note cs = create_room_spec [OF assms(2)]
  obtain r sv1 where g: "get_or_create_room draws now (cr_name q) sv = (r, sv1)"
    and e: "sv' = set_room (configure_room now q r) (sv_ctx sv1) sv1" "resp = RoomResp (room_to_proto (configure_room now q r))"
      "tasks = (if get_room (cr_name q) sv = None then [TaskRoomStarted (room_to_proto (configure_room now q r))] else [])"
    using cs(4) by blast
  note gs = get_or_create_room_spec [OF assms(1) g]
  have "get_room (cr_name q) sv' = Some (configure_room now q r)" using gs(1,3) by (simp add: e get_set_room)
  moreover have "r_participants r = []" if "get_room (cr_name q) sv = None" using that gs(6) by simp
  moreover have "r0 = r" if "get_room (cr_name q) sv = Some r0" for r0 using that g by (simp add: get_or_create_room_def)
  ultimately show ?thesis using cs(2,3) e by auto
qed

theorem create_room_configures_witness:
  "\<exists>sv' r'. snd (create_room sample_limits [0] 0
        \<lparr> cr_name = ''new'', cr_metadata = [], cr_empty_timeout = 60, cr_departure_timeout = 0, cr_max_participants = 5, cr_agents = [] \<rparr>
        sample_server) = sv' \<and> get_room ''new'' sv' = Some r' \<and> r_max_participants r' = 5"
proof -
  let ?q = "\<lparr> cr_name = ''new'', cr_metadata = [], cr_empty_timeout = 60, cr_departure_timeout = 0, cr_max_participants = 5, cr_agents = [] \<rparr>
    :: create_room_request"
  let ?out = "create_room sample_limits [0] 0 ?q sample_server"
  have "\<exists>x. fst ?out = Inr x"
    by (simp add: create_room_def checked_name_def validate_metadata_def sample_limits_def split_def Let_def)
  then obtain resp tasks where "?out = (Inr (resp, tasks), snd ?out)" by (metis prod.collapse)
  from create_room_configures [OF sample_server_inv this] show ?thesis by auto
qed

subsection \<open>Behaviour at odds with what the code means to do\<close>

text \<open>A mute through the service sets the flag before the spawned task runs; the task then
  finds nothing to change and tells nobody.\<close>

lemma service_mute_not_announced:
  assumes "get_participant sid r = Some p" "get_track tid p = Some t" "t_sid t = tid"
  shows "set_track_muted now' tid muted True sid (upd sid (set_track (snd (track_set_muted now muted t))) r) =
     upd sid (set_track (snd (track_set_muted now muted t))) r"
proof -
  let ?t = "snd (track_set_muted now muted t)"
  have g: "get_track tid (set_track ?t p) = Some ?t"
    using assms(2,3) by (simp add: get_track_def set_track_def)
  have "\<not> fst (track_set_muted now' muted ?t)" by (simp add: track_set_muted_flag)
  then show ?thesis
    using assms(1) g by (cases "track_set_muted now' muted ?t") (simp add: set_track_muted_def)
qed

text \<open>A packet sent through the service reaches everybody, whatever destinations it names.\<close>

lemma service_data_reaches_everybody:
  assumes "get_participant k r = Some q"
  shows "get_participant k (broadcast_data (send_data_packet d) [] r) =
     Some (q\<lparr> p_media := send_data (send_data_packet d) (p_media q) \<rparr>)"
  using assms by (simp add: broadcast_data_def)

text \<open>The administrator of one room can delete the dispatch of another.\<close>

lemma dispatch_of_other_room_deleted:
  assumes "room_admin_of token nm" "look (am_dispatches (cx_agent (sv_ctx sv))) i = Some d"
  shows "\<exists>out am. agent_dispatch_service draws now token (DeleteDispatch (Some (nm, i))) sv = (Inr out, am)"
  using assms by (simp add: ensure_admin_def room_admin_of_def delete_dispatch_def Let_def)

end
