(* ===== verification/Roster.thy ===== *)
theory Roster
  imports Room_Service
begin

text \<open>
  Who is in which room, as an abstract specification of the server: a set of entries
  (room, identity, session id) that grows only by a join with a token that allows it and
  otherwise shrinks.  The server of theory \<open>System\<close> refines it: every step of the server
  is a step of the roster.  The lemmas here are about one room: nothing but a join adds
  a member.
\<close>

section \<open>Specification\<close>

type_synonym roster = "(string \<times> string \<times> string) set"

definition may_join :: "verified_token \<Rightarrow> bool" where
  "may_join token \<longleftrightarrow> vg_room_join (vt_video token) \<and> vt_identity token \<noteq> [] \<and> vg_room (vt_video token) \<noteq> []"

definition enter :: "verified_token \<Rightarrow> string \<Rightarrow> roster \<Rightarrow> roster" where
  "enter token sid R = insert (vg_room (vt_video token), vt_identity token, sid)
      {(nm, i, k) \<in> R. \<not> (nm = vg_room (vt_video token) \<and> i = vt_identity token)}"

inductive roster_step :: "roster \<Rightarrow> roster \<Rightarrow> bool" where
  roster_join: "may_join token \<Longrightarrow> (\<forall>i. (vg_room (vt_video token), i, sid) \<notin> R) \<Longrightarrow> roster_step R (enter token sid R)"
| roster_leave: "R' \<subseteq> R \<Longrightarrow> roster_step R R'"

text \<open>In a room, an identity has one session and a session one identity; who is there was
  let in.\<close>

definition roster_ok :: "roster \<Rightarrow> bool" where
  "roster_ok R \<longleftrightarrow> (\<forall>nm i k l. (nm, i, k) \<in> R \<longrightarrow> (nm, i, l) \<in> R \<longrightarrow> k = l)
     \<and> (\<forall>nm i j k. (nm, i, k) \<in> R \<longrightarrow> (nm, j, k) \<in> R \<longrightarrow> i = j)
     \<and> (\<forall>nm i k. (nm, i, k) \<in> R \<longrightarrow> nm \<noteq> [] \<and> i \<noteq> [])"

lemma roster_ok_step: "roster_step R R' \<Longrightarrow> roster_ok R \<Longrightarrow> roster_ok R'"
proof (induction rule: roster_step.induct)
  case (roster_join token sid R)
  then have "\<And>nm i k. (nm, i, k) \<in> R \<Longrightarrow> nm \<noteq> [] \<and> i \<noteq> []" unfolding roster_ok_def by blast
  with roster_join show ?case by (auto simp: roster_ok_def may_join_def enter_def)
next
  case (roster_leave R' R)
  then show ?case unfolding roster_ok_def by blast
qed

lemma roster_ok_reachable: "roster_step\<^sup>*\<^sup>* R R' \<Longrightarrow> roster_ok R \<Longrightarrow> roster_ok R'"
  by (induction rule: rtranclp_induct) (simp_all add: roster_ok_step)

section \<open>Abstraction\<close>

definition members :: "room \<Rightarrow> (string \<times> string) set" where
  "members r = {(i, k). \<exists>p. get_participant k r = Some p \<and> p_identity p = i}"

definition roster :: "server \<Rightarrow> roster" where
  "roster sv = {(nm, i, k). \<exists>r. get_room nm sv = Some r \<and> (i, k) \<in> members r}"

section \<open>Lemmas\<close>

subsection \<open>Members of a room\<close>

lemma members_I: "get_participant k r = Some p \<Longrightarrow> (p_identity p, k) \<in> members r"
  by (auto simp: members_def)

lemma same_room_members_le:
  assumes "same_room r r'"
  shows "members r' \<subseteq> members r"
  using look_member_key [OF assms] by (force simp: members_def member_key_def)

lemma same_room_members:
  assumes "same_room r r'"
  shows "members r' = members r"
proof -
  have "same_room r' r" using assms by (simp add: same_room_def)
  with assms show ?thesis by (intro equalityI same_room_members_le)
qed

lemma members_left_room:
  assumes "get_participant sid r = Some p"
  shows "members (left_room now info sid r) = {(i, k) \<in> members r. k \<noteq> sid}"
proof -
  have "(i, k) \<in> members (left_room now info sid r) \<longleftrightarrow> (i, k) \<in> members r \<and> k \<noteq> sid" for i k
  proof (cases "get_participant k (left_room now info sid r)")
    case None
    then show ?thesis using left_room_others [OF assms, of k now info] by (auto simp: members_def)
  next
    case (Some q')
    from left_room_look [OF assms this] Some show ?thesis by (auto simp: members_def member_key_def)
  qed
  then show ?thesis by blast
qed

lemma members_end_participant:
  "members (fst (end_participant now reason sid s)) = {(i, k) \<in> members (fst s). k \<noteq> sid}"
proof (cases "get_participant sid (fst s)")
  case None
  then show ?thesis by (auto simp: end_participant_None members_def)
next
  case (Some p)
  then show ?thesis by (cases s) (simp add: end_participant_Some members_left_room split_def Let_def)
qed

text \<open>A step on a room that lets nobody in.\<close>

definition shrinks :: "room \<times> ctx \<Rightarrow> room \<times> ctx \<Rightarrow> bool" where
  "shrinks s s' \<longleftrightarrow> members (fst s') \<subseteq> members (fst s)"

lemma shrinks_refl [simp]: "shrinks s s"
  by (simp add: shrinks_def)

lemma shrinks_trans: "shrinks s s' \<Longrightarrow> shrinks s' s'' \<Longrightarrow> shrinks s s''"
  unfolding shrinks_def by blast

lemma shrinks_fold: "(\<And>x s. shrinks s (f x s)) \<Longrightarrow> shrinks s (fold f xs s)"
proof (induction xs arbitrary: s)
  case (Cons x xs)
  show ?case using shrinks_trans [OF Cons.prems Cons.IH [OF Cons.prems]] by simp
qed simp

lemma quiet_shrinks: "quiet s s' \<Longrightarrow> shrinks s s'"
  by (simp add: quiet_def shrinks_def same_room_members_le)

lemma shrinks_ctx: "shrinks (r, cx) (r, cx')"
  by (simp add: shrinks_def)

lemma shrinks_end_participant: "shrinks s (end_participant now reason sid s)"
  by (auto simp: shrinks_def members_end_participant)

text \<open>A request from a session either leaves its participant or is quiet.\<close>

lemma shrinks_request: "shrinks s (handle_participant_request e sid req s)"
proof -
  obtain r cx where s: "s = (r, cx)" by fastforce
  have u: "shrinks (r, cx) (upd sid f r, cx)" if "keeps_identity f" "keeps_routes f" for f
    using that by (intro quiet_shrinks quiet_upd)
  show ?thesis
  proof (cases req)
    case (ReqTrickle c t)
    then show ?thesis by (auto simp: s upd_media_def keeps_defs intro!: u)
  next
    case (ReqMute tid m)
    then show ?thesis by (auto simp: s intro: quiet_shrinks quiet_set_track_muted)
  next
    case (ReqUpdateMetadata m)
    then show ?thesis by (auto simp: s intro: quiet_shrinks quiet_handle_update_metadata)
  qed (auto simp: s handle_leave_def intro!: u handle_offer_keeps handle_subscriber_answer_keeps handle_add_track_keeps p_send_keeps
      handle_sync_state_keeps quiet_shrinks [OF quiet_handle_update_subscriptions] shrinks_end_participant)
qed

subsection \<open>Joining\<close>

lemma members_end_duplicate:
  assumes "room_inv r" "end_duplicate now identity (r, cx) = (r', cx')"
  shows "members r' = {(i, k) \<in> members r. i \<noteq> identity}"
proof (cases "get_participant_by_identity identity r")
  case None
  then have "(identity, k) \<notin> members r" for k
    using look_participants [OF room_inv_keys [OF assms(1)]]
    by (auto simp: members_def get_participant_by_identity_def find_None_iff get_participant_def)
  then show ?thesis using assms None by (auto simp: end_duplicate_def)
next
  case (Some q)
  then have "q \<in> set (participants r)" "p_identity q = identity"
    by (auto simp: get_participant_by_identity_def find_Some_iff)
  then obtain k where k: "get_participant k r = Some q"
    using look_participants [OF room_inv_keys [OF assms(1)]] by (auto simp: get_participant_def)
  have mi: "members_inv (r_participants r)" using assms(1) by (simp add: room_inv_def)
  have inv: "p_sid q = k" "\<And>l x. get_participant l r = Some x \<Longrightarrow> p_identity x = identity \<Longrightarrow> l = k"
    using mi k \<open>p_identity q = identity\<close> unfolding members_inv_def get_participant_def by blast+
  have "same_room r (upd k (close_signal DuplicateIdentity) r)" by (rule same_room_upd [OF close_signal_keeps(1)])
  then have "members r' = {(i, l) \<in> members r. l \<noteq> k}"
    using assms(2) Some inv(1) members_end_participant [of now DuplicateIdentity k "(upd k (close_signal DuplicateIdentity) r, cx)"]
    by (simp add: end_duplicate_def same_room_members)
  moreover have "l = k \<longleftrightarrow> i = identity" if "(i, l) \<in> members r" for i l
    using that inv(2) [of l] k \<open>p_identity q = identity\<close> by (auto simp: members_def)
  ultimately show ?thesis by blast
qed

lemma members_admit:
  assumes "get_participant (p_sid p) r = None" "admit now p token (r, cx) = (res, r', cx')"
  shows "members r' = (case res of Inl _ \<Rightarrow> members r | Inr _ \<Rightarrow> insert (p_identity p, p_sid p) (members r))"
proof -
  define r1 where "r1 = snd (token_dispatches token r)"
  note f1 = sans_agents_fields [OF token_dispatches_room [of token r], folded r1_def]
  show ?thesis
  proof (cases rule: room_join_cases [of now p r1])
    case rejected
    then have "r' = r1" "\<exists>e. res = Inl e"
      using assms(2) by (auto simp: admit_def split_def Let_def r1_def)
    then show ?thesis by (auto simp: members_def get_participant_def f1)
  next
    case (accepted r2)
    have a: "res = Inr (p_sid p, fst (token_dispatches token r))"
      "announce_join (\<not> r_ever_joined r) (p_sid p) (r2, cx) = (r', cx')"
      using assms(2) accepted(1) by (auto simp: admit_def split_def Let_def r1_def)
    have g2: "get_participant k r2 = (if k = p_sid p then Some p else get_participant k r)" for k
      by (simp add: get_participant_def accepted(5) f1)
    have "get_participant (p_sid p) r2 = Some p" by (simp add: g2)
    from announce_join_simps(1) [OF this, of cx "\<not> r_ever_joined r"] a(2) have "same_room r2 r'" by (simp add: quiet_def)
    then have "members r' = members r2" by (rule same_room_members)
    moreover have "x \<in> members r2 \<longleftrightarrow> x = (p_identity p, p_sid p) \<or> x \<in> members r" for x
      using assms(1) by (cases x; cases "snd x = p_sid p") (auto simp: members_def g2)
    ultimately show ?thesis unfolding a(1) by (simp add: set_eq_iff)
  qed
qed

subsection \<open>Sessions\<close>

lemma shrinks_session_start: "shrinks s (session_start env resume params sid s)"
proof -
  obtain r cx where s: "s = (r, cx)" by fastforce
  have 1: "shrinks (r, cx) (upd sid set_signal_sink r, connection_inc cx)"
    by (rule shrinks_trans [OF quiet_shrinks [OF quiet_upd(1) [OF set_signal_sink_keeps]] shrinks_ctx])
  have 2: "shrinks x (fold (\<lambda>(i, req). handle_participant_request (env i) sid req) reqs x)" for reqs x
    by (rule shrinks_fold) (simp add: split_def shrinks_request)
  show ?thesis
    using shrinks_trans [OF shrinks_trans [OF 1 2] quiet_shrinks [OF quiet_subscribe_existing]] 1
    by (simp add: s session_start_def Let_def)
qed

lemma shrinks_session_loop: "shrinks s (session_loop sid reqs s)"
proof (induction sid reqs s rule: session_loop.induct)
  case (2 sid e req reqs s)
  then show ?case using shrinks_request [of s e sid req] by (auto simp: Let_def intro: shrinks_trans)
qed simp

lemma shrinks_session_end: "shrinks s (snd (session_end sid s))"
  by (cases s) (simp add: session_end_def shrinks_ctx)

lemma shrinks_grace_expired: "shrinks s (grace_expired now gen sid s)"
  by (simp add: grace_expired_def shrinks_end_participant split: option.split)

lemma shrinks_launch_agents: "shrinks s (launch_agents jwt env now ds s)"
  by (cases s) (simp add: launch_agents_def shrinks_ctx)

lemma shrinks_on_media_disconnected: "shrinks s (on_media_disconnected now failed sid s)"
  by (simp add: on_media_disconnected_def shrinks_end_participant)

end
