(* ===== verification/System.thy ===== *)
theory System
  imports Roster
begin

text \<open>
  The whole server as a transition system: every handler, spawned task and background
  job is a step on the state of the server (\<open>lk-server/src/server.rs\<close> and everything it
  holds).  The lemmas show that each step keeps the registry, the gauges and the
  routing of media consistent, and is a step of the roster.
\<close>

section \<open>Steps\<close>

definition server_new :: "room_config \<Rightarrow> string \<Rightarrow> string list \<Rightarrow> attrs \<Rightarrow> agent_manager \<Rightarrow> cluster \<Rightarrow> server" where
  "server_new c region codecs keys am cl =
     \<lparr> sv_config = c, sv_region = region, sv_codecs = codecs, sv_keys = keys, sv_rooms = [],
       sv_ctx = \<lparr> cx_metrics = metrics_new, cx_webhooks = [], cx_agent = am, cx_cluster = cl, cx_speakers = [] \<rparr>,
       sv_launches = [] \<rparr>"

definition set_agent :: "agent_manager \<Rightarrow> server \<Rightarrow> server" where
  "set_agent am sv = sv\<lparr> sv_ctx := (sv_ctx sv)\<lparr> cx_agent := am \<rparr> \<rparr>"

text \<open>What happens in one room.\<close>

inductive room_op :: "room \<times> ctx \<Rightarrow> room \<times> ctx \<Rightarrow> bool" where
  op_session_start: "room_op s (session_start env resume params sid s)"
| op_launch_agents: "room_op s (launch_agents jwt aenv now dispatches s)"
| op_requests: "room_op s (session_loop sid reqs s)"
| op_session_end: "room_op s (snd (session_end sid s))"
| op_grace: "room_op s (grace_expired now gen sid s)"
| op_media_lost: "room_op s (on_media_disconnected now failed sid s)"
| op_track: "room_op s (on_track draws now cid mid sid s)"
| op_track_ended: "room_op s (on_track_ended sid tid s)"
| op_ice: "room_op (r, cx) (on_ice_connected sid r, cx)"
| op_data: "room_op (r, cx) (handle_incoming_data decode sid data lossy r, cx)"
| op_negotiate: "room_op (r, cx) (upd sid (run_task offer i) r, cx)"
| op_speakers: "room_op s (room_speakers now s)"

text \<open>What happens in the server.  A joining participant has a freshly drawn id.\<close>

inductive server_step :: "server \<Rightarrow> server \<Rightarrow> bool" where
  step_join: "(\<forall>r. get_room (vg_room (vt_video token)) sv = Some r \<longrightarrow> get_participant (new_participant_sid (draws 1)) r = None) \<Longrightarrow>
    server_step sv (snd (run_session_join draws now token params sv))"
| step_room: "get_room nm sv = Some r \<Longrightarrow> room_op (r, sv_ctx sv) (r', cx') \<Longrightarrow> server_step sv (set_room r' cx' sv)"
| step_service: "server_step sv (snd (room_service lims draws now token req sv))"
| step_task: "server_step sv (run_task_of now t sv)"
| step_dispatch_service: "server_step sv (set_agent (snd (agent_dispatch_service draws now token dreq sv)) sv)"
| step_agent: "server_step sv (set_agent am sv)"
| step_launch: "server_step sv (launch_pending_dispatches jwt aenv now sv)"
| step_close: "server_step sv (snd (close_room now nm reason sv))"
| step_timeouts: "server_step sv (check_room_timeouts now sv)"

section \<open>Invariant\<close>

definition server_ok :: "server \<Rightarrow> bool" where
  "server_ok sv \<longleftrightarrow> server_inv sv \<and> (\<forall>nm r. get_room nm sv = Some r \<longrightarrow> subs_inv r)"

section \<open>Lemmas\<close>

lemma sum_list_adjust:
  assumes "keys_distinct m" "look m k = Some v0"
  shows "sum_list (map (\<lambda>(_, x). f x) (adjust k (\<lambda>_. v) m)) + f v0 = sum_list (map (\<lambda>(_, x). f x) m) + (f v :: nat)"
  using assms
proof (induction m)
  case (Cons kv m)
  obtain k' v' where kv: "kv = (k', v')" by fastforce
  show ?case
  proof (cases "k' = k")
    case True
    then have "adjust k (\<lambda>_. v) m = m"
      using Cons.prems(1) by (force simp: kv adjust_def keys_distinct_def intro!: map_idI)
    then show ?thesis using Cons.prems(2) True by (simp add: kv adjust_def look_def)
  next
    case False
    then show ?thesis using Cons by (simp add: kv adjust_def look_def keys_distinct_def)
  qed
qed (simp add: look_def)

lemma server_ok_open:
  assumes "server_ok sv" "get_room nm sv = Some r"
  shows "open_room r" "r_name r = nm"
  using assms by (auto simp: server_ok_def server_inv_def room_ok_def open_room_def get_room_def)

lemma server_ok_set_room:
  assumes "server_ok sv" "get_room nm sv = Some r" "balanced (r, sv_ctx sv) (r', cx')"
  shows "server_ok (set_room r' cx' sv)"
proof -
  note o = server_ok_open [OF assms(1,2)]
  have b: "open_room r'" "r_name r' = nm" "mt_room_total (cx_metrics cx') = mt_room_total (cx_metrics (sv_ctx sv))"
    "mt_participant_total (cx_metrics cx') - int (length (r_participants r')) =
       mt_participant_total (cx_metrics (sv_ctx sv)) - int (length (r_participants r))"
    using assms(3) o by (simp_all add: balanced_def)
  have inv: "keys_distinct (sv_rooms sv)" "look (sv_rooms sv) nm = Some r"
    using assms by (simp_all add: server_ok_def server_inv_def get_room_def)
  have "participant_count (set_room r' cx' sv) + length (r_participants r) = participant_count sv + length (r_participants r')"
    using sum_list_adjust [OF inv, of "\<lambda>r. length (r_participants r)" r'] b(2) by (simp add: participant_count_def set_room_def)
  then have "mt_participant_total (cx_metrics cx') = int (participant_count (set_room r' cx' sv))"
    using b(4) assms(1) by (simp add: server_ok_def server_inv_def)
  moreover have "length (sv_rooms (set_room r' cx' sv)) = length (sv_rooms sv)" by (simp add: set_room_def adjust_def)
  moreover have "keys_distinct (sv_rooms (set_room r' cx' sv))" using inv(1) by (simp add: set_room_def)
  moreover have g: "look (sv_rooms (set_room r' cx' sv)) n = (if n = nm then Some r' else look (sv_rooms sv) n)" for n
    using inv(2) b(2) by (simp add: set_room_def)
  ultimately show ?thesis
    using assms(1) b(1-3) get_set_room(2) [of r' cx' sv]
    by (auto simp: server_ok_def server_inv_def room_ok_def open_room_def get_room_def split: if_splits)
qed

subsection \<open>Rooms\<close>

lemma run_task_keeps: "keeps_identity (run_task offer i)" "keeps_routes (run_task offer i)"
  by (auto simp: keeps_defs run_task_def subscribe_negotiation_def negotiation_due_def Let_def
      split: offer_result.split option.split)

lemma collect_speakers_map:
  "snd (collect_speakers now ps) = map (\<lambda>(k, p). (k, p\<lparr> p_media := snd (speaker_of now (p_sid p) (p_media p)) \<rparr>)) ps"
  by (induction ps) (auto simp: split_def Let_def)

lemma first_active_subscribers:
  "look (snd (first_active now fs)) k = Some f' \<Longrightarrow> \<exists>f. look fs k = Some f \<and> f_subscribers f' = f_subscribers f"
proof (induction fs)
  case (Cons kf fs)
  obtain k' f where kf: "kf = (k', f)" by fastforce
  show ?case
  proof (cases "k = k'")
    case True
    with Cons.prems show ?thesis by (auto simp: kf look_def Let_def split_def split: if_splits)
  next
    case False
    with Cons show ?thesis by (auto simp: kf look_def Let_def split_def split: if_splits)
  qed
qed simp

lemma quiet_room_speakers: "quiet s (room_speakers now s)"
proof -
  obtain r cx where s: "s = (r, cx)" by fastforce
  let ?f = "\<lambda>p. p\<lparr> p_media := snd (speaker_of now (p_sid p) (p_media p)) \<rparr>"
  let ?r1 = "r\<lparr> r_participants := snd (collect_speakers now (r_participants r)) \<rparr>"
  have r1: "?r1 = map_participants ?f r" by (simp add: collect_speakers_map map_participants_def)
  have se: "sender_of k t ?r1 = sender_of k t r" for k t
    unfolding r1 by (cases "get_participant k r") (simp_all add: sender_of_def speaker_of_def split_def Let_def)
  have fw: "\<exists>f. forwarder_of k t r = Some f \<and> f_subscribers f' = f_subscribers f" if "forwarder_of k t ?r1 = Some f'" for k t f'
    using that unfolding r1 by (cases "get_participant k r")
      (auto simp: forwarder_of_def speaker_of_def split_def Let_def dest: first_active_subscribers)
  have "subs_inv ?r1" if "subs_inv r"
    unfolding subs_inv_def
  proof (intro allI impI)
    fix k t f' sid assume "forwarder_of k t ?r1 = Some f'" "look (f_subscribers f') sid \<noteq> None"
    then obtain f where "forwarder_of k t r = Some f" "look (f_subscribers f) sid \<noteq> None" using fw by metis
    then show "sender_of sid t ?r1 \<noteq> None" using that unfolding se subs_inv_def by blast
  qed
  moreover have "same_room r ?r1" unfolding r1 by (rule same_room_map) (simp add: keeps_identity_def)
  ultimately have q1: "quiet (r, cx) (?r1, cx)" by (simp add: quiet_def)
  have "quiet (?r1, cx) (map_participants (\<lambda>p. snd (send_update m p)) ?r1, cx\<lparr> cx_speakers := x \<rparr>)" for m x
    by (rule quiet_trans [OF quiet_upd(2) quiet_ctx]) (simp_all add: keeps_defs totals_def)
  from quiet_trans [OF q1 this] q1 show ?thesis by (simp add: s room_speakers_def split_def Let_def)
qed

lemma balanced_room_op:
  assumes "room_op s s'"
  shows "balanced s s'"
  using assms
proof cases
  case (op_negotiate r cx sid offer i)
  then show ?thesis by (auto intro: quiet_balanced quiet_upd run_task_keeps)
qed (auto intro: balanced_session_start balanced_launch_agents balanced_session_loop balanced_session_end
    balanced_grace_expired balanced_on_media_disconnected
    quiet_balanced quiet_on_track quiet_on_track_ended quiet_on_ice_connected quiet_handle_incoming_data quiet_room_speakers)

lemma room_op_shrinks:
  assumes "room_op s s'"
  shows "shrinks s s'"
  using assms
proof cases
  case (op_negotiate r cx sid offer i)
  then show ?thesis by (auto intro: quiet_shrinks quiet_upd run_task_keeps)
qed (auto intro: shrinks_session_start shrinks_launch_agents shrinks_session_loop shrinks_session_end
    shrinks_grace_expired shrinks_on_media_disconnected
    quiet_shrinks quiet_on_track quiet_on_track_ended quiet_on_ice_connected quiet_handle_incoming_data quiet_room_speakers)

subsection \<open>The registry\<close>

text \<open>A step that keeps the invariant and lets nobody in.\<close>

definition calm :: "server \<Rightarrow> server \<Rightarrow> bool" where
  "calm sv sv' \<longleftrightarrow> server_ok sv' \<and> roster sv' \<subseteq> roster sv"

lemma calm_refl [simp]: "calm sv sv = server_ok sv"
  by (simp add: calm_def)

lemma calm_trans: "calm sv sv1 \<Longrightarrow> calm sv1 sv2 \<Longrightarrow> calm sv sv2"
  unfolding calm_def by blast

lemma calmD: "calm sv sv' \<Longrightarrow> server_ok sv'"
  by (simp add: calm_def)

lemma roster_mono:
  assumes "\<And>nm r'. get_room nm sv' = Some r' \<Longrightarrow> members r' = {} \<or> (\<exists>r. get_room nm sv = Some r \<and> members r' \<subseteq> members r)"
  shows "roster sv' \<subseteq> roster sv"
proof (rule subsetI)
  fix x assume "x \<in> roster sv'"
  then obtain nm i k r' where x: "x = (nm, i, k)" "get_room nm sv' = Some r'" "(i, k) \<in> members r'" by (auto simp: roster_def)
  then obtain r where "get_room nm sv = Some r" "(i, k) \<in> members r" using assms [OF x(2)] by blast
  then show "x \<in> roster sv" by (auto simp: roster_def x(1))
qed

lemma calm_set_room:
  assumes "server_ok sv" "get_room nm sv = Some r" "balanced (r, sv_ctx sv) (r', cx')" "shrinks (r, sv_ctx sv) (r', cx')"
  shows "calm sv (set_room r' cx' sv)"
proof -
  have "r_name r' = nm" using assms(3) server_ok_open [OF assms(1,2)] by (simp add: balanced_def)
  then have "roster (set_room r' cx' sv) \<subseteq> roster sv"
    using assms(2,4) by (intro roster_mono) (auto simp: get_set_room shrinks_def split: if_splits)
  then show ?thesis using server_ok_set_room [OF assms(1-3)] by (simp add: calm_def)
qed

lemma calm_with_room:
  assumes "server_ok sv" "\<And>s. balanced s (f s)" "\<And>s. shrinks s (f s)"
  shows "calm sv (with_room nm f sv)"
proof (cases "get_room nm sv")
  case (Some r)
  let ?s = "f (r, sv_ctx sv)"
  have "balanced (r, sv_ctx sv) (fst ?s, snd ?s)" "shrinks (r, sv_ctx sv) (fst ?s, snd ?s)" using assms(2,3) by simp_all
  from calm_set_room [OF assms(1) Some this] Some show ?thesis by (simp add: with_room_def split_def Let_def)
qed (simp add: with_room_def assms)

lemma calm_ctx:
  assumes "server_ok sv" "mt_room_total (cx_metrics cx) = mt_room_total (cx_metrics (sv_ctx sv))"
    and "mt_participant_total (cx_metrics cx) = mt_participant_total (cx_metrics (sv_ctx sv))"
  shows "calm sv (sv\<lparr> sv_ctx := cx \<rparr>)"
  using assms by (simp add: calm_def server_ok_def server_inv_def roster_def get_room_def participant_count_def)

lemma calm_launches: "server_ok sv \<Longrightarrow> calm sv (sv\<lparr> sv_launches := l \<rparr>)"
  by (simp add: calm_def server_ok_def server_inv_def roster_def get_room_def participant_count_def)

lemma calm_create:
  assumes "server_ok sv" "get_or_create_room draws now nm sv = (r, sv1)"
  shows "calm sv sv1" "get_room nm sv1 = Some r"
proof -
  have "server_inv sv1" using server_inv_create [of sv draws now nm] assms by (simp add: server_ok_def)
  have old: "get_room k sv = Some x \<or> r_participants x = []" if "get_room k sv1 = Some x" for k x
    using assms(2) that by (auto simp: get_or_create_room_def get_room_def room_new_def Let_def split: option.splits if_splits)
  have new: "subs_inv x" "members x = {}" if "r_participants x = []" for x
    using that by (simp_all add: subs_inv_def forwarder_of_def get_participant_def members_def)
  have "subs_inv x" if "get_room k sv1 = Some x" for k x
    using old [OF that] new(1) assms(1) unfolding server_ok_def by blast
  moreover have "roster sv1 \<subseteq> roster sv" by (rule roster_mono) (use old new(2) in blast)
  ultimately show "calm sv sv1" using \<open>server_inv sv1\<close> by (simp add: calm_def server_ok_def)
  show "get_room nm sv1 = Some r" using get_or_create_room_spec(1) [OF _ assms(2)] assms(1) by (simp add: server_ok_def)
qed

lemma calm_remove:
  assumes "server_inv sv'" "\<And>k r. get_room k sv' = Some r \<Longrightarrow> get_room k sv = Some r" "server_ok sv"
  shows "calm sv sv'"
  using assms(1,3) assms(2) [THEN assms(3) [unfolded server_ok_def, THEN conjunct2, rule_format]] roster_mono [of sv' sv] assms(2)
  unfolding server_ok_def calm_def by blast

lemma calm_close_room:
  assumes "server_ok sv"
  shows "calm sv (snd (close_room now nm reason sv))"
proof (cases "get_room nm sv")
  case (Some r)
  have inv: "server_inv sv" using assms by (simp add: server_ok_def)
  obtain gone r' cx' infos where
    "close_in_server now reason r sv = (gone, sv\<lparr> sv_rooms := del nm (sv_rooms sv), sv_ctx := cx' \<rparr>)"
    by (rule close_in_server_open [OF inv Some])
  then have "get_room k (snd (close_in_server now reason r sv)) = Some x \<Longrightarrow> get_room k sv = Some x" for k x
    by (simp add: get_room_def split: if_splits)
  from calm_remove [OF server_inv_close [OF inv Some] this assms] Some show ?thesis by (simp add: close_room_def)
qed (simp add: close_room_def assms)

lemma calm_timeouts:
  assumes "server_ok sv"
  shows "calm sv (check_room_timeouts now sv)"
proof -
  have inv: "server_inv sv" using assms by (simp add: server_ok_def)
  note spec = check_rooms_spec [OF inv, of now "map fst (sv_rooms sv)", folded check_room_timeouts_def]
  show ?thesis
    by (rule calm_remove [OF conjunct1 [OF spec] _ assms]) (simp add: spec split: option.splits if_splits)
qed

subsection \<open>Joining\<close>

lemma join_denied_None: "join_denied token params = None \<Longrightarrow> may_join token"
  by (auto simp: join_denied_def may_join_def split: if_splits)

lemma roster_join_room:
  assumes "get_room nm sv = Some r" "r_name r' = nm" "members r' = insert (i, k) {(j, l) \<in> members r. j \<noteq> i}"
  shows "roster (set_room r' cx' sv) = insert (nm, i, k) {(n, j, l) \<in> roster sv. \<not> (n = nm \<and> j = i)}"
proof -
  have "(n, j, l) \<in> roster (set_room r' cx' sv) \<longleftrightarrow> (n, j, l) \<in> insert (nm, i, k) {(n, j, l) \<in> roster sv. \<not> (n = nm \<and> j = i)}" for n j l
    using assms by (cases "n = nm") (auto simp: roster_def get_set_room)
  then show ?thesis by (simp add: set_eq_iff)
qed

definition join_outcome :: "verified_token \<Rightarrow> string \<Rightarrow> server \<Rightarrow> server \<Rightarrow> bool" where
  "join_outcome token sid sv sv' \<longleftrightarrow> server_ok sv'
     \<and> (roster sv' \<subseteq> roster sv \<or> may_join token \<and> roster sv' = enter token sid (roster sv))"

lemma join_room_ok:
  assumes "server_ok sv"
    and "\<forall>r. get_room (vg_room (vt_video token)) sv = Some r \<longrightarrow> get_participant (new_participant_sid (draws 1)) r = None"
  shows "join_outcome token (new_participant_sid (draws 1)) sv (snd (join_room draws now token params knd sv))"
proof (cases "join_denied token params")
  case None
  let ?nm = "vg_room (vt_video token)" and ?p = "joining_participant (draws 1) now token params knd"
  let ?sid = "new_participant_sid (draws 1)"
  obtain r sv1 where g: "get_or_create_room (draws 0) now ?nm sv = (r, sv1)" by fastforce
  note c1 = calm_create [OF assms(1) g]
  have inv: "server_inv sv" using assms(1) by (simp add: server_ok_def)
  note gs = get_or_create_room_spec [OF inv g]
  obtain r2 cx2 where d: "end_duplicate now (vt_identity token) (r, sv_ctx sv1) = (r2, cx2)" by fastforce
  have fresh: "get_participant (p_sid ?p) r2 = None" and fresh1: "get_participant ?sid r = None"
    using end_duplicate_spec [OF gs(2) d] gs(6) assms(2) by (auto simp: get_participant_def)
  have media: "m_forwarders (p_media ?p) = []" by (simp add: media_default_def)
  obtain res r3 cx3 where a: "admit now ?p token (r2, cx2) = (res, r3, cx3)" by (metis prod_cases3)
  have j: "snd (join_room draws now token params knd sv) = set_room r3 cx3 sv1" using None g d a by (simp add: join_room_def)
  have b: "balanced (r, sv_ctx sv1) (r3, cx3)"
    using balanced_trans [OF balanced_end_duplicate [of "(r, sv_ctx sv1)" now "vt_identity token", unfolded d]
        balanced_admit [of ?p "(r2, cx2)", OF _ media, of now token, unfolded a]] fresh by simp
  have nm: "r_name r3 = ?nm" using b server_ok_open [OF calmD [OF c1(1)] c1(2)] by (simp add: balanced_def)
  note m = members_admit [OF fresh a] members_end_duplicate [OF gs(2) d]
  have "roster (set_room r3 cx3 sv1) \<subseteq> roster sv \<or> roster (set_room r3 cx3 sv1) = enter token ?sid (roster sv)"
  proof (cases res)
    case (Inl e)
    then have "shrinks (r, sv_ctx sv1) (r3, cx3)" using m by (auto simp: shrinks_def)
    from calm_set_room [OF calmD [OF c1(1)] c1(2) b this] c1(1) have "calm sv (set_room r3 cx3 sv1)" by (blast intro: calm_trans)
    then show ?thesis by (simp add: calm_def)
  next
    case (Inr x)
    then have "roster (set_room r3 cx3 sv1) = insert (?nm, vt_identity token, ?sid)
        {(n, j, l) \<in> roster sv1. \<not> (n = ?nm \<and> j = vt_identity token)}"
      using roster_join_room [OF c1(2) nm, of "vt_identity token" ?sid cx3] m by simp
    moreover have "roster sv1 = roster sv"
      using g by (auto simp: get_or_create_room_def roster_def get_room_def members_def get_participant_def room_new_def
          Let_def split: option.splits if_splits)
    ultimately show ?thesis by (simp add: enter_def)
  qed
  then show ?thesis
    using server_ok_set_room [OF calmD [OF c1(1)] c1(2) b] join_denied_None [OF None] by (auto simp: join_outcome_def j)
qed (simp add: join_room_def join_outcome_def assms(1))

lemma resume_room_participant_cases:
  "snd (resume_room_participant token params sv) = sv
   \<or> (\<exists>nm r sid. get_room nm sv = Some r \<and> snd (resume_room_participant token params sv) =
        set_room (upd sid (\<lambda>p. p\<lparr> p_resume_gen := p_resume_gen p + 1 \<rparr>) r) (sv_ctx sv) sv)"
  by (auto simp: resume_room_participant_def split: option.split)

lemma calm_quiet:
  assumes "server_ok sv" "get_room nm sv = Some r" "quiet (r, sv_ctx sv) (r', sv_ctx sv)"
  shows "calm sv (set_room r' (sv_ctx sv) sv)"
  using assms by (blast intro: calm_set_room quiet_balanced quiet_shrinks)

lemma calm_resume:
  assumes "server_ok sv"
  shows "calm sv (snd (resume_room_participant token params sv))"
  using resume_room_participant_cases [of token params sv]
proof (elim disjE exE conjE)
  fix nm r sid assume g: "get_room nm sv = Some r" and e: "snd (resume_room_participant token params sv) =
      set_room (upd sid (\<lambda>p. p\<lparr> p_resume_gen := p_resume_gen p + 1 \<rparr>) r) (sv_ctx sv) sv"
  show ?thesis unfolding e by (rule calm_quiet [OF assms g], rule quiet_upd) (simp_all add: keeps_defs)
qed (simp add: assms)

lemma resume_None: "resume_room_participant token params sv = (None, sv') \<Longrightarrow> sv' = sv"
  by (auto simp: resume_room_participant_def split: option.splits if_splits)

lemma run_session_join_ok:
  assumes "server_ok sv"
    and "\<forall>r. get_room (vg_room (vt_video token)) sv = Some r \<longrightarrow> get_participant (new_participant_sid (draws 1)) r = None"
  shows "join_outcome token (new_participant_sid (draws 1)) sv (snd (run_session_join draws now token params sv))"
proof -
  obtain res sv1 where r: "(if ss_reconnect params then resume_room_participant token params sv else (None, sv)) = (res, sv1)"
    by fastforce
  show ?thesis
  proof (cases res)
    case (Some sid)
    then have "sv1 = snd (resume_room_participant token params sv)" using r by (auto split: if_splits)
    then show ?thesis using Some r calm_resume [OF assms(1), of token params]
      by (simp add: run_session_join_def calm_def join_outcome_def)
  next
    case None
    then have "sv1 = sv" using r resume_None by (auto split: if_splits)
    obtain jr sv2 where j: "join_room draws now token params (participant_kind_from_token token) sv = (jr, sv2)" by fastforce
    then have ok: "join_outcome token (new_participant_sid (draws 1)) sv sv2"
      using join_room_ok [of sv token draws, OF assms, of now params "participant_kind_from_token token"] by simp
    have "roster (sv2\<lparr> sv_ctx := cx \<rparr>) = roster sv2" for cx by (simp add: roster_def get_room_def)
    then show ?thesis
      using None r \<open>sv1 = sv\<close> j ok
      by (auto simp: run_session_join_def join_outcome_def split: sum.split intro!: calmD [OF calm_ctx])
  qed
qed

subsection \<open>Services\<close>

lemma quiet_settings:
  assumes "r_participants r' = r_participants r" "r_name r' = r_name r" "r_closed r' = r_closed r"
    "r_on_close r' = r_on_close r" "r_ever_joined r' = r_ever_joined r" "r_empty_since r' = r_empty_since r"
  shows "quiet (r, cx) (r', cx)"
  using assms by (simp add: quiet_def same_room_def subs_inv_def forwarder_of_def sender_of_def get_participant_def)

lemma quiet_infos_of: "quiet (r, cx) (snd (infos_of sids r), cx)"
proof (induction sids arbitrary: r)
  case (Cons sid sids)
  obtain i r1 where i: "info_of sid r = (i, r1)" by fastforce
  have "quiet (r, cx) (r1, cx)" using quiet_info [of r cx sid] i by simp
  from quiet_trans [OF this Cons.IH] show ?case by (simp add: i split_def Let_def)
qed simp

lemma change_participant_keeps:
  "keeps_identity (\<lambda>p. snd (change_participant q p))" "keeps_routes (\<lambda>p. snd (change_participant q p))"
  by (simp_all add: keeps_defs change_participant_def update_metadata_def update_permission_def set_attributes_def
      Let_def split_def split: option.split)

lemma calm_participant_response:
  assumes "server_ok sv" "get_room nm sv = Some r0" "quiet (r0, sv_ctx sv) (r, sv_ctx sv)"
  shows "calm sv (snd (participant_response sid r sv))"
proof -
  obtain i r1 where i: "info_of sid r = (i, r1)" by fastforce
  have "quiet (r0, sv_ctx sv) (r1, sv_ctx sv)" using quiet_trans [OF assms(3) quiet_info [of r _ sid]] i by simp
  from calm_quiet [OF assms(1,2) this] assms(1) show ?thesis
    by (simp add: participant_response_def i split: option.split)
qed

lemma find_room_Inr: "find_room nm sv = Inr r \<Longrightarrow> get_room nm sv = Some r"
  by (cases "get_room nm sv") (simp_all add: find_room_def)

lemma calm_with_participant:
  assumes "server_ok sv" "\<And>r p. get_room nm sv = Some r \<Longrightarrow> calm sv (snd (f r p))"
  shows "calm sv (snd (with_participant nm identity sv f))"
  using assms
  by (cases "get_room nm sv"; cases "get_participant_by_identity identity (the (get_room nm sv))")
    (auto simp: with_participant_def find_room_def find_participant_def)

lemma calm_create_room:
  assumes "server_ok sv"
  shows "calm sv (snd (create_room lims draws now q sv))"
proof (cases "create_room lims draws now q sv")
  case (Pair res sv')
  show ?thesis
  proof (cases res)
    case (Inl e)
    then have "sv' = sv" using Pair no_effect_parts(1) [of sv lims draws now q] by simp
    then show ?thesis using Pair assms by simp
  next
    case (Inr a)
    then obtain resp tasks where "create_room lims draws now q sv = (Inr (resp, tasks), sv')" using Pair by (cases a) simp
    from create_room_spec(4) [OF this] obtain r sv1
      where g: "get_or_create_room draws now (cr_name q) sv = (r, sv1)" and e: "sv' = set_room (configure_room now q r) (sv_ctx sv1) sv1"
      by blast
    note c = calm_create [OF assms g]
    show ?thesis unfolding Pair e snd_conv
      by (rule calm_trans [OF c(1) calm_quiet [OF calmD [OF c(1)] c(2)]], rule quiet_settings) simp_all
  qed
qed

lemma calm_update_participant:
  assumes "server_ok sv" "get_room nm sv = Some r"
  shows "calm sv (snd (update_participant lims q sv r p))"
proof -
  let ?r1 = "upd (p_sid p) (\<lambda>p. snd (change_participant q p)) r"
  have "quiet (r, sv_ctx sv) (?r1, sv_ctx sv)" by (rule quiet_upd(1) [OF change_participant_keeps])
  from calm_participant_response [OF assms this]
    calm_participant_response [OF assms quiet_then_own_update [OF this]] assms(1)
  show ?thesis by (simp add: update_participant_def Let_def split: sum.split)
qed

lemma calm_update_room_metadata:
  assumes "server_ok sv"
  shows "calm sv (snd (update_room_metadata lims now nm metadata sv))"
proof (cases "get_room nm sv")
  case (Some r)
  obtain c r1 where u: "room_update_metadata now metadata r = (c, r1)" by fastforce
  have q1: "quiet (r, sv_ctx sv) (r1, sv_ctx sv)"
    using u by (intro quiet_settings) (auto simp: room_update_metadata_def room_bump_version_def Let_def split: if_splits)
  have "quiet (r1, sv_ctx sv) (broadcast_room_update r1, sv_ctx sv)"
    unfolding broadcast_room_update_def Let_def by (rule quiet_upd(2)) (simp_all add: keeps_defs)
  then have q2: "quiet (r, sv_ctx sv) (broadcast_room_update r1, sv_ctx sv)" using q1 by (rule quiet_trans [rotated])
  from calm_quiet [OF assms Some q1] calm_quiet [OF assms Some q2] assms Some u show ?thesis
    by (simp add: update_room_metadata_def find_room_def Let_def validate_metadata_def)
qed (simp add: assms update_room_metadata_def find_room_def validate_metadata_def)

lemma calm_mute:
  assumes "server_ok sv" "get_room nm sv = Some r"
  shows "calm sv (snd (mute_published_track now tid muted sv r p))"
  using assms(1) calm_quiet [OF assms quiet_upd(1) [OF set_track_keeps]]
  by (simp add: mute_published_track_def Let_def split: option.split)

lemma calm_list_participants:
  assumes "server_ok sv"
  shows "calm sv (snd (list_participants nm sv))"
proof (cases "get_room nm sv")
  case (Some r)
  from calm_quiet [OF assms Some quiet_infos_of] Some show ?thesis
    by (simp add: list_participants_def find_room_def split_def Let_def)
qed (simp add: assms list_participants_def find_room_def)

lemma calm_send_data:
  assumes "server_ok sv" "get_room nm sv = Some r"
  shows "calm sv (set_room (broadcast_data dp ex r) (sv_ctx sv) sv)"
  by (rule calm_quiet [OF assms]) (unfold broadcast_data_def, rule quiet_upd(2) [OF send_data_keeps])

lemmas calm_services =
  calm_create_room calm_update_participant calm_update_room_metadata calm_mute calm_list_participants
  calm_participant_response calm_with_participant calm_send_data

lemma calm_parsed:
  assumes "server_ok sv" "\<And>q. calm sv (snd (f q))"
  shows "calm sv (snd (parsed body sv f))"
  using assms by (cases body) simp_all

lemma calm_room_service:
  assumes "server_ok sv"
  shows "calm sv (snd (room_service lims draws now token req sv))"
  using assms by (cases "(token, req)" rule: service_grant.cases)
    (auto intro!: calm_parsed calm_services split: sum.split dest!: find_room_Inr)

lemma calm_task:
  assumes "server_ok sv"
  shows "calm sv (run_task_of now t sv)"
proof (cases t)
  case (TaskMute nm sid tid muted)
  have "balanced s ((\<lambda>(r, cx). (set_track_muted now tid muted True sid r, cx)) s)"
    "shrinks s ((\<lambda>(r, cx). (set_track_muted now tid muted True sid r, cx)) s)" for s
    by (cases s; simp add: quiet_balanced quiet_shrinks quiet_set_track_muted)+
  then show ?thesis unfolding TaskMute run_task_of.simps by (rule calm_with_room [OF assms])
next
  case (TaskDeleteRoom info nm)
  have c: "calm sv (sv\<lparr> sv_ctx := emit (WhRoomFinished info) (sv_ctx sv) \<rparr>)" by (rule calm_ctx [OF assms]) simp_all
  show ?thesis unfolding TaskDeleteRoom run_task_of.simps by (rule calm_trans [OF c calm_close_room [OF calmD [OF c]]])
qed (use assms in \<open>auto intro!: calm_with_room calm_ctx balanced_end_participant shrinks_end_participant
    quiet_balanced quiet_shrinks quiet_handle_update_subscriptions\<close>)

lemma calm_set_agent: "server_ok sv \<Longrightarrow> calm sv (set_agent am sv)"
  unfolding set_agent_def by (rule calm_ctx) simp_all

lemma calm_launch: "server_ok sv \<Longrightarrow> calm sv (launch_pending_dispatches jwt env now sv)"
proof -
  assume "server_ok sv"
  then have 1: "calm sv (sv\<lparr> sv_launches := l \<rparr>)" for l by (rule calm_launches)
  have "calm sv (sv\<lparr> sv_launches := l, sv_ctx := (sv_ctx sv)\<lparr> cx_agent := am \<rparr> \<rparr>)" for l am
    by (rule calm_trans [OF 1 calm_ctx [OF calmD [OF 1]]]) simp_all
  with 1 \<open>server_ok sv\<close> show ?thesis
    by (simp add: launch_pending_dispatches_def Let_def split: list.split option.split)
qed

section \<open>The server refines the roster\<close>

lemma server_ok_new: "server_ok (server_new c region codecs keys am cl)"
  by (simp add: server_ok_def server_inv_def server_new_def get_room_def participant_count_def metrics_new_def keys_distinct_def)

lemma roster_new: "roster (server_new c region codecs keys am cl) = {}"
  by (simp add: roster_def server_new_def get_room_def)

lemma calm_roster_step: "calm sv sv' \<Longrightarrow> server_ok sv' \<and> roster_step (roster sv) (roster sv')"
  by (simp add: calm_def roster_leave)

lemma server_step_ok:
  assumes "server_step sv sv'" "server_ok sv"
  shows "server_ok sv' \<and> roster_step (roster sv) (roster sv')"
  using assms(1)
proof cases
  case (step_join token draws now params)
  then have "join_outcome token (new_participant_sid (draws 1)) sv sv'"
    using run_session_join_ok [of sv token draws, OF assms(2), of now params] by blast
  moreover have "\<forall>i. (vg_room (vt_video token), i, new_participant_sid (draws 1)) \<notin> roster sv"
    using step_join(2) by (auto simp: roster_def members_def)
  ultimately show ?thesis by (auto simp: join_outcome_def intro: roster_step.intros)
next
  case (step_room nm r r' cx')
  then show ?thesis
    unfolding step_room(1) by (intro calm_roster_step calm_set_room [OF assms(2)] balanced_room_op room_op_shrinks)
qed (simp_all add: assms(2) calm_roster_step calm_room_service calm_task calm_set_agent calm_launch calm_close_room calm_timeouts
    calm_room_service [THEN calmD] calm_task [THEN calmD] calm_set_agent [THEN calmD] calm_launch [THEN calmD]
    calm_close_room [THEN calmD] calm_timeouts [THEN calmD])

lemma server_steps_ok:
  assumes "server_step\<^sup>*\<^sup>* sv sv'" "server_ok sv"
  shows "server_ok sv' \<and> roster_step\<^sup>*\<^sup>* (roster sv) (roster sv')"
  using assms
proof (induction rule: rtranclp_induct)
  case (step sv1 sv2)
  then have 1: "server_ok sv1" "roster_step\<^sup>*\<^sup>* (roster sv) (roster sv1)" by simp_all
  from server_step_ok [OF step.hyps(2) 1(1)] 1(2) show ?case by (auto intro: rtranclp.rtrancl_into_rtrancl)
qed simp

end
