(* ===== verification/Sip_Types.thy ===== *)
theory Sip_Types
  imports LK_Strings
begin

text \<open>
  The messages of telephony that the server stores and exchanges
  (\<open>protos/livekit_sip.proto\<close>, \<open>protos/rpc/io.proto\<close>).  Enumerations are the integers of
  the wire; messages the program only passes on are their encoding.
\<close>

type_synonym duration_msg = "int \<times> int"
type_synonym timestamp_msg = "int \<times> int"
type_synonym opaque_msg = "8 word list"

record sip_media =
  sm_only_listed_codecs :: bool
  sm_codecs :: "(string \<times> 32 word) list"
  sm_encryption :: "int option"
  sm_media_timeout :: "duration_msg option"

record inbound_trunk =
  it_sip_trunk_id :: string
  it_name :: string
  it_metadata :: string
  it_numbers :: "string list"
  it_allowed_addresses :: "string list"
  it_allowed_numbers :: "string list"
  it_auth_username :: string
  it_auth_password :: string
  it_auth_realm :: string
  it_headers :: attrs
  it_headers_to_attributes :: attrs
  it_attributes_to_headers :: attrs
  it_include_headers :: int
  it_ringing_timeout :: "duration_msg option"
  it_max_call_duration :: "duration_msg option"
  it_krisp_enabled :: bool
  it_media_encryption :: int
  it_media :: "sip_media option"
  it_created_at :: "timestamp_msg option"
  it_updated_at :: "timestamp_msg option"

definition inbound_trunk_default :: inbound_trunk where
  "inbound_trunk_default =
     \<lparr> it_sip_trunk_id = [], it_name = [], it_metadata = [], it_numbers = [], it_allowed_addresses = [], it_allowed_numbers = [],
       it_auth_username = [], it_auth_password = [], it_auth_realm = [], it_headers = [], it_headers_to_attributes = [],
       it_attributes_to_headers = [], it_include_headers = 0, it_ringing_timeout = None, it_max_call_duration = None,
       it_krisp_enabled = False, it_media_encryption = 0, it_media = None, it_created_at = None, it_updated_at = None \<rparr>"

record outbound_trunk =
  ot_sip_trunk_id :: string
  ot_name :: string
  ot_metadata :: string
  ot_address :: string
  ot_destination_country :: string
  ot_transport :: int
  ot_numbers :: "string list"
  ot_auth_username :: string
  ot_auth_password :: string
  ot_headers :: attrs
  ot_headers_to_attributes :: attrs
  ot_attributes_to_headers :: attrs
  ot_include_headers :: int
  ot_media_encryption :: int
  ot_media :: "sip_media option"
  ot_from_host :: string
  ot_created_at :: "timestamp_msg option"
  ot_updated_at :: "timestamp_msg option"

definition outbound_trunk_default :: outbound_trunk where
  "outbound_trunk_default =
     \<lparr> ot_sip_trunk_id = [], ot_name = [], ot_metadata = [], ot_address = [], ot_destination_country = [], ot_transport = 0,
       ot_numbers = [], ot_auth_username = [], ot_auth_password = [], ot_headers = [], ot_headers_to_attributes = [],
       ot_attributes_to_headers = [], ot_include_headers = 0, ot_media_encryption = 0, ot_media = None, ot_from_host = [],
       ot_created_at = None, ot_updated_at = None \<rparr>"

text \<open>The kinds of dispatch rule: a room and a pin, a room per caller (prefix, pin, no
  randomness), a room per called number (prefix, pin, randomize).\<close>

datatype dispatch_rule =
  RuleDirect string string
| RuleIndividual string string bool
| RuleCallee string string bool

record dispatch_rule_info =
  dr_sip_dispatch_rule_id :: string
  dr_rule :: "dispatch_rule option option"
  dr_trunk_ids :: "string list"
  dr_hide_phone_number :: bool
  dr_inbound_numbers :: "string list"
  dr_numbers :: "string list"
  dr_name :: string
  dr_metadata :: string
  dr_attributes :: attrs
  dr_room_preset :: string
  dr_room_config :: "opaque_msg option"
  dr_media :: "sip_media option"
  dr_krisp_enabled :: bool
  dr_media_encryption :: int
  dr_created_at :: "timestamp_msg option"
  dr_updated_at :: "timestamp_msg option"

definition dispatch_rule_info_default :: dispatch_rule_info where
  "dispatch_rule_info_default =
     \<lparr> dr_sip_dispatch_rule_id = [], dr_rule = None, dr_trunk_ids = [], dr_hide_phone_number = False, dr_inbound_numbers = [],
       dr_numbers = [], dr_name = [], dr_metadata = [], dr_attributes = [], dr_room_preset = [], dr_room_config = None,
       dr_media = None, dr_krisp_enabled = False, dr_media_encryption = 0, dr_created_at = None, dr_updated_at = None \<rparr>"

record sip_uri =
  su_user :: string
  su_host :: string

record sip_call =
  sc_lk_call_id :: string
  sc_source_ip :: string
  sc_address :: "sip_uri option"
  sc_from :: "sip_uri option"
  sc_to :: "sip_uri option"

section \<open>Media settings\<close>

definition upgrade_media :: "sip_media option \<Rightarrow> int \<Rightarrow> sip_media option" where
  "upgrade_media media encryption =
     map_option (\<lambda>m. if sm_encryption m = None \<and> encryption \<noteq> 0 then m\<lparr> sm_encryption := Some encryption \<rparr> else m) media"

fun merge_media :: "sip_media option \<Rightarrow> sip_media option \<Rightarrow> sip_media option" where
  "merge_media None oth = oth"
| "merge_media (Some b) None = Some b"
| "merge_media (Some b) (Some oth) =
     Some \<lparr> sm_only_listed_codecs = (if sm_only_listed_codecs b then True else sm_only_listed_codecs oth),
            sm_codecs = (if sm_codecs b = [] then sm_codecs oth else sm_codecs b),
            sm_encryption = (if sm_encryption b = None then sm_encryption oth else sm_encryption b),
            sm_media_timeout = (if sm_media_timeout b = None then sm_media_timeout oth else sm_media_timeout b) \<rparr>"

text \<open>Merging keeps what the base sets and is associative, so the order in which
  overlays are applied does not matter.\<close>

lemma merge_media_assoc: "merge_media (merge_media a b) c = merge_media a (merge_media b c)"
  by (cases a; cases b; cases c) auto

lemma merge_media_base:
  "merge_media (Some b) oth = Some m \<Longrightarrow>
   (sm_encryption b \<noteq> None \<longrightarrow> sm_encryption m = sm_encryption b) \<and> (sm_codecs b \<noteq> [] \<longrightarrow> sm_codecs m = sm_codecs b)"
  by (cases oth) auto

end
