(* ===== verification/Egress_Types.thy ===== *)
theory Egress_Types
  imports Sip_Types
begin

text \<open>
  Requests to record and the state of a recording (\<open>protos/livekit_egress.proto\<close>,
  \<open>protos/rpc/egress.proto\<close>).  The options of an output that the program only passes on
  are their encoding.
\<close>

record s3_upload =
  s3_access_key :: string
  s3_secret :: string
  s3_session_token :: string
  s3_assume_role_arn :: string
  s3_assume_role_external_id :: string
  s3_region :: string
  s3_endpoint :: string
  s3_bucket :: string
  s3_force_path_style :: bool
  s3_metadata :: attrs
  s3_tagging :: string
  s3_content_disposition :: string
  s3_proxy :: "opaque_msg option"

record gcp_upload =
  gc_credentials :: string
  gc_bucket :: string
  gc_proxy :: "opaque_msg option"

record azure_upload =
  az_account_name :: string
  az_account_key :: string
  az_container_name :: string

record ali_upload =
  al_access_key :: string
  al_secret :: string
  al_region :: string
  al_endpoint :: string
  al_bucket :: string

datatype upload_cfg = UpS3 s3_upload | UpGcp gcp_upload | UpAzure azure_upload | UpAliOss ali_upload

record encoded_output =
  eo_file_type :: int
  eo_filepath :: string
  eo_disable_manifest :: bool
  eo_output :: "upload_cfg option"

record direct_output =
  do_filepath :: string
  do_disable_manifest :: bool
  do_output :: "upload_cfg option"

record stream_output =
  st_protocol :: int
  st_urls :: "string list"

record segment_output =
  sg_options :: opaque_msg
  sg_output :: "upload_cfg option"

record image_output =
  im_options :: opaque_msg
  im_output :: "upload_cfg option"

datatype single_output = OneFile encoded_output | OneStream stream_output | OneSegments segment_output

text \<open>The lists of outputs that three of the requests have in common.\<close>

record output_lists =
  ol_file_outputs :: "encoded_output list"
  ol_stream_outputs :: "stream_output list"
  ol_segment_outputs :: "segment_output list"
  ol_image_outputs :: "image_output list"

datatype encoding_choice = EncPreset int | EncAdvanced int

record room_composite_req =
  rc_room_name :: string
  rc_output :: "single_output option"
  rc_options :: "encoding_choice option"
  rc_outputs :: output_lists

record participant_req =
  pr_room_name :: string
  pr_identity :: string
  pr_outputs :: output_lists

record track_composite_req =
  tc_room_name :: string
  tc_output :: "single_output option"
  tc_outputs :: output_lists

datatype track_output = TrackFile direct_output | TrackWebsocket string

record track_req =
  tk_room_name :: string
  tk_track_id :: string
  tk_output :: "track_output option"

text \<open>The second version: outputs with their own storage.  A storage message may name no
  provider.\<close>

record file_config =
  fc_file_type :: int
  fc_filepath :: string

datatype output_config = ConfFile file_config | ConfStream stream_output | ConfSegments segment_output | ConfImages image_output

record output_v2 =
  o2_config :: "output_config option"
  o2_storage :: "upload_cfg option option"

record start_req =
  sr_room_name :: string
  sr_outputs :: "output_v2 list"
  sr_storage :: "upload_cfg option option"

datatype egress_request =
  RqRoomComposite room_composite_req
| RqParticipant participant_req
| RqTrackComposite track_composite_req
| RqTrack track_req
| RqEgress start_req
| RqWeb opaque_msg
| RqReplay opaque_msg

text \<open>What the server sends to a recorder.\<close>

record start_egress_msg =
  sm_egress_id :: string
  sm_room_id :: string
  sm_room_name :: string
  sm_request :: "egress_request option"

section \<open>State of a recording\<close>

record file_info =
  fi_filename :: string
  fi_started_at :: int
  fi_ended_at :: int
  fi_duration :: int
  fi_size :: int
  fi_location :: string

text \<open>The status on the wire.\<close>

definition EGRESS_STARTING :: int where "EGRESS_STARTING = 0"
definition EGRESS_ACTIVE :: int where "EGRESS_ACTIVE = 1"
definition EGRESS_ENDING :: int where "EGRESS_ENDING = 2"
definition EGRESS_COMPLETE :: int where "EGRESS_COMPLETE = 3"
definition EGRESS_FAILED :: int where "EGRESS_FAILED = 4"
definition EGRESS_ABORTED :: int where "EGRESS_ABORTED = 5"
definition EGRESS_LIMIT_REACHED :: int where "EGRESS_LIMIT_REACHED = 6"

lemmas egress_status_defs = EGRESS_STARTING_def EGRESS_ACTIVE_def EGRESS_ENDING_def EGRESS_COMPLETE_def EGRESS_FAILED_def
  EGRESS_ABORTED_def EGRESS_LIMIT_REACHED_def

definition EGRESS_SOURCE_SDK :: int where "EGRESS_SOURCE_SDK = 1"

record egress_info =
  ei_egress_id :: string
  ei_room_id :: string
  ei_room_name :: string
  ei_source_type :: int
  ei_status :: int
  ei_started_at :: int
  ei_ended_at :: int
  ei_updated_at :: int
  ei_request :: "egress_request option"
  ei_file_results :: "file_info list"
  ei_result_file :: "file_info option"
  ei_error :: string

definition egress_info_default :: egress_info where
  "egress_info_default =
     \<lparr> ei_egress_id = [], ei_room_id = [], ei_room_name = [], ei_source_type = 0, ei_status = 0, ei_started_at = 0,
       ei_ended_at = 0, ei_updated_at = 0, ei_request = None, ei_file_results = [], ei_result_file = None, ei_error = [] \<rparr>"

definition egress_running :: "int \<Rightarrow> bool" where
  "egress_running status \<longleftrightarrow> status = EGRESS_STARTING \<or> status = EGRESS_ACTIVE"

definition egress_terminal :: "int \<Rightarrow> bool" where
  "egress_terminal status \<longleftrightarrow>
     status = EGRESS_COMPLETE \<or> status = EGRESS_FAILED \<or> status = EGRESS_ABORTED \<or> status = EGRESS_LIMIT_REACHED"

end
