(* ===== verification/Store.thy ===== *)
theory Store
  imports Auth Egress_Types
begin

text \<open>
  The store of trunks, dispatch rules and recordings (\<open>lk-server/src/redis_store.rs\<close>).  It
  keeps encoded messages in named hashes of one of two backends: in memory, under one
  key made of both names, or in Redis.  The operations of a backend are an argument;
  \<open>memory_backend\<close> is the program's own, and what the store needs of any of them is the
  locale \<open>hash_backend\<close>.  The message encodings are arguments too.
\<close>

section \<open>Backends\<close>



record 's backend =
  bk_set :: "string \<Rightarrow> string \<Rightarrow> bytes \<Rightarrow> 's \<Rightarrow> (string, 's) result"
  bk_get :: "string \<Rightarrow> string \<Rightarrow> 's \<Rightarrow> (string, bytes option) result"
  bk_del :: "string \<Rightarrow> string \<Rightarrow> 's \<Rightarrow> (string, 's) result"
  bk_sadd :: "string \<Rightarrow> string \<Rightarrow> 's \<Rightarrow> (string, 's) result"
  bk_list :: "string \<Rightarrow> 's \<Rightarrow> (string, bytes list) result"

type_synonym memory = "(string, bytes) assoc"

definition memory_key :: "string \<Rightarrow> string \<Rightarrow> string" where
  "memory_key key i = key @ '':'' @ i"

definition memory_set :: "string \<Rightarrow> string \<Rightarrow> bytes \<Rightarrow> memory \<Rightarrow> memory" where
  "memory_set key i bytes m = put (memory_key key i) bytes m"

definition memory_get :: "string \<Rightarrow> string \<Rightarrow> memory \<Rightarrow> bytes option" where
  "memory_get key i m = look m (memory_key key i)"

definition memory_del :: "string \<Rightarrow> string \<Rightarrow> memory \<Rightarrow> memory" where
  "memory_del key i m = del (memory_key key i) m"

definition memory_sadd :: "string \<Rightarrow> string \<Rightarrow> memory \<Rightarrow> memory" where
  "memory_sadd key member m = m"

definition memory_list :: "string \<Rightarrow> memory \<Rightarrow> bytes list" where
  "memory_list key m = map snd (filter (\<lambda>(k, _). starts_with (key @ '':'') k) m)"

definition memory_backend :: "memory backend" where
  "memory_backend =
     \<lparr> bk_set = \<lambda>k i b m. Inr (memory_set k i b m), bk_get = \<lambda>k i m. Inr (memory_get k i m),
       bk_del = \<lambda>k i m. Inr (memory_del k i m), bk_sadd = \<lambda>k i m. Inr (memory_sadd k i m),
       bk_list = \<lambda>k m. Inr (memory_list k m) \<rparr>"

section \<open>Operations\<close>

definition KEY_SIP_TRUNK :: string where "KEY_SIP_TRUNK = ''sip_trunk''"
definition KEY_SIP_INBOUND :: string where "KEY_SIP_INBOUND = ''sip_inbound_trunk''"
definition KEY_SIP_OUTBOUND :: string where "KEY_SIP_OUTBOUND = ''sip_outbound_trunk''"
definition KEY_SIP_DISPATCH :: string where "KEY_SIP_DISPATCH = ''sip_dispatch_rule''"
definition KEY_EGRESS :: string where "KEY_EGRESS = ''egress''"

lemmas store_keys = KEY_SIP_TRUNK_def KEY_SIP_INBOUND_def KEY_SIP_OUTBOUND_def KEY_SIP_DISPATCH_def KEY_EGRESS_def

text \<open>The encoding of a message: encode, decode, and the default message.\<close>

record 'm codec =
  co_encode :: "'m \<Rightarrow> bytes"
  co_decode :: "bytes \<Rightarrow> 'm option"
  co_default :: 'm

text \<open>A stored message that does not decode is loaded as the default one and left out of
  lists.\<close>

definition loaded :: "'m codec \<Rightarrow> bytes option \<Rightarrow> 'm option" where
  "loaded co b = map_option (\<lambda>b. case co_decode co b of Some m \<Rightarrow> m | None \<Rightarrow> co_default co) b"

definition store_sip_inbound_trunk :: "'s backend \<Rightarrow> inbound_trunk codec \<Rightarrow> inbound_trunk \<Rightarrow> 's \<Rightarrow> (string, 's) result" where
  "store_sip_inbound_trunk be co t st = bk_set be KEY_SIP_INBOUND (it_sip_trunk_id t) (co_encode co t) st"

definition load_sip_inbound_trunk :: "'s backend \<Rightarrow> inbound_trunk codec \<Rightarrow> string \<Rightarrow> 's \<Rightarrow> (string, inbound_trunk option) result" where
  "load_sip_inbound_trunk be co i st = ebind (bk_get be KEY_SIP_INBOUND i st) (\<lambda>b. Inr (loaded co b))"

definition list_sip_inbound_trunks :: "'s backend \<Rightarrow> inbound_trunk codec \<Rightarrow> 's \<Rightarrow> (string, inbound_trunk list) result" where
  "list_sip_inbound_trunks be co st = ebind (bk_list be KEY_SIP_INBOUND st) (\<lambda>bs. Inr (List.map_filter (co_decode co) bs))"

definition store_sip_outbound_trunk :: "'s backend \<Rightarrow> outbound_trunk codec \<Rightarrow> outbound_trunk \<Rightarrow> 's \<Rightarrow> (string, 's) result" where
  "store_sip_outbound_trunk be co t st = bk_set be KEY_SIP_OUTBOUND (ot_sip_trunk_id t) (co_encode co t) st"

definition load_sip_outbound_trunk :: "'s backend \<Rightarrow> outbound_trunk codec \<Rightarrow> string \<Rightarrow> 's \<Rightarrow> (string, outbound_trunk option) result" where
  "load_sip_outbound_trunk be co i st = ebind (bk_get be KEY_SIP_OUTBOUND i st) (\<lambda>b. Inr (loaded co b))"

definition list_sip_outbound_trunks :: "'s backend \<Rightarrow> outbound_trunk codec \<Rightarrow> 's \<Rightarrow> (string, outbound_trunk list) result" where
  "list_sip_outbound_trunks be co st = ebind (bk_list be KEY_SIP_OUTBOUND st) (\<lambda>bs. Inr (List.map_filter (co_decode co) bs))"

definition delete_sip_trunk :: "'s backend \<Rightarrow> string \<Rightarrow> 's \<Rightarrow> (string, 's) result" where
  "delete_sip_trunk be i st =
     ebind (bk_del be KEY_SIP_TRUNK i st) (\<lambda>st. ebind (bk_del be KEY_SIP_INBOUND i st) (\<lambda>st. bk_del be KEY_SIP_OUTBOUND i st))"

definition store_sip_dispatch_rule :: "'s backend \<Rightarrow> dispatch_rule_info codec \<Rightarrow> dispatch_rule_info \<Rightarrow> 's \<Rightarrow> (string, 's) result" where
  "store_sip_dispatch_rule be co r st = bk_set be KEY_SIP_DISPATCH (dr_sip_dispatch_rule_id r) (co_encode co r) st"

definition load_sip_dispatch_rule ::
    "'s backend \<Rightarrow> dispatch_rule_info codec \<Rightarrow> string \<Rightarrow> 's \<Rightarrow> (string, dispatch_rule_info option) result" where
  "load_sip_dispatch_rule be co i st = ebind (bk_get be KEY_SIP_DISPATCH i st) (\<lambda>b. Inr (loaded co b))"

definition list_sip_dispatch_rules :: "'s backend \<Rightarrow> dispatch_rule_info codec \<Rightarrow> 's \<Rightarrow> (string, dispatch_rule_info list) result" where
  "list_sip_dispatch_rules be co st = ebind (bk_list be KEY_SIP_DISPATCH st) (\<lambda>bs. Inr (List.map_filter (co_decode co) bs))"

definition delete_sip_dispatch_rule :: "'s backend \<Rightarrow> string \<Rightarrow> 's \<Rightarrow> (string, 's) result" where
  "delete_sip_dispatch_rule be i st = bk_del be KEY_SIP_DISPATCH i st"

definition store_egress :: "'s backend \<Rightarrow> egress_info codec \<Rightarrow> egress_info \<Rightarrow> 's \<Rightarrow> (string, 's) result" where
  "store_egress be co info st =
     ebind (bk_set be KEY_EGRESS (ei_egress_id info) (co_encode co info) st) (\<lambda>st.
       if ei_room_name info = [] then Inr st
       else bk_sadd be (KEY_EGRESS @ '':room:'' @ ei_room_name info) (ei_egress_id info) st)"

definition load_egress :: "'s backend \<Rightarrow> egress_info codec \<Rightarrow> string \<Rightarrow> 's \<Rightarrow> (string, egress_info option) result" where
  "load_egress be co i st = ebind (bk_get be KEY_EGRESS i st) (\<lambda>b. Inr (loaded co b))"

definition list_egress :: "'s backend \<Rightarrow> egress_info codec \<Rightarrow> 's \<Rightarrow> (string, egress_info list) result" where
  "list_egress be co st = ebind (bk_list be KEY_EGRESS st) (\<lambda>bs. Inr (List.map_filter (co_decode co) bs))"

section \<open>The contract of a backend\<close>

text \<open>The hashes the store uses.\<close>

definition store_names :: "string set" where
  "store_names = {KEY_SIP_TRUNK, KEY_SIP_INBOUND, KEY_SIP_OUTBOUND, KEY_SIP_DISPATCH, KEY_EGRESS}"

text \<open>A state has a content, a map per name.  Operations that succeed read and change it as
  hashes do; adding to a set whose name is none of the hashes leaves it alone.\<close>

locale hash_backend =
  fixes be :: "'s backend"
    and content :: "'s \<Rightarrow> string \<Rightarrow> string \<Rightarrow> bytes option"
    and ok :: "'s \<Rightarrow> bool"
    and names :: "string set"
  assumes set_law: "ok st \<Longrightarrow> k \<in> names \<Longrightarrow> bk_set be k i b st = Inr st' \<Longrightarrow>
      ok st' \<and> (\<forall>l \<in> names. content st' l = (if l = k then (content st k)(i \<mapsto> b) else content st l))"
    and get_law: "ok st \<Longrightarrow> k \<in> names \<Longrightarrow> bk_get be k i st = Inr r \<Longrightarrow> r = content st k i"
    and del_law: "ok st \<Longrightarrow> k \<in> names \<Longrightarrow> bk_del be k i st = Inr st' \<Longrightarrow>
      ok st' \<and> (\<forall>l \<in> names. content st' l = (if l = k then (content st k)(i := None) else content st l))"
    and sadd_law: "ok st \<Longrightarrow> k \<notin> names \<Longrightarrow> bk_sadd be k i st = Inr st' \<Longrightarrow>
      ok st' \<and> (\<forall>l \<in> names. content st' l = content st l)"
    and list_law: "ok st \<Longrightarrow> k \<in> names \<Longrightarrow> bk_list be k st = Inr bs \<Longrightarrow> set bs = ran (content st k)"
begin

lemma get_after_set:
  assumes "ok st" "k \<in> names" "l \<in> names" "bk_set be k i b st = Inr st'" "bk_get be l j st' = Inr r"
  shows "r = (if l = k \<and> j = i then Some b else content st l j)"
  using set_law [OF assms(1,2,4)] get_law [OF _ assms(3,5)] assms(3) by auto

lemma get_after_del:
  assumes "ok st" "k \<in> names" "l \<in> names" "bk_del be k i st = Inr st'" "bk_get be l j st' = Inr r"
  shows "r = (if l = k \<and> j = i then None else content st l j)"
  using del_law [OF assms(1,2,4)] get_law [OF _ assms(3,5)] assms(3) by auto

lemma list_after_set:
  assumes "ok st" "k \<in> names" "bk_set be k i b st = Inr st'" "bk_list be k st' = Inr bs"
  shows "b \<in> set bs"
proof -
  have "content st' k i = Some b" and "ok st'" using set_law [OF assms(1-3)] assms(2) by auto
  then show ?thesis using list_law [OF _ assms(2,4)] by (auto intro: ranI)
qed

end

section \<open>The memory backend\<close>

lemma memory_key_eq:
  assumes "CHR '':'' \<notin> set k" "CHR '':'' \<notin> set l"
  shows "memory_key k i = memory_key l j \<longleftrightarrow> k = l \<and> i = j"
proof
  assume "memory_key k i = memory_key l j"
  then have "split_once (CHR '':'') (k @ CHR '':'' # i) = split_once (CHR '':'') (l @ CHR '':'' # j)" by (simp add: memory_key_def)
  then show "k = l \<and> i = j" using assms by simp
qed simp

lemma store_names_no_colon: "k \<in> store_names \<Longrightarrow> CHR '':'' \<notin> set k"
  by (auto simp: store_names_def store_keys)

lemma starts_with_key: "starts_with (k @ '':'') x \<longleftrightarrow> (\<exists>i. x = memory_key k i)"
  by (auto simp: starts_with_def memory_key_def strip_prefix_iff split: option.splits)

lemma memory_list_content:
  assumes "keys_distinct m"
  shows "set (memory_list k m) = ran (\<lambda>i. memory_get k i m)"
proof -
  have "b \<in> set (memory_list k m) \<longleftrightarrow> (\<exists>i. (memory_key k i, b) \<in> set m)" for b
    by (force simp: memory_list_def starts_with_key image_iff)
  moreover have "(memory_key k i, b) \<in> set m \<longleftrightarrow> memory_get k i m = Some b" for i b
    using assms by (simp add: memory_get_def look_Some_iff)
  ultimately show ?thesis by (auto simp: ran_def)
qed

interpretation memory: hash_backend memory_backend "\<lambda>m k i. memory_get k i m" keys_distinct store_names
proof
  fix st st' :: memory and k i b
  assume "keys_distinct st" "k \<in> store_names" "bk_set memory_backend k i b st = Inr st'"
  then show "keys_distinct st' \<and> (\<forall>l \<in> store_names. (\<lambda>j. memory_get l j st') =
      (if l = k then (\<lambda>j. memory_get k j st)(i \<mapsto> b) else (\<lambda>j. memory_get l j st)))"
    by (auto simp: memory_backend_def memory_set_def memory_get_def memory_key_eq store_names_no_colon fun_eq_iff)
next
  fix st st' :: memory and k i
  assume "keys_distinct st" "k \<in> store_names" "bk_del memory_backend k i st = Inr st'"
  then show "keys_distinct st' \<and> (\<forall>l \<in> store_names. (\<lambda>j. memory_get l j st') =
      (if l = k then (\<lambda>j. memory_get k j st)(i := None) else (\<lambda>j. memory_get l j st)))"
    by (auto simp: memory_backend_def memory_del_def memory_get_def memory_key_eq store_names_no_colon fun_eq_iff)
next
  fix st :: memory and k bs
  assume "keys_distinct st" "bk_list memory_backend k st = Inr bs"
  then show "set bs = ran (\<lambda>i. memory_get k i st)" by (auto simp: memory_backend_def memory_list_content)
qed (simp_all add: memory_backend_def memory_sadd_def)

section \<open>Properties\<close>

lemma store_key_names [simp]:
  "KEY_SIP_TRUNK \<in> store_names" "KEY_SIP_INBOUND \<in> store_names" "KEY_SIP_OUTBOUND \<in> store_names"
  "KEY_SIP_DISPATCH \<in> store_names" "KEY_EGRESS \<in> store_names" "KEY_EGRESS @ '':room:'' @ x \<notin> store_names"
  by (auto simp: store_names_def store_keys)

lemma map_filter_I: "x \<in> set xs \<Longrightarrow> f x = Some y \<Longrightarrow> y \<in> set (List.map_filter f xs)"
  by (induction xs) (auto simp: map_filter_simps split: option.split)

text \<open>C18: over every backend that behaves like hashes, a stored trunk is loaded under its
  id and listed, no other trunk and no dispatch rule changes, and after its deletion it
  is gone.  This holds whenever the operations succeed.\<close>

theorem trunk_store_round_trip:
  assumes "hash_backend be content ok store_names" "ok st" "co_decode co (co_encode co t) = Some t"
    and "store_sip_inbound_trunk be co t st = Inr st1"
  shows "(\<forall>r. load_sip_inbound_trunk be co (it_sip_trunk_id t) st1 = Inr r \<longrightarrow> r = Some t)
    \<and> (\<forall>i r. i \<noteq> it_sip_trunk_id t \<longrightarrow> load_sip_inbound_trunk be co i st1 = Inr r \<longrightarrow> r = loaded co (content st KEY_SIP_INBOUND i))
    \<and> (\<forall>co' i r. load_sip_dispatch_rule be co' i st1 = Inr r \<longrightarrow> r = loaded co' (content st KEY_SIP_DISPATCH i))
    \<and> (\<forall>ts. list_sip_inbound_trunks be co st1 = Inr ts \<longrightarrow> t \<in> set ts)
    \<and> (\<forall>st2 r. delete_sip_trunk be (it_sip_trunk_id t) st1 = Inr st2 \<longrightarrow>
         load_sip_inbound_trunk be co (it_sip_trunk_id t) st2 = Inr r \<longrightarrow> r = None)"
proof (intro conjI allI impI)
  note set = assms(4) [unfolded store_sip_inbound_trunk_def]
  note after = hash_backend.get_after_set [OF assms(1,2) _ _ set]
  have key: "KEY_SIP_INBOUND \<noteq> KEY_SIP_DISPATCH" by (simp add: store_keys)
  show "r = Some t" if "load_sip_inbound_trunk be co (it_sip_trunk_id t) st1 = Inr r" for r
    using that after [of KEY_SIP_INBOUND "it_sip_trunk_id t"] assms(3)
    by (auto simp: load_sip_inbound_trunk_def loaded_def elim!: ebind_InrE)
  show "r = loaded co (content st KEY_SIP_INBOUND i)"
    if "i \<noteq> it_sip_trunk_id t" "load_sip_inbound_trunk be co i st1 = Inr r" for i r
    using that after [of KEY_SIP_INBOUND i] by (auto simp: load_sip_inbound_trunk_def elim!: ebind_InrE)
  show "r = loaded co' (content st KEY_SIP_DISPATCH i)" if "load_sip_dispatch_rule be co' i st1 = Inr r" for co' i r
    using that after [of KEY_SIP_DISPATCH i] key by (auto simp: load_sip_dispatch_rule_def elim!: ebind_InrE)
  show "t \<in> set ts" if l: "list_sip_inbound_trunks be co st1 = Inr ts" for ts
  proof -
    obtain bs where bs: "bk_list be KEY_SIP_INBOUND st1 = Inr bs" "ts = List.map_filter (co_decode co) bs"
      using l by (auto simp: list_sip_inbound_trunks_def elim!: ebind_InrE)
    have "co_encode co t \<in> set bs" by (rule hash_backend.list_after_set [OF assms(1,2) _ set bs(1)]) simp
    then show ?thesis unfolding bs(2) by (rule map_filter_I) (rule assms(3))
  qed
next
  fix st2 r
  assume "delete_sip_trunk be (it_sip_trunk_id t) st1 = Inr st2" and l: "load_sip_inbound_trunk be co (it_sip_trunk_id t) st2 = Inr r"
  then obtain s1 s2 where d: "bk_del be KEY_SIP_TRUNK (it_sip_trunk_id t) st1 = Inr s1"
    "bk_del be KEY_SIP_INBOUND (it_sip_trunk_id t) s1 = Inr s2" "bk_del be KEY_SIP_OUTBOUND (it_sip_trunk_id t) s2 = Inr st2"
    by (auto simp: delete_sip_trunk_def elim!: ebind_InrE)
  have i1: "ok st1" using hash_backend.set_law [OF assms(1,2) _ assms(4) [unfolded store_sip_inbound_trunk_def]] by simp
  have i2: "ok s1" using hash_backend.del_law [OF assms(1) i1 _ d(1)] by simp
  have i3: "ok s2" "content s2 KEY_SIP_INBOUND (it_sip_trunk_id t) = None" using hash_backend.del_law [OF assms(1) i2 _ d(2)] by auto
  have "KEY_SIP_OUTBOUND \<noteq> KEY_SIP_INBOUND" by (simp add: store_keys)
  then show "r = None"
    using l hash_backend.get_after_del [OF assms(1) i3(1) _ _ d(3), of KEY_SIP_INBOUND] i3(2)
    by (auto simp: load_sip_inbound_trunk_def loaded_def elim!: ebind_InrE)
qed

theorem trunk_store_round_trip_witness:
  "\<exists>st1. store_sip_inbound_trunk memory_backend \<lparr> co_encode = \<lambda>_. [7], co_decode = \<lambda>_. Some (inbound_trunk_default\<lparr> it_sip_trunk_id := ''ST_1'' \<rparr>),
        co_default = inbound_trunk_default \<rparr> (inbound_trunk_default\<lparr> it_sip_trunk_id := ''ST_1'' \<rparr>) [] = Inr st1
     \<and> load_sip_inbound_trunk memory_backend \<lparr> co_encode = \<lambda>_. [7], co_decode = \<lambda>_. Some (inbound_trunk_default\<lparr> it_sip_trunk_id := ''ST_1'' \<rparr>),
        co_default = inbound_trunk_default \<rparr> ''ST_1'' st1 = Inr (Some (inbound_trunk_default\<lparr> it_sip_trunk_id := ''ST_1'' \<rparr>))"
proof -
  let ?t = "inbound_trunk_default\<lparr> it_sip_trunk_id := ''ST_1'' \<rparr>"
  let ?co = "\<lparr> co_encode = \<lambda>_. [7], co_decode = \<lambda>_. Some ?t, co_default = inbound_trunk_default \<rparr>"
  obtain st1 where s: "store_sip_inbound_trunk memory_backend ?co ?t [] = Inr st1"
    by (simp add: store_sip_inbound_trunk_def memory_backend_def)
  obtain r where r: "load_sip_inbound_trunk memory_backend ?co ''ST_1'' st1 = Inr r"
    by (simp add: load_sip_inbound_trunk_def memory_backend_def)
  have "keys_distinct ([] :: memory)" by (simp add: keys_distinct_def)
  from trunk_store_round_trip [OF memory.hash_backend_axioms this _ s] r have "r = Some ?t" by simp
  with s r show ?thesis by blast
qed

subsection \<open>Behaviour at odds with what the code means to do\<close>

text \<open>An entry that does not decode is loaded as the default trunk, which has no id and no
  restriction.\<close>

lemma corrupt_trunk_is_unrestricted:
  assumes "memory_get KEY_SIP_INBOUND i st = Some b" "co_decode co b = None" "co_default co = inbound_trunk_default"
  shows "load_sip_inbound_trunk memory_backend co i st = Inr (Some inbound_trunk_default)"
  using assms by (simp add: load_sip_inbound_trunk_def memory_backend_def loaded_def)

end
