(* ===== verification/Ip_Addr.thy ===== *)
theory Ip_Addr
  imports LK_Strings
begin

text \<open>
  The text form of IP addresses, as the standard library reads it
  (\<open>str::parse::<IpAddr>\<close>).  A reader returns what it read and the rest, or nothing and
  has then consumed nothing.
\<close>

datatype ip_addr = IpV4 "8 word list" | IpV6 "16 word list"

type_synonym 'a reader = "string \<Rightarrow> ('a \<times> string) option"

definition hex_val :: "char \<Rightarrow> nat option" where
  "hex_val c =
     (let n = of_char c :: nat in
      if 48 \<le> n \<and> n \<le> 57 then Some (n - 48)
      else if 97 \<le> n \<and> n \<le> 102 then Some (n - 87)
      else if 65 \<le> n \<and> n \<le> 70 then Some (n - 55) else None)"

definition digit_in :: "nat \<Rightarrow> char \<Rightarrow> bool" where
  "digit_in radix c \<longleftrightarrow> (case hex_val c of None \<Rightarrow> False | Some d \<Rightarrow> d < radix)"

definition radix_val :: "nat \<Rightarrow> string \<Rightarrow> nat" where
  "radix_val radix ds = foldl (\<lambda>n c. n * radix + (case hex_val c of None \<Rightarrow> 0 | Some d \<Rightarrow> d)) 0 ds"

text \<open>A number: digits up to a limit, below a bound, and no leading zero unless allowed.\<close>

definition read_number :: "nat \<Rightarrow> nat \<Rightarrow> bool \<Rightarrow> nat \<Rightarrow> nat reader" where
  "read_number radix max_digits allow_zero_prefix bound s =
     (let ds = takeWhile (digit_in radix) s in
      if ds = [] \<or> max_digits < length ds \<or> bound \<le> radix_val radix ds
         \<or> (\<not> allow_zero_prefix \<and> hd ds = CHR ''0'' \<and> 1 < length ds)
      then None else Some (radix_val radix ds, drop (length ds) s))"

definition read_char :: "char \<Rightarrow> unit reader" where
  "read_char c s = (case s of [] \<Rightarrow> None | x # xs \<Rightarrow> if x = c then Some ((), xs) else None)"

text \<open>A separator before every item but the first.\<close>

definition read_separator :: "char \<Rightarrow> nat \<Rightarrow> 'a reader \<Rightarrow> 'a reader" where
  "read_separator sep index inner s =
     (if 0 < index then Option.bind (read_char sep s) (\<lambda>(_, s). inner s) else inner s)"

fun read_octets :: "nat \<Rightarrow> nat \<Rightarrow> 8 word list reader" where
  "read_octets i 0 s = Some ([], s)"
| "read_octets i (Suc n) s =
     Option.bind (read_separator (CHR ''.'') i (read_number 10 3 False 256) s) (\<lambda>(d, s).
     Option.bind (read_octets (Suc i) n s) (\<lambda>(ds, s). Some (of_nat d # ds, s)))"

definition read_ipv4_addr :: "8 word list reader" where
  "read_ipv4_addr s = read_octets 0 4 s"

definition pair16 :: "8 word \<Rightarrow> 8 word \<Rightarrow> 16 word" where
  "pair16 a b = ucast a * 256 + ucast b"

text \<open>Groups of four hexadecimal digits, an IPv4 address in place of the last two.  The
  answer says whether an IPv4 address was read.\<close>

fun read_groups :: "nat \<Rightarrow> nat \<Rightarrow> string \<Rightarrow> 16 word list \<times> bool \<times> string" where
  "read_groups i 0 s = ([], False, s)"
| "read_groups i (Suc n) s =
     (case (if n = 0 then None else read_separator (CHR '':'') i read_ipv4_addr s) of
        Some ([a, b, c, d], s) \<Rightarrow> ([pair16 a b, pair16 c d], True, s)
      | _ \<Rightarrow>
          (case read_separator (CHR '':'') i (read_number 16 4 True 65536) s of
             Some (g, s) \<Rightarrow> (let (gs, v4, s) = read_groups (Suc i) n s in (of_nat g # gs, v4, s))
           | None \<Rightarrow> ([], False, s)))"

definition read_ipv6_addr :: "16 word list reader" where
  "read_ipv6_addr s =
     (case read_groups 0 8 s of
        (head, head_v4, s) \<Rightarrow>
          if length head = 8 then Some (head, s)
          else if head_v4 then None
          else
            Option.bind (read_char (CHR '':'') s) (\<lambda>(_, s).
            Option.bind (read_char (CHR '':'') s) (\<lambda>(_, s).
              (case read_groups 0 (8 - (length head + 1)) s of
                 (tail, _, s) \<Rightarrow> Some (head @ replicate (8 - length head - length tail) 0 @ tail, s)))))"

definition parse_ip :: "string \<Rightarrow> ip_addr option" where
  "parse_ip s =
     (case (case read_ipv4_addr s of Some (v4, r) \<Rightarrow> Some (IpV4 v4, r)
            | None \<Rightarrow> (case read_ipv6_addr s of Some (v6, r) \<Rightarrow> Some (IpV6 v6, r) | None \<Rightarrow> None)) of
        Some (ip, []) \<Rightarrow> Some ip
      | _ \<Rightarrow> None)"

section \<open>Lemmas\<close>

lemma octets_unfold: "read_ipv4_addr s = read_octets 0 (Suc (Suc (Suc (Suc 0)))) s"
  by (simp add: read_ipv4_addr_def numeral_eq_Suc)

lemmas reader_simps = octets_unfold read_separator_def read_number_def read_char_def digit_in_def hex_val_def radix_val_def Let_def

lemma read_ipv4_addr_examples:
  "read_ipv4_addr ''10.1.2.3'' = Some ([10, 1, 2, 3], [])" "read_ipv4_addr ''10.01.2.3'' = None" "read_ipv4_addr ''10.1.256.3'' = None"
  by (simp_all add: reader_simps)

text \<open>The bracketed form of a socket address is no address.\<close>

lemma bracket_no_address: "parse_ip (CHR ''['' # s) = None"
proof -
  have "read_number r m z b (CHR ''['' # s) = None" for r m z b
    by (simp add: read_number_def digit_in_def hex_val_def)
  then have "read_ipv4_addr (CHR ''['' # s) = None" "read_groups 0 (Suc n) (CHR ''['' # s) = ([], False, CHR ''['' # s)" for n
    by (simp_all add: octets_unfold read_separator_def split: option.split)
  note this(1) this(2) [of 7]
  then show ?thesis by (simp add: parse_ip_def read_ipv6_addr_def read_char_def numeral_eq_Suc)
qed

end
