(* ===== verification/Sip_Dispatch.thy ===== *)
theory Sip_Dispatch
  imports Core_Types Store Ip_Addr
begin

text \<open>
  The telephony half of the IO service (\<open>lk-server/src/ioservice.rs\<close>): which trunk an
  incoming call arrives on, which dispatch rule applies to it, and the room, identity
  and attributes the caller gets.  Networks in CIDR form are read by the \<open>ipnet\<close>
  library and SHA-256 by \<open>sha2\<close>; both are arguments.
\<close>

section \<open>Calls\<close>

record sip_auth_request =
  aq_sip_call_id :: string
  aq_from :: string
  aq_from_host :: string
  aq_to :: string
  aq_to_host :: string
  aq_src_address :: string
  aq_call :: "sip_call option"

record dispatch_request =
  dq_sip_call_id :: string
  dq_sip_trunk_id :: string
  dq_calling_number :: string
  dq_calling_host :: string
  dq_called_number :: string
  dq_called_host :: string
  dq_src_address :: string
  dq_pin :: string
  dq_no_pin :: bool
  dq_extra_attributes :: attrs
  dq_call :: "sip_call option"

definition mk_sip_uri :: "string \<Rightarrow> string \<Rightarrow> sip_uri" where
  "mk_sip_uri user host = \<lparr> su_user = user, su_host = host \<rparr>"

definition rsplit_once :: "char \<Rightarrow> string \<Rightarrow> (string \<times> string) option" where
  "rsplit_once c s = map_option (\<lambda>(a, b). (rev b, rev a)) (split_once c (rev s))"

definition strip_port :: "string \<Rightarrow> string" where
  "strip_port addr =
     (case rsplit_once (CHR '':'') addr of
        Some (host, port) \<Rightarrow> if list_all is_digit port then host else addr
      | None \<Rightarrow> addr)"

definition sip_call_from_auth :: "sip_auth_request \<Rightarrow> sip_call" where
  "sip_call_from_auth req =
     (case aq_call req of
        Some call \<Rightarrow> call
      | None \<Rightarrow>
          let dest = mk_sip_uri (aq_to req) (aq_to_host req) in
          \<lparr> sc_lk_call_id = aq_sip_call_id req, sc_source_ip = strip_port (aq_src_address req), sc_address = Some dest,
            sc_from = Some (mk_sip_uri (aq_from req) (aq_from_host req)), sc_to = Some dest \<rparr>)"

definition sip_call_from_dispatch :: "dispatch_request \<Rightarrow> sip_call" where
  "sip_call_from_dispatch req =
     (case dq_call req of
        Some call \<Rightarrow> call
      | None \<Rightarrow>
          let dest = mk_sip_uri (dq_called_number req) (dq_called_host req) in
          \<lparr> sc_lk_call_id = dq_sip_call_id req, sc_source_ip = strip_port (dq_src_address req), sc_address = Some dest,
            sc_from = Some (mk_sip_uri (dq_calling_number req) (dq_calling_host req)), sc_to = Some dest \<rparr>)"

definition uri_user :: "sip_uri option \<Rightarrow> string" where
  "uri_user u = (case u of Some u \<Rightarrow> su_user u | None \<Rightarrow> [])"

definition uri_host :: "sip_uri option \<Rightarrow> string" where
  "uri_host u = (case u of Some u \<Rightarrow> su_host u | None \<Rightarrow> [])"

section \<open>Trunks\<close>

definition normalize_number :: "string \<Rightarrow> string" where
  "normalize_number num =
     (if num = [] then []
      else if \<not> list_all (\<lambda>c. is_digit c \<or> c \<in> set ''+- ()'') num then num
      else let cleaned = filter (\<lambda>c. c \<notin> set '' -()'') num in
           if starts_with ''+'' cleaned then cleaned else CHR ''+'' # cleaned)"

definition match_numbers :: "string \<Rightarrow> string list \<Rightarrow> bool" where
  "match_numbers num allowed \<longleftrightarrow>
     allowed = [] \<or> (\<exists>a \<in> set allowed. num = a \<or> normalize_number num = normalize_number a)"

definition is_valid_mask :: "string \<Rightarrow> bool" where
  "is_valid_mask msk \<longleftrightarrow>
     \<not> list_ex (\<lambda>c. c \<in> set ''()+*;, '' \<or> c = CHR 0x09 \<or> c = CHR 0x0A \<or> c = CHR 0x0D) msk \<and> \<not> str_contains ''://'' msk"

text \<open>A network: what the \<open>ipnet\<close> library reads from a text with a slash.\<close>

type_synonym ipnet = "string \<Rightarrow> (ip_addr \<Rightarrow> bool) option"

definition match_addr_mask :: "ipnet \<Rightarrow> ip_addr \<Rightarrow> string \<Rightarrow> bool" where
  "match_addr_mask ipnet ip msk \<longleftrightarrow>
     (if CHR ''/'' \<notin> set msk then (case parse_ip msk of Some e \<Rightarrow> ip = e | None \<Rightarrow> False)
      else (case ipnet msk of Some contains \<Rightarrow> contains ip | None \<Rightarrow> False))"

definition match_addr_masks :: "ipnet \<Rightarrow> string \<Rightarrow> string \<Rightarrow> string list \<Rightarrow> bool" where
  "match_addr_masks ipnet addr host masks \<longleftrightarrow>
     (case parse_ip addr of
        None \<Rightarrow> True
      | Some ip \<Rightarrow>
          let valid = filter is_valid_mask masks in
          valid = [] \<or> (\<exists>m \<in> set valid. m = host \<or> match_addr_mask ipnet ip m))"

datatype sip_error =
  MultipleTrunks string
| MultipleDefaultTrunks string
| NoDispatchMatched
| RuleMissing
| RuleUnsupported
| IncorrectPin
| StoreError string
| CallPanic

text \<open>The loop over the trunks keeps the selected trunk, the last wildcard trunk and the
  number of wildcard trunks.\<close>

fun match_trunk_loop ::
    "ipnet \<Rightarrow> sip_call \<Rightarrow> inbound_trunk list \<Rightarrow> inbound_trunk option \<Rightarrow> inbound_trunk option \<Rightarrow> nat \<Rightarrow>
     (sip_error, inbound_trunk option) result" where
  "match_trunk_loop ipnet call [] selected default_trunk default_cnt =
     (case selected of
        Some s \<Rightarrow> Inr (Some s)
      | None \<Rightarrow> if 1 < default_cnt then Inl (MultipleDefaultTrunks (uri_user (sc_to call))) else Inr default_trunk)"
| "match_trunk_loop ipnet call (tr # trs) selected default_trunk default_cnt =
     (if \<not> match_numbers (uri_user (sc_from call)) (it_allowed_numbers tr) then match_trunk_loop ipnet call trs selected default_trunk default_cnt
      else if \<not> match_addr_masks ipnet (sc_source_ip call) (uri_host (sc_from call)) (it_allowed_addresses tr)
      then match_trunk_loop ipnet call trs selected default_trunk default_cnt
      else if it_numbers tr = [] then match_trunk_loop ipnet call trs selected (Some tr) (default_cnt + 1)
      else if list_ex (\<lambda>num. num = uri_user (sc_to call) \<or> normalize_number num = normalize_number (uri_user (sc_to call))) (it_numbers tr)
      then (if selected \<noteq> None then Inl (MultipleTrunks (uri_user (sc_to call)))
            else match_trunk_loop ipnet call trs (Some tr) default_trunk default_cnt)
      else match_trunk_loop ipnet call trs selected default_trunk default_cnt)"

definition match_trunk :: "ipnet \<Rightarrow> inbound_trunk list \<Rightarrow> sip_call \<Rightarrow> (sip_error, inbound_trunk option) result" where
  "match_trunk ipnet trunks call = match_trunk_loop ipnet call trunks None None 0"

section \<open>Dispatch rules\<close>

definition get_pin_and_room :: "dispatch_rule_info \<Rightarrow> (sip_error, string \<times> string) result" where
  "get_pin_and_room info =
     (case dr_rule info of
        None \<Rightarrow> Inl RuleMissing
      | Some None \<Rightarrow> Inl RuleUnsupported
      | Some (Some (RuleDirect room pin)) \<Rightarrow> Inr (room, pin)
      | Some (Some (RuleIndividual prefix pin _)) \<Rightarrow> Inr (prefix, pin)
      | Some (Some (RuleCallee prefix pin _)) \<Rightarrow> Inr (prefix, pin))"

definition dispatch_rule_priority :: "dispatch_rule_info \<Rightarrow> int" where
  "dispatch_rule_priority info =
     (let rest = (if dr_inbound_numbers info = [] then 1000 else 0) + (if dr_numbers info = [] then 1000 else 0) in
      case dr_rule info of
        Some (Some (RuleDirect _ pin)) \<Rightarrow> (if pin = [] then 100 else 0) + rest
      | Some (Some (RuleIndividual _ pin _)) \<Rightarrow> (if pin = [] then 101 else 1) + rest
      | Some (Some (RuleCallee _ pin _)) \<Rightarrow> (if pin = [] then 102 else 2) + rest
      | _ \<Rightarrow> 2147483647)"

definition rule_room :: "dispatch_rule_info \<Rightarrow> string" where
  "rule_room r = (case get_pin_and_room r of Inr (room, _) \<Rightarrow> room | Inl _ \<Rightarrow> [])"

definition has_higher_priority :: "dispatch_rule_info \<Rightarrow> dispatch_rule_info \<Rightarrow> bool" where
  "has_higher_priority r1 r2 \<longleftrightarrow>
     (if dispatch_rule_priority r1 \<noteq> dispatch_rule_priority r2 then dispatch_rule_priority r1 < dispatch_rule_priority r2
      else lex_le (rule_room r1) (rule_room r2) \<and> rule_room r1 \<noteq> rule_room r2)"

text \<open>The checks at the head of the loop: the numbers and the pin.\<close>

definition rule_skipped :: "dispatch_request \<Rightarrow> dispatch_rule_info \<Rightarrow> bool" where
  "rule_skipped req info \<longleftrightarrow>
     (dr_inbound_numbers info \<noteq> [] \<and> dq_calling_number req \<notin> set (dr_inbound_numbers info))
     \<or> (dr_numbers info \<noteq> [] \<and> dq_called_number req \<notin> set (dr_numbers info))
     \<or> (case get_pin_and_room info of
          Inl _ \<Rightarrow> True
        | Inr (_, rule_pin) \<Rightarrow>
            if dq_no_pin req then rule_pin \<noteq> []
            else dq_pin req \<noteq> [] \<and> (rule_pin = [] \<or> dq_pin req \<noteq> rule_pin))"

definition better :: "dispatch_rule_info \<Rightarrow> dispatch_rule_info option \<Rightarrow> dispatch_rule_info option" where
  "better info cur = (case cur of None \<Rightarrow> Some info | Some r \<Rightarrow> if has_higher_priority info r then Some info else cur)"

fun match_rule_loop ::
    "inbound_trunk option \<Rightarrow> dispatch_request \<Rightarrow> dispatch_rule_info list \<Rightarrow> dispatch_rule_info option \<Rightarrow> nat \<Rightarrow>
     dispatch_rule_info option \<Rightarrow> nat \<Rightarrow> (sip_error, dispatch_rule_info option) result" where
  "match_rule_loop trunk req [] specific specific_cnt default_rule default_cnt =
     (if specific_cnt = 0 \<and> default_cnt = 0 then Inl NoDispatchMatched
      else Inr (case specific of Some r \<Rightarrow> Some r | None \<Rightarrow> default_rule))"
| "match_rule_loop trunk req (info # rules) specific specific_cnt default_rule default_cnt =
     (if rule_skipped req info then match_rule_loop trunk req rules specific specific_cnt default_rule default_cnt
      else if dr_trunk_ids info = []
      then match_rule_loop trunk req rules specific specific_cnt (better info default_rule) (default_cnt + 1)
      else (case trunk of
              None \<Rightarrow> match_rule_loop trunk req rules specific specific_cnt default_rule default_cnt
            | Some tr \<Rightarrow>
                if it_sip_trunk_id tr \<notin> set (dr_trunk_ids info)
                then match_rule_loop trunk req rules specific specific_cnt default_rule default_cnt
                else match_rule_loop trunk req rules (better info specific) (specific_cnt + 1) default_rule default_cnt))"

definition match_dispatch_rule ::
    "dispatch_rule_info list \<Rightarrow> inbound_trunk option \<Rightarrow> dispatch_request \<Rightarrow> (sip_error, dispatch_rule_info option) result" where
  "match_dispatch_rule rules trunk req = match_rule_loop trunk req rules None 0 None 0"

section \<open>Evaluation\<close>

definition ATTR_SIP_CALL_ID :: string where "ATTR_SIP_CALL_ID = ''sip.callID''"
definition ATTR_SIP_TRUNK_ID :: string where "ATTR_SIP_TRUNK_ID = ''sip.trunkID''"
definition ATTR_SIP_RULE_ID :: string where "ATTR_SIP_RULE_ID = ''sip.ruleID''"
definition ATTR_SIP_PHONE_NUMBER :: string where "ATTR_SIP_PHONE_NUMBER = ''sip.phoneNumber''"
definition ATTR_SIP_HOST_NAME :: string where "ATTR_SIP_HOST_NAME = ''sip.hostname''"
definition ATTR_SIP_TRUNK_NUMBER :: string where "ATTR_SIP_TRUNK_NUMBER = ''sip.trunkPhoneNumber''"

lemmas sip_attr_defs = ATTR_SIP_CALL_ID_def ATTR_SIP_TRUNK_ID_def ATTR_SIP_RULE_ID_def ATTR_SIP_PHONE_NUMBER_def
  ATTR_SIP_HOST_NAME_def ATTR_SIP_TRUNK_NUMBER_def

datatype dispatch_result = LegacyAcceptOrPin | DispatchAccept | RequestPin | DispatchReject | DispatchDrop

record dispatch_response =
  ds_room_name :: string
  ds_participant_identity :: string
  ds_participant_name :: string
  ds_participant_metadata :: string
  ds_participant_attributes :: attrs
  ds_request_pin :: bool
  ds_result :: dispatch_result
  ds_sip_trunk_id :: string
  ds_sip_dispatch_rule_id :: string
  ds_headers :: attrs
  ds_headers_to_attributes :: attrs
  ds_attributes_to_headers :: attrs
  ds_include_headers :: int
  ds_enabled_features :: "int list"
  ds_ringing_timeout :: "duration_msg option"
  ds_max_call_duration :: "duration_msg option"
  ds_media_encryption :: int
  ds_media :: "sip_media option"
  ds_room_preset :: string
  ds_room_config :: "opaque_msg option"

definition dispatch_response_default :: dispatch_response where
  "dispatch_response_default =
     \<lparr> ds_room_name = [], ds_participant_identity = [], ds_participant_name = [], ds_participant_metadata = [],
       ds_participant_attributes = [], ds_request_pin = False, ds_result = LegacyAcceptOrPin, ds_sip_trunk_id = [],
       ds_sip_dispatch_rule_id = [], ds_headers = [], ds_headers_to_attributes = [], ds_attributes_to_headers = [],
       ds_include_headers = 0, ds_enabled_features = [], ds_ringing_timeout = None, ds_max_call_duration = None,
       ds_media_encryption = 0, ds_media = None, ds_room_preset = [], ds_room_config = None \<rparr>"

text \<open>\<open>&s[i..]\<close>: the index must lie in the string and on the boundary of a character.\<close>

definition slice_from :: "nat \<Rightarrow> string \<Rightarrow> (sip_error, string) result" where
  "slice_from i s =
     (if i = length s \<or> (i < length s \<and> \<not> (128 \<le> (of_char (s ! i) :: nat) \<and> (of_char (s ! i) :: nat) < 192))
      then Inr (drop i s) else Inl CallPanic)"

text \<open>The last digits that a masked number keeps.  The subtraction underflows for an empty
  number.\<close>

definition masked_number :: "string \<Rightarrow> (sip_error, string) result" where
  "masked_number from =
     (let n = (if length from \<le> 4 then 1 else 4) in
      if length from < n then Inl CallPanic else slice_from (length from - n) from)"

definition merged_media :: "inbound_trunk option \<Rightarrow> dispatch_rule_info \<Rightarrow> sip_media option" where
  "merged_media trunk rule =
     merge_media (Option.bind trunk (\<lambda>t. upgrade_media (it_media t) (it_media_encryption t)))
       (upgrade_media (dr_media rule) (dr_media_encryption rule))"

definition media_enc :: "sip_media option \<Rightarrow> int" where
  "media_enc media = (case Option.bind media sm_encryption of Some e \<Rightarrow> e | None \<Rightarrow> 0)"

text \<open>The name of the room; \<open>draw\<close> are the random letters of \<open>generate_id\<close>.\<close>

definition dispatch_room :: "nat list \<Rightarrow> dispatch_rule_info \<Rightarrow> string \<Rightarrow> string \<Rightarrow> string \<Rightarrow> string" where
  "dispatch_room draw rule room from to_full =
     (case Option.bind (dr_rule rule) id of
        Some (RuleIndividual prefix _ no_randomness) \<Rightarrow>
          let room = (if prefix = [] then from else prefix @ ''_'' @ from) in
          if no_randomness then room else room @ ''_'' @ generate_id [] draw
      | Some (RuleCallee prefix _ randomize) \<Rightarrow>
          let room = (if prefix = [] then to_full else prefix @ ''_'' @ to_full) in
          if randomize then room @ ''_'' @ generate_id [] draw else room
      | _ \<Rightarrow> room)"

text \<open>Attributes, identity and shown number of the caller, plain or masked.\<close>

definition caller_attributes :: "dispatch_rule_info \<Rightarrow> dispatch_request \<Rightarrow> sip_call \<Rightarrow> string \<Rightarrow> attrs" where
  "caller_attributes rule req call trunk_id =
     put ATTR_SIP_TRUNK_ID trunk_id (put ATTR_SIP_CALL_ID (sc_lk_call_id call)
       (foldl (\<lambda>m (k, v). put k v m) (dr_attributes rule) (dq_extra_attributes req)))"

definition caller_identity ::
    "(string \<Rightarrow> string) \<Rightarrow> dispatch_rule_info \<Rightarrow> sip_call \<Rightarrow> attrs \<Rightarrow> (sip_error, attrs \<times> string \<times> string) result" where
  "caller_identity sha256_hex rule call attributes =
     (let from_full = uri_user (sc_from call) in
      if dr_hide_phone_number rule
      then ebind (masked_number from_full) (\<lambda>from. Inr (attributes, ''sip_'' @ take 8 (sha256_hex from_full), from))
      else Inr (put ATTR_SIP_TRUNK_NUMBER (uri_user (sc_to call)) (put ATTR_SIP_HOST_NAME (uri_host (sc_from call))
                  (put ATTR_SIP_PHONE_NUMBER from_full attributes)), ''sip_'' @ from_full, from_full))"

definition trunk_settings :: "inbound_trunk option \<Rightarrow> dispatch_rule_info \<Rightarrow> dispatch_response \<Rightarrow> dispatch_response" where
  "trunk_settings trunk rule resp =
     (let (resp, krisp) =
        (case trunk of
           None \<Rightarrow> (resp, False)
         | Some t \<Rightarrow> (resp\<lparr> ds_headers := it_headers t, ds_headers_to_attributes := it_headers_to_attributes t,
                       ds_attributes_to_headers := it_attributes_to_headers t, ds_include_headers := it_include_headers t,
                       ds_ringing_timeout := it_ringing_timeout t, ds_max_call_duration := it_max_call_duration t \<rparr>,
                      it_krisp_enabled t))
      in if krisp \<or> dr_krisp_enabled rule then resp\<lparr> ds_enabled_features := ds_enabled_features resp @ [1] \<rparr> else resp)"

definition evaluate_dispatch_rule ::
    "(string \<Rightarrow> string) \<Rightarrow> nat list \<Rightarrow> inbound_trunk option \<Rightarrow> dispatch_rule_info \<Rightarrow> dispatch_request \<Rightarrow> sip_call \<Rightarrow> string \<Rightarrow>
     (sip_error, dispatch_response) result" where
  "evaluate_dispatch_rule sha256_hex draw trunk rule req call trunk_id =
     ebind (caller_identity sha256_hex rule call (caller_attributes rule req call trunk_id)) (\<lambda>(attributes, from_id, from).
     ebind (get_pin_and_room rule) (\<lambda>(room, rule_pin).
       let media = merged_media trunk rule in
       if rule_pin \<noteq> [] \<and> dq_pin req = []
       then Inr (dispatch_response_default\<lparr> ds_sip_trunk_id := trunk_id, ds_sip_dispatch_rule_id := dr_sip_dispatch_rule_id rule,
                   ds_request_pin := True, ds_result := RequestPin, ds_media_encryption := media_enc media, ds_media := media \<rparr>)
       else if rule_pin \<noteq> [] \<and> rule_pin \<noteq> dq_pin req then Inl IncorrectPin
       else Inr (trunk_settings trunk rule
              (dispatch_response_default\<lparr> ds_sip_trunk_id := trunk_id, ds_sip_dispatch_rule_id := dr_sip_dispatch_rule_id rule,
                 ds_result := DispatchAccept, ds_room_name := dispatch_room draw rule room from (uri_user (sc_to call)),
                 ds_participant_identity := from_id, ds_participant_name := ''Phone '' @ from,
                 ds_participant_metadata := dr_metadata rule,
                 ds_participant_attributes := put ATTR_SIP_RULE_ID (dr_sip_dispatch_rule_id rule) attributes,
                 ds_room_preset := dr_room_preset rule, ds_room_config := dr_room_config rule,
                 ds_media_encryption := media_enc media, ds_media := media \<rparr>))))"

section \<open>Handlers\<close>

definition store_result :: "(string, 'a) result \<Rightarrow> (sip_error, 'a) result" where
  "store_result r = map_sum StoreError id r"

definition match_trunk_for ::
    "ipnet \<Rightarrow> 's backend \<Rightarrow> inbound_trunk codec \<Rightarrow> string \<Rightarrow> sip_call \<Rightarrow> 's \<Rightarrow> (sip_error, inbound_trunk option) result" where
  "match_trunk_for ipnet be co trunk_id call st =
     (let all = ebind (store_result (list_sip_inbound_trunks be co st)) (\<lambda>all. match_trunk ipnet all call) in
      if trunk_id = [] then all
      else ebind (store_result (load_sip_inbound_trunk be co trunk_id st)) (\<lambda>loaded.
        (case loaded of
           None \<Rightarrow> all
         | Some trunk \<Rightarrow> ebind (match_trunk ipnet [trunk] call) (\<lambda>m. if m \<noteq> None then Inr (Some trunk) else all))))"

record sip_auth_response =
  as_username :: string
  as_password :: string
  as_realm :: string
  as_sip_trunk_id :: string
  as_provider_info :: "(string \<times> string \<times> int) option"

definition get_sip_trunk_authentication ::
    "ipnet \<Rightarrow> 's backend \<Rightarrow> inbound_trunk codec \<Rightarrow> sip_auth_request \<Rightarrow> 's \<Rightarrow> (sip_error, sip_auth_response) result" where
  "get_sip_trunk_authentication ipnet be co req st =
     ebind (match_trunk_for ipnet be co [] (sip_call_from_auth req) st) (\<lambda>trunk. Inr
       (case trunk of
          None \<Rightarrow> \<lparr> as_username = [], as_password = [], as_realm = [], as_sip_trunk_id = [], as_provider_info = None \<rparr>
        | Some t \<Rightarrow> \<lparr> as_username = it_auth_username t, as_password = it_auth_password t, as_realm = it_auth_realm t,
                     as_sip_trunk_id = it_sip_trunk_id t, as_provider_info = Some (it_sip_trunk_id t, it_name t, 2) \<rparr>))"

definition evaluate_sip_dispatch_rules ::
    "ipnet \<Rightarrow> (string \<Rightarrow> string) \<Rightarrow> nat list \<Rightarrow> 's backend \<Rightarrow> inbound_trunk codec \<Rightarrow> dispatch_rule_info codec \<Rightarrow> dispatch_request \<Rightarrow> 's \<Rightarrow>
     (sip_error, dispatch_response) result" where
  "evaluate_sip_dispatch_rules ipnet sha256_hex draw be co cr req st =
     (let call = sip_call_from_dispatch req in
      ebind (match_trunk_for ipnet be co (dq_sip_trunk_id req) call st) (\<lambda>trunk.
      let trunk_id = (case trunk of Some t \<Rightarrow> it_sip_trunk_id t | None \<Rightarrow> []);
          drop = Inr (dispatch_response_default\<lparr> ds_sip_trunk_id := trunk_id, ds_result := DispatchDrop \<rparr>) in
      ebind (store_result (list_sip_dispatch_rules be cr st)) (\<lambda>rules.
        (case match_dispatch_rule rules trunk req of
           Inr (Some rule) \<Rightarrow> evaluate_dispatch_rule sha256_hex draw trunk rule req call trunk_id
         | Inr None \<Rightarrow> drop
         | Inl e \<Rightarrow> if e = NoDispatchMatched then drop else Inl e))))"

text \<open>The service: the answers are encoded by \<open>enc_auth\<close> and \<open>enc_dispatch\<close>; the empty message
  is no byte.\<close>

datatype io_error = IoDecode string | IoSip sip_error | IoUnknownMethod string

record sip_io_codecs =
  sx_auth :: "bytes \<Rightarrow> (string, sip_auth_request) result"
  sx_dispatch :: "bytes \<Rightarrow> (string, dispatch_request) result"
  sx_enc_auth :: "sip_auth_response \<Rightarrow> bytes"
  sx_enc_dispatch :: "dispatch_response \<Rightarrow> bytes"

definition sip_io_handle ::
    "ipnet \<Rightarrow> (string \<Rightarrow> string) \<Rightarrow> nat list \<Rightarrow> 's backend \<Rightarrow> inbound_trunk codec \<Rightarrow> dispatch_rule_info codec \<Rightarrow> sip_io_codecs \<Rightarrow>
     string \<Rightarrow> bytes \<Rightarrow> 's \<Rightarrow> (io_error, bytes) result" where
  "sip_io_handle ipnet sha256_hex draw be co cr sx rpc raw st =
     (if rpc = ''GetSIPTrunkAuthentication''
      then ebind (map_sum IoDecode id (sx_auth sx raw)) (\<lambda>req.
           ebind (map_sum IoSip id (get_sip_trunk_authentication ipnet be co req st)) (\<lambda>resp. Inr (sx_enc_auth sx resp)))
      else if rpc = ''EvaluateSIPDispatchRules''
      then ebind (map_sum IoDecode id (sx_dispatch sx raw)) (\<lambda>req.
           ebind (map_sum IoSip id (evaluate_sip_dispatch_rules ipnet sha256_hex draw be co cr req st)) (\<lambda>resp.
             Inr (sx_enc_dispatch sx resp)))
      else if rpc = ''UpdateSIPCallState'' \<or> rpc = ''RecordCallContext'' then Inr []
      else Inl (IoUnknownMethod rpc))"

section \<open>Choice of the trunk\<close>

definition trunk_eligible :: "ipnet \<Rightarrow> sip_call \<Rightarrow> inbound_trunk \<Rightarrow> bool" where
  "trunk_eligible ipnet call tr \<longleftrightarrow>
     match_numbers (uri_user (sc_from call)) (it_allowed_numbers tr)
     \<and> match_addr_masks ipnet (sc_source_ip call) (uri_host (sc_from call)) (it_allowed_addresses tr)"

definition trunk_serves :: "sip_call \<Rightarrow> inbound_trunk \<Rightarrow> bool" where
  "trunk_serves call tr \<longleftrightarrow>
     (\<exists>num \<in> set (it_numbers tr). num = uri_user (sc_to call) \<or> normalize_number num = normalize_number (uri_user (sc_to call)))"

text \<open>The specification: a trunk for the called number, which must be the only one,
  otherwise the only wildcard trunk.\<close>

definition only_one :: "'e \<Rightarrow> 'a list \<Rightarrow> ('e, 'a option) result \<Rightarrow> ('e, 'a option) result" where
  "only_one e xs otherwise = (case xs of [] \<Rightarrow> otherwise | [x] \<Rightarrow> Inr (Some x) | _ \<Rightarrow> Inl e)"

definition trunk_spec :: "ipnet \<Rightarrow> inbound_trunk list \<Rightarrow> sip_call \<Rightarrow> (sip_error, inbound_trunk option) result" where
  "trunk_spec ipnet trunks call =
     (let dest = uri_user (sc_to call); el = filter (trunk_eligible ipnet call) trunks in
      only_one (MultipleTrunks dest) (filter (trunk_serves call) el)
        (only_one (MultipleDefaultTrunks dest) (filter (\<lambda>tr. it_numbers tr = []) el) (Inr None)))"

lemma list_ex_serves:
  "list_ex (\<lambda>num. num = uri_user (sc_to call) \<or> normalize_number num = normalize_number (uri_user (sc_to call))) (it_numbers tr)
   \<longleftrightarrow> trunk_serves call tr"
  by (simp add: trunk_serves_def list_ex_iff)

lemma serves_not_default: "trunk_serves call tr \<Longrightarrow> it_numbers tr \<noteq> []"
  by (auto simp: trunk_serves_def)

text \<open>The loop, with what it has seen as lists.\<close>

lemma match_trunk_loop_spec:
  assumes "selected = (case ss of [] \<Rightarrow> None | s # _ \<Rightarrow> Some s)" "length ss \<le> 1"
    and "default_trunk = (if ds = [] then None else Some (last ds))" "cnt = length ds"
  shows "match_trunk_loop ipnet call trs selected default_trunk cnt =
    only_one (MultipleTrunks (uri_user (sc_to call))) (ss @ filter (trunk_serves call) (filter (trunk_eligible ipnet call) trs))
      (only_one (MultipleDefaultTrunks (uri_user (sc_to call)))
        (ds @ filter (\<lambda>tr. it_numbers tr = []) (filter (trunk_eligible ipnet call) trs)) (Inr None))"
  using assms
proof (induction trs arbitrary: ss ds selected default_trunk cnt)
  case Nil
  then show ?case
    by (cases ss; cases ds; cases "tl ds") (auto simp: only_one_def)
next
  case (Cons tr trs)
  consider (skip) "\<not> trunk_eligible ipnet call tr \<or> (it_numbers tr \<noteq> [] \<and> \<not> trunk_serves call tr)"
    | (dflt) "trunk_eligible ipnet call tr" "it_numbers tr = []"
    | (serves) "trunk_eligible ipnet call tr" "trunk_serves call tr" by blast
  then show ?case
  proof cases
    case skip
    then have "match_trunk_loop ipnet call (tr # trs) selected default_trunk cnt = match_trunk_loop ipnet call trs selected default_trunk cnt"
      by (auto simp: list_ex_serves trunk_eligible_def)
    with skip Cons.IH [OF Cons.prems] show ?thesis by auto
  next
    case dflt
    then have ns: "\<not> trunk_serves call tr" by (auto simp: trunk_serves_def)
    have "match_trunk_loop ipnet call (tr # trs) selected default_trunk cnt = match_trunk_loop ipnet call trs selected (Some tr) (cnt + 1)"
      using dflt by (auto simp: trunk_eligible_def)
    also have "\<dots> = only_one (MultipleTrunks (uri_user (sc_to call))) (ss @ filter (trunk_serves call) (filter (trunk_eligible ipnet call) trs))
      (only_one (MultipleDefaultTrunks (uri_user (sc_to call)))
        ((ds @ [tr]) @ filter (\<lambda>tr. it_numbers tr = []) (filter (trunk_eligible ipnet call) trs)) (Inr None))"
      by (rule Cons.IH) (use Cons.prems in auto)
    finally show ?thesis using dflt ns by simp
  next
    case serves
    note nd = serves_not_default [OF serves(2)]
    show ?thesis
    proof (cases ss)
      case Nil
      then have "match_trunk_loop ipnet call (tr # trs) selected default_trunk cnt = match_trunk_loop ipnet call trs (Some tr) default_trunk cnt"
        using serves nd Cons.prems by (auto simp: trunk_eligible_def list_ex_serves)
      also have "\<dots> = only_one (MultipleTrunks (uri_user (sc_to call))) ([tr] @ filter (trunk_serves call) (filter (trunk_eligible ipnet call) trs))
      (only_one (MultipleDefaultTrunks (uri_user (sc_to call)))
        (ds @ filter (\<lambda>tr. it_numbers tr = []) (filter (trunk_eligible ipnet call) trs)) (Inr None))"
        by (rule Cons.IH) (use Cons.prems in auto)
      finally show ?thesis using serves nd Nil by simp
    next
      case (Cons s ss')
      then show ?thesis
        using serves nd Cons.prems by (auto simp: trunk_eligible_def list_ex_serves only_one_def split: list.splits)
    qed
  qed
qed

lemma match_trunk_spec_eq: "match_trunk ipnet trunks call = trunk_spec ipnet trunks call"
  unfolding match_trunk_def trunk_spec_def Let_def by (subst match_trunk_loop_spec [where ss = "[]" and ds = "[]"]) simp_all

section \<open>Choice of the rule\<close>

definition rule_eligible :: "inbound_trunk option \<Rightarrow> dispatch_request \<Rightarrow> dispatch_rule_info \<Rightarrow> bool" where
  "rule_eligible trunk req r \<longleftrightarrow>
     \<not> rule_skipped req r \<and> (dr_trunk_ids r = [] \<or> (\<exists>t. trunk = Some t \<and> it_sip_trunk_id t \<in> set (dr_trunk_ids r)))"

fun best :: "dispatch_rule_info option \<Rightarrow> dispatch_rule_info list \<Rightarrow> dispatch_rule_info option" where
  "best cur [] = cur"
| "best cur (r # rs) = best (better r cur) rs"

lemma not_higher_refl: "\<not> has_higher_priority r r"
  by (simp add: has_higher_priority_def)

lemma not_higher_trans: "\<not> has_higher_priority b a \<Longrightarrow> \<not> has_higher_priority c b \<Longrightarrow> \<not> has_higher_priority c a"
  unfolding has_higher_priority_def using lex_le_total [of "rule_room a" "rule_room b"] lex_le_total [of "rule_room b" "rule_room c"]
  by (auto split: if_splits dest: lex_le_trans lex_le_antisym)

lemma higher_asym: "has_higher_priority a b \<Longrightarrow> \<not> has_higher_priority b a"
  unfolding has_higher_priority_def by (auto split: if_splits dest: lex_le_antisym)

lemma better_Some: "\<exists>r'. better r cur = Some r'"
  by (simp add: better_def split: option.split)

lemma best_None: "best cur rs = None \<longleftrightarrow> cur = None \<and> rs = []"
proof (induction rs arbitrary: cur)
  case (Cons r rs)
  then show ?case using better_Some [of r cur] by auto
qed simp

lemma best_Some:
  "best cur rs = Some b \<Longrightarrow> (b \<in> set rs \<or> cur = Some b) \<and> (\<forall>r. r \<in> set rs \<or> cur = Some r \<longrightarrow> \<not> has_higher_priority r b)"
proof (induction rs arbitrary: cur)
  case Nil
  then show ?case by (auto simp: not_higher_refl)
next
  case (Cons r rs)
  obtain m where m: "better r cur = Some m" using better_Some by blast
  with Cons.prems have IH: "b \<in> set rs \<or> m = b" "\<And>x. x \<in> set rs \<Longrightarrow> \<not> has_higher_priority x b" "\<not> has_higher_priority m b"
    using Cons.IH [of "Some m"] by auto
  have "m = r \<or> cur = Some m" using m by (auto simp: better_def split: option.splits if_splits)
  moreover have "\<not> has_higher_priority x m" if "x = r \<or> cur = Some x" for x
    using that m by (auto simp: better_def not_higher_refl split: option.splits if_splits dest: higher_asym)
  ultimately show ?case using IH not_higher_trans [OF IH(3)] by auto
qed

lemma match_rule_loop_spec:
  assumes "sc = 0 \<longleftrightarrow> sp = None" "dc = 0 \<longleftrightarrow> df = None"
  shows "match_rule_loop trunk req rules sp sc df dc =
    (case (best sp (filter (\<lambda>r. dr_trunk_ids r \<noteq> []) (filter (rule_eligible trunk req) rules)),
           best df (filter (\<lambda>r. dr_trunk_ids r = []) (filter (rule_eligible trunk req) rules))) of
       (None, None) \<Rightarrow> Inl NoDispatchMatched | (Some r, _) \<Rightarrow> Inr (Some r) | (None, Some r) \<Rightarrow> Inr (Some r))"
  using assms
proof (induction rules arbitrary: sp sc df dc)
  case Nil
  then show ?case by (auto split: option.splits)
next
  case (Cons r rules)
  consider (skip) "\<not> rule_eligible trunk req r" | (dflt) "rule_eligible trunk req r" "dr_trunk_ids r = []"
    | (named) "rule_eligible trunk req r" "dr_trunk_ids r \<noteq> []" by blast
  then show ?case
  proof cases
    case skip
    then have "match_rule_loop trunk req (r # rules) sp sc df dc = match_rule_loop trunk req rules sp sc df dc"
      by (auto simp: rule_eligible_def split: option.split)
    with skip Cons.IH [OF Cons.prems] show ?thesis by simp
  next
    case dflt
    then have "match_rule_loop trunk req (r # rules) sp sc df dc = match_rule_loop trunk req rules sp sc (better r df) (dc + 1)"
      by (simp add: rule_eligible_def)
    moreover have "dc + 1 = 0 \<longleftrightarrow> better r df = None" using better_Some [of r df] by auto
    ultimately show ?thesis using dflt Cons.IH [OF Cons.prems(1)] by simp
  next
    case named
    then have "match_rule_loop trunk req (r # rules) sp sc df dc = match_rule_loop trunk req rules (better r sp) (sc + 1) df dc"
      by (auto simp: rule_eligible_def)
    moreover have "sc + 1 = 0 \<longleftrightarrow> better r sp = None" using better_Some [of r sp] by auto
    ultimately show ?thesis using named Cons.IH [OF _ Cons.prems(2)] by simp
  qed
qed

text \<open>A rule that names the trunk goes before one that names none; among those the order of
  priorities decides.\<close>

definition chosen_rule :: "inbound_trunk option \<Rightarrow> dispatch_request \<Rightarrow> dispatch_rule_info list \<Rightarrow> dispatch_rule_info \<Rightarrow> bool" where
  "chosen_rule trunk req rules r \<longleftrightarrow>
     r \<in> set rules \<and> rule_eligible trunk req r
     \<and> (\<forall>r' \<in> set rules. rule_eligible trunk req r' \<longrightarrow>
          (dr_trunk_ids r = [] \<longrightarrow> dr_trunk_ids r' = [])
          \<and> ((dr_trunk_ids r = []) = (dr_trunk_ids r' = []) \<longrightarrow> \<not> has_higher_priority r' r))"

lemma match_dispatch_rule_cases:
  "(match_dispatch_rule rules trunk req = Inl NoDispatchMatched \<and> \<not> (\<exists>r \<in> set rules. rule_eligible trunk req r))
   \<or> (\<exists>r. match_dispatch_rule rules trunk req = Inr (Some r) \<and> chosen_rule trunk req rules r)"
proof -
  let ?el = "filter (rule_eligible trunk req) rules"
  let ?sp = "best None (filter (\<lambda>r. dr_trunk_ids r \<noteq> []) ?el)"
  let ?df = "best None (filter (\<lambda>r. dr_trunk_ids r = []) ?el)"
  have m: "match_dispatch_rule rules trunk req =
    (case (?sp, ?df) of (None, None) \<Rightarrow> Inl NoDispatchMatched | (Some r, _) \<Rightarrow> Inr (Some r) | (None, Some r) \<Rightarrow> Inr (Some r))"
    unfolding match_dispatch_rule_def by (rule match_rule_loop_spec) simp_all
  consider (none) "?sp = None" "?df = None" | (sp) r where "?sp = Some r" | (df) r where "?sp = None" "?df = Some r"
    by (cases ?sp; cases ?df) auto
  then show ?thesis
  proof cases
    case none
    then have "\<forall>r \<in> set ?el. False" by (auto simp: best_None filter_empty_conv)
    with m none show ?thesis by auto
  next
    case sp
    then show ?thesis using m best_Some [OF sp] by (auto simp: chosen_rule_def)
  next
    case df
    then have "\<forall>r \<in> set ?el. dr_trunk_ids r = []" by (auto simp: best_None filter_empty_conv)
    then show ?thesis using m df best_Some [OF df(2)] by (auto simp: chosen_rule_def)
  qed
qed

section \<open>Properties\<close>

lemma match_trunk_eligible:
  assumes "match_trunk ipnet trunks call = Inr (Some t)"
  shows "t \<in> set trunks \<and> trunk_eligible ipnet call t \<and> (trunk_serves call t \<or> it_numbers t = [])"
proof -
  have one: "only_one e xs o' = Inr (Some t) \<Longrightarrow> t \<in> set xs \<or> o' = Inr (Some t)" for e xs o'
    by (auto simp: only_one_def split: list.splits)
  show ?thesis using assms unfolding match_trunk_spec_eq trunk_spec_def Let_def by (auto dest!: one)
qed

lemma match_trunk_for_eligible:
  assumes "match_trunk_for ipnet be co trunk_id call st = Inr (Some t)"
  shows "trunk_eligible ipnet call t"
  using assms
  by (auto simp: match_trunk_for_def Let_def split: if_splits option.splits elim!: ebind_InrE dest!: match_trunk_eligible)

text \<open>C22: the loop over the trunks computes the specification: among the trunks whose
  allowed numbers and addresses admit the call, the one trunk for the called number,
  failing when there are two; without one, the one wildcard trunk, failing when there
  are two.\<close>

theorem trunk_choice_exact: "match_trunk ipnet trunks call = trunk_spec ipnet trunks call"
  by (rule match_trunk_spec_eq)

text \<open>C23: a dispatch rule is chosen exactly when some rule is eligible: its numbers, its
  trunks and its pin admit the call.  The chosen rule names the trunk if any eligible
  rule does, and no eligible rule of its kind has a higher priority.\<close>

theorem rule_choice_best:
  "(match_dispatch_rule rules trunk req = Inl NoDispatchMatched \<and> \<not> (\<exists>r. r \<in> set rules \<and> rule_eligible trunk req r))
   \<or> (\<exists>r. match_dispatch_rule rules trunk req = Inr (Some r) \<and> chosen_rule trunk req rules r)"
  using match_dispatch_rule_cases [of rules trunk req] by blast

lemma eligible_rule:
  assumes "rule_eligible trunk req r" "get_pin_and_room r = Inr (room, pin)"
  shows "(dr_inbound_numbers r = [] \<or> dq_calling_number req \<in> set (dr_inbound_numbers r))
    \<and> (dr_numbers r = [] \<or> dq_called_number req \<in> set (dr_numbers r))
    \<and> (dq_no_pin req \<longrightarrow> pin = [])
    \<and> (dr_trunk_ids r = [] \<or> (\<exists>t. trunk = Some t \<and> it_sip_trunk_id t \<in> set (dr_trunk_ids r)))"
  using assms by (auto simp: rule_eligible_def rule_skipped_def split: if_splits)

lemma evaluate_accept:
  assumes "evaluate_dispatch_rule sha draw trunk r req call tid = Inr resp" "ds_result resp = DispatchAccept"
  shows "\<exists>room pin. get_pin_and_room r = Inr (room, pin) \<and> (pin = [] \<or> pin = dq_pin req)
    \<and> ds_sip_trunk_id resp = tid \<and> ds_sip_dispatch_rule_id resp = dr_sip_dispatch_rule_id r"
  using assms
  by (auto simp: evaluate_dispatch_rule_def Let_def trunk_settings_def dispatch_response_default_def split: if_splits option.splits
      elim!: ebind_InrE)



lemma look_put_all: "look m k = None \<Longrightarrow> look kvs k = None \<Longrightarrow> look (foldl (\<lambda>m (k, v). put k v m) m kvs) k = None"
proof (induction kvs arbitrary: m)
  case (Cons x kvs)
  obtain a b where x: "x = (a, b)" by force
  then have "k \<noteq> a" "look kvs k = None" using Cons.prems(2) by (auto simp: look_eq_None)
  then show ?case using Cons.IH [of "put a b m"] Cons.prems(1) x by simp
qed simp

text \<open>C24: a rule that hides phone numbers hides them: the answer depends on the caller only
  through the shown last digits and eight digits of the hash, and carries neither the
  numbers nor the host as attributes unless the rule or the request adds them.\<close>

theorem hidden_number_stays_hidden:
  assumes "dr_hide_phone_number r" "masked_number (su_user u) = masked_number (su_user u')"
    and "take 8 (sha (su_user u)) = take 8 (sha (su_user u'))"
  shows "evaluate_dispatch_rule sha draw trunk r req (call\<lparr> sc_from := Some u \<rparr>) tid =
         evaluate_dispatch_rule sha draw trunk r req (call\<lparr> sc_from := Some u' \<rparr>) tid
    \<and> (\<forall>resp key. evaluate_dispatch_rule sha draw trunk r req (call\<lparr> sc_from := Some u \<rparr>) tid = Inr resp \<longrightarrow>
         key \<in> {ATTR_SIP_PHONE_NUMBER, ATTR_SIP_HOST_NAME, ATTR_SIP_TRUNK_NUMBER} \<longrightarrow>
         look (dr_attributes r) key = None \<longrightarrow> look (dq_extra_attributes req) key = None \<longrightarrow>
         look (ds_participant_attributes resp) key = None)"
proof (intro conjI allI impI)
  have ci: "caller_identity sha r (call\<lparr> sc_from := Some u \<rparr>) A = caller_identity sha r (call\<lparr> sc_from := Some u' \<rparr>) A" for A
    using assms by (simp add: caller_identity_def uri_user_def Let_def)
  have sel: "sc_to (call\<lparr> sc_from := x \<rparr>) = sc_to call" "sc_lk_call_id (call\<lparr> sc_from := x \<rparr>) = sc_lk_call_id call" for x by simp_all
  show "evaluate_dispatch_rule sha draw trunk r req (call\<lparr> sc_from := Some u \<rparr>) tid =
        evaluate_dispatch_rule sha draw trunk r req (call\<lparr> sc_from := Some u' \<rparr>) tid"
    unfolding evaluate_dispatch_rule_def caller_attributes_def ci sel by (rule refl)
  fix resp key
  assume e: "evaluate_dispatch_rule sha draw trunk r req (call\<lparr> sc_from := Some u \<rparr>) tid = Inr resp"
    and k: "key \<in> {ATTR_SIP_PHONE_NUMBER, ATTR_SIP_HOST_NAME, ATTR_SIP_TRUNK_NUMBER}"
    and n: "look (dr_attributes r) key = None" "look (dq_extra_attributes req) key = None"
  have ne: "key \<noteq> ATTR_SIP_CALL_ID" "key \<noteq> ATTR_SIP_TRUNK_ID" "key \<noteq> ATTR_SIP_RULE_ID" using k by (auto simp: sip_attr_defs)
  have "look (caller_attributes r req (call\<lparr> sc_from := Some u \<rparr>) tid) key = None"
    using ne look_put_all [OF n] by (simp add: caller_attributes_def)
  moreover have "ds_participant_attributes resp = [] \<or> ds_participant_attributes resp =
      put ATTR_SIP_RULE_ID (dr_sip_dispatch_rule_id r) (caller_attributes r req (call\<lparr> sc_from := Some u \<rparr>) tid)"
    using e assms(1) by (auto simp: evaluate_dispatch_rule_def caller_identity_def Let_def trunk_settings_def dispatch_response_default_def
        split: if_splits option.splits elim!: ebind_InrE)
  ultimately show "look (ds_participant_attributes resp) key = None" using ne by auto
qed

text \<open>C24 for two callers with the same last digits, whose hashes agree.\<close>

theorem hidden_number_stays_hidden_witness:
  "\<forall>req call. evaluate_dispatch_rule (\<lambda>_. ''0123456789'') [] None
      (dispatch_rule_info_default\<lparr> dr_rule := Some (Some (RuleDirect ''room'' [])), dr_hide_phone_number := True \<rparr>) req
      (call\<lparr> sc_from := Some \<lparr> su_user = ''+155512345'', su_host = ''a'' \<rparr> \<rparr>) [] =
   evaluate_dispatch_rule (\<lambda>_. ''0123456789'') [] None
      (dispatch_rule_info_default\<lparr> dr_rule := Some (Some (RuleDirect ''room'' [])), dr_hide_phone_number := True \<rparr>) req
      (call\<lparr> sc_from := Some \<lparr> su_user = ''+1882345'', su_host = ''b'' \<rparr> \<rparr>) []"
  by (intro allI, rule hidden_number_stays_hidden [THEN conjunct1]) (simp_all add: masked_number_def slice_from_def)

subsection \<open>Behaviour at odds with what the code means to do\<close>

lemma strip_port_append: "list_all is_digit port \<Longrightarrow> strip_port (host @ '':'' @ port) = host"
proof -
  assume d: "list_all is_digit port"
  then have "CHR '':'' \<notin> set (rev port)" by (auto simp: list_all_iff is_digit_def)
  then show ?thesis using d by (simp add: strip_port_def rsplit_once_def)
qed

text \<open>The address of an IPv6 caller, written with a port as \<open>[addr]:port\<close>, keeps its brackets
  and is no address any more, so every list of allowed addresses admits it.\<close>

lemma ipv6_caller_passes_every_mask:
  assumes "aq_call req = None" "aq_src_address req = ''['' @ addr @ '']'' @ '':'' @ port" "list_all is_digit port"
  shows "match_addr_masks ipnet (sc_source_ip (sip_call_from_auth req)) host masks"
proof -
  have "strip_port (aq_src_address req) = CHR ''['' # addr @ '']''"
    using strip_port_append [OF assms(3), of "''['' @ addr @ '']''"] assms(2) by simp
  then show ?thesis using assms(1) by (simp add: sip_call_from_auth_def Let_def match_addr_masks_def bracket_no_address)
qed

text \<open>A call without a calling number crashes the evaluation of a rule that hides numbers.\<close>

lemma hidden_empty_number_panics:
  "dr_hide_phone_number r \<Longrightarrow> uri_user (sc_from call) = [] \<Longrightarrow>
   evaluate_dispatch_rule sha draw trunk r req call tid = Inl CallPanic"
  by (simp add: evaluate_dispatch_rule_def caller_identity_def masked_number_def)

end
