(* ===== verification/Psrpc.thy ===== *)
theory Psrpc
  imports LK_Strings
begin

text \<open>
  Remote calls over the message bus (\<open>lk-psrpc/src/lib.rs\<close>).  A client publishes a request,
  servers bid for it, the client grants the first bid, the granted server runs its
  handler and publishes the response.  Messages travel encoded; the encodings are an
  argument (\<open>psrpc_codecs\<close>), over any type of payloads.  The bus is the in-memory one.
\<close>

section \<open>Channels\<close>

text \<open>The characters of a string (\<open>str::chars\<close>), as code points.\<close>

fun utf8_chars :: "string \<Rightarrow> nat list" where
  "utf8_chars [] = []"
| "utf8_chars (a # s) =
     (let n = of_char a :: nat; c = (\<lambda>i. of_char (s ! i) mod 64 :: nat) in
      if n < 128 then n # utf8_chars s
      else if n < 224 then (n mod 32 * 64 + c 0) # utf8_chars (drop 1 s)
      else if n < 240 then (n mod 16 * 4096 + c 0 * 64 + c 1) # utf8_chars (drop 2 s)
      else (n mod 8 * 262144 + c 0 * 4096 + c 1 * 64 + c 2) # utf8_chars (drop 3 s))"

definition plain_char :: "nat \<Rightarrow> bool" where
  "plain_char n \<longleftrightarrow> (48 \<le> n \<and> n \<le> 57) \<or> (65 \<le> n \<and> n \<le> 90) \<or> (97 \<le> n \<and> n \<le> 122) \<or> n = 95"

definition sanitize_char :: "nat \<Rightarrow> string" where
  "sanitize_char n =
     (if plain_char n then [char_of n]
      else if n < 65536 then ''u+'' @ hex_fixed 4 n
      else ''U+'' @ hex_fixed 8 n)"

definition sanitize :: "string \<Rightarrow> string" where
  "sanitize s = concat (map sanitize_char (utf8_chars s))"

definition channel :: "string list \<Rightarrow> string" where
  "channel parts = join_with ''|'' (map sanitize (filter (\<lambda>p. p \<noteq> []) parts))"

definition rpc_channel :: "string \<Rightarrow> string \<Rightarrow> string \<Rightarrow> string" where
  "rpc_channel service meth topic = channel [service, meth, topic, ''REQ'']"

definition claim_response_channel :: "string \<Rightarrow> string \<Rightarrow> string \<Rightarrow> string" where
  "claim_response_channel service meth topic = channel [service, meth, topic, ''RCLAIM'']"

definition response_channel :: "string \<Rightarrow> string \<Rightarrow> string" where
  "response_channel service client_id = channel [service, client_id, ''RES'']"

definition claim_request_channel :: "string \<Rightarrow> string \<Rightarrow> string" where
  "claim_request_channel service client_id = channel [service, client_id, ''CLAIM'']"

section \<open>Messages\<close>



record rpc_request =
  rq_request_id :: string
  rq_client_id :: string
  rq_sent_at :: int
  rq_expiry :: int
  rq_raw_request :: bytes

record claim_request =
  cq_request_id :: string
  cq_server_id :: string

record claim_response =
  cr_request_id :: string
  cr_server_id :: string

record rpc_response =
  rs_request_id :: string
  rs_server_id :: string
  rs_sent_at :: int
  rs_raw_response :: bytes
  rs_error :: string
  rs_code :: string

text \<open>The encodings: of the envelope, a type URL with a value, and of the four messages.\<close>

record ('v, 'p) psrpc_codecs =
  cd_msg :: "string \<times> 'v \<Rightarrow> 'p"
  cd_msg_dec :: "'p \<Rightarrow> (string \<times> 'v) option"
  cd_request :: "rpc_request \<Rightarrow> 'v"
  cd_request_dec :: "'v \<Rightarrow> rpc_request option"
  cd_claim :: "claim_request \<Rightarrow> 'v"
  cd_claim_dec :: "'v \<Rightarrow> claim_request option"
  cd_grant :: "claim_response \<Rightarrow> 'v"
  cd_grant_dec :: "'v \<Rightarrow> claim_response option"
  cd_response :: "rpc_response \<Rightarrow> 'v"
  cd_response_dec :: "'v \<Rightarrow> rpc_response option"

definition envelope :: "('v, 'p) psrpc_codecs \<Rightarrow> string \<Rightarrow> 'v \<Rightarrow> 'p" where
  "envelope px type_name v = cd_msg px (''type.googleapis.com/'' @ type_name, v)"

section \<open>The in-memory bus\<close>

text \<open>Subscribers are numbered; each has the queue of its channel.\<close>

record 'p membus =
  mb_subs :: "(string, nat list) assoc"
  mb_queues :: "(nat, (string \<times> 'p) list) assoc"

definition bus_publish :: "string \<Rightarrow> 'p \<Rightarrow> 'p membus \<Rightarrow> 'p membus" where
  "bus_publish ch payload b =
     b\<lparr> mb_queues := foldl (\<lambda>qs i. adjust i (\<lambda>q. q @ [(ch, payload)]) qs) (mb_queues b)
          (case look (mb_subs b) ch of Some is \<Rightarrow> is | None \<Rightarrow> []) \<rparr>"

definition bus_subscribe :: "nat \<Rightarrow> string list \<Rightarrow> 'p membus \<Rightarrow> 'p membus" where
  "bus_subscribe i channels b =
     b\<lparr> mb_subs := foldl (\<lambda>m c. put c ((case look m c of Some is \<Rightarrow> is | None \<Rightarrow> []) @ [i]) m) (mb_subs b) channels,
        mb_queues := put i [] (mb_queues b) \<rparr>"

section \<open>The client\<close>

datatype psrpc_error = PsBus string | PsTimeout | PsChannelClosed | PsMalformed string | PsRpc string string

text \<open>The channels of an open request: bids and responses.\<close>

record rpc_pending =
  pe_claims :: "claim_request list"
  pe_resps :: "rpc_response list"

record rpc_client =
  cl_service :: string
  cl_client_id :: string
  cl_sub :: nat
  cl_pending :: "(string, rpc_pending) assoc"

definition client_new :: "nat \<Rightarrow> string \<Rightarrow> string \<Rightarrow> 'p membus \<Rightarrow> rpc_client \<times> 'p membus" where
  "client_new i service client_id b =
     (\<lparr> cl_service = service, cl_client_id = client_id, cl_sub = i, cl_pending = [] \<rparr>,
      bus_subscribe i [response_channel service client_id, claim_request_channel service client_id] b)"

definition client_dispatch :: "('v, 'p) psrpc_codecs \<Rightarrow> 'p \<Rightarrow> rpc_client \<Rightarrow> rpc_client" where
  "client_dispatch px payload cl =
     (case cd_msg_dec px payload of
        None \<Rightarrow> cl
      | Some (type_url, value) \<Rightarrow>
          if ends_with ''internal.ClaimRequest'' type_url
          then (case cd_claim_dec px value of
                  None \<Rightarrow> cl
                | Some claim \<Rightarrow>
                    cl\<lparr> cl_pending := adjust (cq_request_id claim) (\<lambda>p. p\<lparr> pe_claims := pe_claims p @ [claim] \<rparr>) (cl_pending cl) \<rparr>)
          else if ends_with ''internal.Response'' type_url
          then (case cd_response_dec px value of
                  None \<Rightarrow> cl
                | Some resp \<Rightarrow>
                    cl\<lparr> cl_pending := adjust (rs_request_id resp) (\<lambda>p. p\<lparr> pe_resps := pe_resps p @ [resp] \<rparr>) (cl_pending cl) \<rparr>)
          else cl)"

text \<open>A call in progress: the task that runs \<open>request_single\<close>.\<close>

record rpc_call =
  ca_client :: nat
  ca_request :: rpc_request
  ca_service :: string
  ca_method :: string
  ca_topic :: string
  ca_granted :: bool
  ca_result :: "(psrpc_error, bytes) result option"

definition request_start ::
    "('v, 'p) psrpc_codecs \<Rightarrow> rpc_client \<Rightarrow> string \<Rightarrow> int \<Rightarrow> int \<Rightarrow> string \<Rightarrow> string \<Rightarrow> bytes \<Rightarrow> 'p membus \<Rightarrow>
     rpc_client \<times> rpc_call \<times> 'p membus" where
  "request_start px cl request_id now timeout meth topic payload b =
     (let request = \<lparr> rq_request_id = request_id, rq_client_id = cl_client_id cl, rq_sent_at = now, rq_expiry = now + timeout,
                      rq_raw_request = payload \<rparr> in
      (cl\<lparr> cl_pending := put request_id \<lparr> pe_claims = [], pe_resps = [] \<rparr> (cl_pending cl) \<rparr>,
       \<lparr> ca_client = cl_sub cl, ca_request = request, ca_service = cl_service cl, ca_method = meth, ca_topic = topic,
         ca_granted = False, ca_result = None \<rparr>,
       bus_publish (rpc_channel (cl_service cl) meth topic) (envelope px ''internal.Request'' (cd_request px request)) b))"

definition response_payload :: "rpc_response \<Rightarrow> (psrpc_error, bytes) result" where
  "response_payload resp = (if rs_error resp \<noteq> [] then Inl (PsRpc (rs_code resp) (rs_error resp)) else Inr (rs_raw_response resp))"

text \<open>One round of the biased select: a response ends the call, else a bid is taken, and the
  first one is granted.\<close>

definition request_select ::
    "('v, 'p) psrpc_codecs \<Rightarrow> rpc_client \<Rightarrow> rpc_call \<Rightarrow> 'p membus \<Rightarrow> (rpc_client \<times> rpc_call \<times> 'p membus) option" where
  "request_select px cl ca b =
     (let rid = rq_request_id (ca_request ca) in
      case look (cl_pending cl) rid of
        None \<Rightarrow> None
      | Some p \<Rightarrow>
          (case pe_resps p of
             resp # _ \<Rightarrow> Some (cl\<lparr> cl_pending := del rid (cl_pending cl) \<rparr>, ca\<lparr> ca_result := Some (response_payload resp) \<rparr>, b)
           | [] \<Rightarrow>
               (case pe_claims p of
                  [] \<Rightarrow> None
                | claim # claims \<Rightarrow>
                    let cl' = cl\<lparr> cl_pending := put rid (p\<lparr> pe_claims := claims \<rparr>) (cl_pending cl) \<rparr> in
                    if ca_granted ca then Some (cl', ca, b)
                    else Some (cl', ca\<lparr> ca_granted := True \<rparr>,
                      bus_publish (claim_response_channel (ca_service ca) (ca_method ca) (ca_topic ca))
                        (envelope px ''internal.ClaimResponse''
                           (cd_grant px \<lparr> cr_request_id = cq_request_id claim, cr_server_id = cq_server_id claim \<rparr>)) b))))"

text \<open>The deadline: the pending entry stays.\<close>

definition request_timeout :: "rpc_call \<Rightarrow> rpc_call" where
  "request_timeout ca = ca\<lparr> ca_result := Some (Inl PsTimeout) \<rparr>"

section \<open>The server\<close>

text \<open>A method registered on a topic, with the requests it has bid for.\<close>

record rpc_registration =
  rg_service :: string
  rg_server_id :: string
  rg_method :: string
  rg_topic :: string
  rg_pending :: "(string, string \<times> bytes \<times> int) assoc"

definition register_topic :: "nat \<Rightarrow> string \<Rightarrow> string \<Rightarrow> string \<Rightarrow> string \<Rightarrow> 'p membus \<Rightarrow> rpc_registration \<times> 'p membus" where
  "register_topic i service server_id meth topic b =
     (\<lparr> rg_service = service, rg_server_id = server_id, rg_method = meth, rg_topic = topic, rg_pending = [] \<rparr>,
      bus_subscribe i [rpc_channel service meth topic, claim_response_channel service meth topic] b)"

text \<open>The task that runs the handler.\<close>

record rpc_task =
  tk_reg :: nat
  tk_request_id :: string
  tk_client_id :: string
  tk_raw :: bytes

definition registration_message ::
    "('v, 'p) psrpc_codecs \<Rightarrow> nat \<Rightarrow> int \<Rightarrow> string \<times> 'p \<Rightarrow> rpc_registration \<Rightarrow> 'p membus \<Rightarrow> rpc_registration \<times> rpc_task list \<times> 'p membus" where
  "registration_message px i now msg rg b =
     (case cd_msg_dec px (snd msg) of
        None \<Rightarrow> (rg, [], b)
      | Some (_, value) \<Rightarrow>
          if fst msg = rpc_channel (rg_service rg) (rg_method rg) (rg_topic rg)
          then (case cd_request_dec px value of
                  None \<Rightarrow> (rg, [], b)
                | Some req \<Rightarrow>
                    if rq_expiry req \<le> now then (rg, [], b)
                    else (rg\<lparr> rg_pending := put (rq_request_id req) (rq_client_id req, rq_raw_request req, rq_expiry req)
                                (filter (\<lambda>(_, _, _, ex). now < ex) (rg_pending rg)) \<rparr>, [],
                          bus_publish (claim_request_channel (rg_service rg) (rq_client_id req))
                            (envelope px ''internal.ClaimRequest''
                               (cd_claim px \<lparr> cq_request_id = rq_request_id req, cq_server_id = rg_server_id rg \<rparr>)) b))
          else if fst msg = claim_response_channel (rg_service rg) (rg_method rg) (rg_topic rg)
          then (case cd_grant_dec px value of
                  None \<Rightarrow> (rg, [], b)
                | Some grant \<Rightarrow>
                    if cr_server_id grant \<noteq> rg_server_id rg then (rg, [], b)
                    else (case look (rg_pending rg) (cr_request_id grant) of
                            None \<Rightarrow> (rg, [], b)
                          | Some (client_id, raw, _) \<Rightarrow>
                              (rg\<lparr> rg_pending := del (cr_request_id grant) (rg_pending rg) \<rparr>,
                               [\<lparr> tk_reg = i, tk_request_id = cr_request_id grant, tk_client_id = client_id, tk_raw = raw \<rparr>], b)))
          else (rg, [], b))"

text \<open>The end of the task: \<open>outcome\<close> is what the handler answers, an error with its code.\<close>

definition handler_response :: "rpc_registration \<Rightarrow> rpc_task \<Rightarrow> int \<Rightarrow> (string \<times> string, bytes) result \<Rightarrow> rpc_response" where
  "handler_response rg tk now outcome =
     (case outcome of
        Inr raw \<Rightarrow> \<lparr> rs_request_id = tk_request_id tk, rs_server_id = rg_server_id rg, rs_sent_at = now, rs_raw_response = raw,
                     rs_error = [], rs_code = [] \<rparr>
      | Inl (code, message) \<Rightarrow> \<lparr> rs_request_id = tk_request_id tk, rs_server_id = rg_server_id rg, rs_sent_at = now, rs_raw_response = [],
                     rs_error = message, rs_code = code \<rparr>)"

definition run_handler ::
    "('v, 'p) psrpc_codecs \<Rightarrow> rpc_registration \<Rightarrow> rpc_task \<Rightarrow> int \<Rightarrow> (string \<times> string, bytes) result \<Rightarrow> 'p membus \<Rightarrow> 'p membus" where
  "run_handler px rg tk now outcome b =
     bus_publish (response_channel (rg_service rg) (tk_client_id tk))
       (envelope px ''internal.Response'' (cd_response px (handler_response rg tk now outcome))) b"

section \<open>The system\<close>

text \<open>Clients by their subscription, calls by request id, registrations by their subscription,
  tasks, and the handler runs so far.\<close>

record handled =
  hd_task :: rpc_task
  hd_at :: int
  hd_outcome :: "(string \<times> string, bytes) result"

record 'p psrpc_sys =
  ps_bus :: "'p membus"
  ps_clients :: "(nat, rpc_client) assoc"
  ps_calls :: "(string, rpc_call) assoc"
  ps_regs :: "(nat, rpc_registration) assoc"
  ps_tasks :: "rpc_task list"
  ps_handled :: "handled list"

definition psrpc_init :: "'p psrpc_sys" where
  "psrpc_init = \<lparr> ps_bus = \<lparr> mb_subs = [], mb_queues = [] \<rparr>, ps_clients = [], ps_calls = [], ps_regs = [], ps_tasks = [], ps_handled = [] \<rparr>"

text \<open>Taking the first message of a queue.\<close>

definition bus_pop :: "nat \<Rightarrow> 'p membus \<Rightarrow> ((string \<times> 'p) \<times> 'p membus) option" where
  "bus_pop i b =
     (case look (mb_queues b) i of Some (m # q) \<Rightarrow> Some (m, b\<lparr> mb_queues := put i q (mb_queues b) \<rparr>) | _ \<Rightarrow> None)"

text \<open>The steps: a new client, a registration, a request, the client's listener, a round of a
  call, its deadline, a message at a server, the end of a handler.  Request ids are
  fresh, and a server registers a method on a topic once.\<close>

inductive psrpc_step :: "('v, 'p) psrpc_codecs \<Rightarrow> 'p psrpc_sys \<Rightarrow> 'p psrpc_sys \<Rightarrow> bool" for px where
  new_client: "look (mb_queues (ps_bus s)) i = None \<Longrightarrow> client_new i service cid (ps_bus s) = (cl, b) \<Longrightarrow>
    psrpc_step px s (s\<lparr> ps_bus := b, ps_clients := put i cl (ps_clients s) \<rparr>)"
| registration: "look (mb_queues (ps_bus s)) i = None \<Longrightarrow>
    \<forall>j rg. look (ps_regs s) j = Some rg \<longrightarrow> rg_server_id rg = sid \<longrightarrow>
      claim_response_channel (rg_service rg) (rg_method rg) (rg_topic rg) \<noteq> claim_response_channel service meth topic \<Longrightarrow>
    register_topic i service sid meth topic (ps_bus s) = (rg, b) \<Longrightarrow>
    psrpc_step px s (s\<lparr> ps_bus := b, ps_regs := put i rg (ps_regs s) \<rparr>)"
| request: "look (ps_clients s) i = Some cl \<Longrightarrow> look (ps_calls s) rid = None \<Longrightarrow>
    request_start px cl rid now timeout meth topic payload (ps_bus s) = (cl', ca, b) \<Longrightarrow>
    psrpc_step px s (s\<lparr> ps_calls := put rid ca (ps_calls s), ps_clients := put i cl' (ps_clients s), ps_bus := b \<rparr>)"
| listener: "look (ps_clients s) i = Some cl \<Longrightarrow> bus_pop i (ps_bus s) = Some ((ch, payload), b) \<Longrightarrow>
    psrpc_step px s (s\<lparr> ps_bus := b, ps_clients := put i (client_dispatch px payload cl) (ps_clients s) \<rparr>)"
| select: "look (ps_clients s) i = Some cl \<Longrightarrow> look (ps_calls s) rid = Some ca \<Longrightarrow> ca_result ca = None \<Longrightarrow> ca_client ca = i \<Longrightarrow>
    request_select px cl ca (ps_bus s) = Some (cl', ca', b) \<Longrightarrow>
    psrpc_step px s (s\<lparr> ps_calls := put rid ca' (ps_calls s), ps_clients := put i cl' (ps_clients s), ps_bus := b \<rparr>)"
| deadline: "look (ps_calls s) rid = Some ca \<Longrightarrow> ca_result ca = None \<Longrightarrow>
    psrpc_step px s (s\<lparr> ps_calls := put rid (request_timeout ca) (ps_calls s) \<rparr>)"
| message: "look (ps_regs s) i = Some rg \<Longrightarrow> bus_pop i (ps_bus s) = Some (msg, b) \<Longrightarrow> registration_message px i now msg rg b = (rg', ts, b') \<Longrightarrow>
    psrpc_step px s (s\<lparr> ps_bus := b', ps_regs := put i rg' (ps_regs s), ps_tasks := ps_tasks s @ ts \<rparr>)"
| handler: "ps_tasks s = xs @ tk # ys \<Longrightarrow> look (ps_regs s) (tk_reg tk) = Some rg \<Longrightarrow>
    psrpc_step px s (s\<lparr> ps_tasks := xs @ ys, ps_handled := ps_handled s @ [\<lparr> hd_task = tk, hd_at = now, hd_outcome = outcome \<rparr>],
                       ps_bus := run_handler px rg tk now outcome (ps_bus s) \<rparr>)"

section \<open>Channels do not collide\<close>

lemma plain_not_bar: "plain_char n \<Longrightarrow> char_of n \<noteq> CHR ''|'' \<and> char_of n \<noteq> CHR ''+''"
  by (auto simp: plain_char_def char_of_eq_iff take_bit_eq_mod)

lemma sanitize_char_no_bar: "CHR ''|'' \<notin> set (sanitize_char n)"
  using plain_not_bar [of n] set_hex_fixed [of 4 n] set_hex_fixed [of 8 n] by (auto simp: sanitize_char_def)

lemma sanitize_no_bar: "CHR ''|'' \<notin> set (sanitize s)"
  using sanitize_char_no_bar by (auto simp: sanitize_def)

lemma split_on_join:
  "xs \<noteq> [] \<Longrightarrow> \<forall>x \<in> set xs. c \<notin> set x \<Longrightarrow> split_on c (join_with [c] xs) = xs"
proof (induction xs rule: induct_list012)
  case (3 x y zs)
  then show ?case by (simp add: split_on_append)
qed simp_all

lemma split_channel:
  assumes "k \<noteq> []"
  shows "split_on (CHR ''|'') (channel (ps @ [k])) = map sanitize (filter (\<lambda>p. p \<noteq> []) ps) @ [sanitize k]"
  using assms sanitize_no_bar by (simp add: channel_def split_on_join)

definition last_part :: "string \<Rightarrow> string" where
  "last_part ch = last (split_on (CHR ''|'') ch)"

lemma sanitize_kinds: "sanitize ''REQ'' = ''REQ''" "sanitize ''RCLAIM'' = ''RCLAIM''" "sanitize ''RES'' = ''RES''" "sanitize ''CLAIM'' = ''CLAIM''"
  by (simp_all add: sanitize_def sanitize_char_def plain_char_def char_of_eq_iff)

lemma last_parts [simp]:
  "last_part (rpc_channel a b c) = ''REQ''" "last_part (claim_response_channel a b c) = ''RCLAIM''"
  "last_part (response_channel a b) = ''RES''" "last_part (claim_request_channel a b) = ''CLAIM''"
  using split_channel [of "''REQ''" "[a, b, c]"] split_channel [of "''RCLAIM''" "[a, b, c]"]
    split_channel [of "''RES''" "[a, b]"] split_channel [of "''CLAIM''" "[a, b]"]
  by (simp_all add: last_part_def rpc_channel_def claim_response_channel_def response_channel_def claim_request_channel_def sanitize_kinds)

lemma kinds_differ [simp]:
  "response_channel a b \<noteq> claim_request_channel c d" "rpc_channel a b c \<noteq> claim_response_channel d e f"
  "rpc_channel a b c \<noteq> response_channel d e" "rpc_channel a b c \<noteq> claim_request_channel d e"
  "claim_response_channel a b c \<noteq> response_channel d e" "claim_response_channel a b c \<noteq> claim_request_channel d e"
proof -
  have ne: "x \<noteq> y" if "last_part x \<noteq> last_part y" for x y using that by auto
  show "response_channel a b \<noteq> claim_request_channel c d" "rpc_channel a b c \<noteq> claim_response_channel d e f"
    "rpc_channel a b c \<noteq> response_channel d e" "rpc_channel a b c \<noteq> claim_request_channel d e"
    "claim_response_channel a b c \<noteq> response_channel d e" "claim_response_channel a b c \<noteq> claim_request_channel d e"
    by (rule ne, simp)+
qed

lemmas kinds_differ' [simp] = kinds_differ [symmetric]

text \<open>ASCII names: the escapes form a prefix code.\<close>

definition ascii :: "string \<Rightarrow> bool" where
  "ascii s \<longleftrightarrow> list_all (\<lambda>c. (of_char c :: nat) < 128) s"

lemma utf8_chars_ascii: "ascii s \<Longrightarrow> utf8_chars s = map of_char s"
  by (induction s) (simp_all add: ascii_def)

lemma sanitize_char_hd: "sanitize_char n \<noteq> [] \<and> hd (sanitize_char n) \<noteq> CHR ''+''"
  using plain_not_bar [of n] by (simp add: sanitize_char_def)

lemma concat_hd: "concat (map sanitize_char ns) \<noteq> [] \<Longrightarrow> hd (concat (map sanitize_char ns)) \<noteq> CHR ''+''"
  using sanitize_char_hd by (cases ns) (auto simp: hd_append)

lemma sanitize_char_prefix:
  assumes "sanitize_char m @ concat (map sanitize_char ms) = sanitize_char n @ concat (map sanitize_char ns)" "m < 128" "n < 128"
  shows "m = n \<and> concat (map sanitize_char ms) = concat (map sanitize_char ns)"
proof (cases "plain_char m \<longleftrightarrow> plain_char n")
  case True
  show ?thesis
  proof (cases "plain_char m")
    case p: True
    then have c: "char_of m = (char_of n :: char)" and r: "concat (map sanitize_char ms) = concat (map sanitize_char ns)"
      using assms True by (simp_all add: sanitize_char_def)
    have "(of_char (char_of m :: char) :: nat) = of_char (char_of n :: char)" using c by simp
    then have "m = n" using assms(2,3) by simp
    with r show ?thesis by simp
  next
    case False
    then have e: "hex_fixed 4 m @ concat (map sanitize_char ms) = hex_fixed 4 n @ concat (map sanitize_char ns)"
      using assms True by (simp add: sanitize_char_def)
    then have "hex_fixed 4 m = hex_fixed 4 n" "concat (map sanitize_char ms) = concat (map sanitize_char ns)" by (simp_all add: append_eq_append_conv)
    then show ?thesis using hex_fixed_inj [of 4 m n] assms(2,3) by simp
  qed
next
  case False
  have no: "sanitize_char a @ concat (map sanitize_char as) \<noteq> sanitize_char b @ bs" if "plain_char a" "\<not> plain_char b" "b < 128" for a b as bs
  proof
    assume "sanitize_char a @ concat (map sanitize_char as) = sanitize_char b @ bs"
    then have "concat (map sanitize_char as) = CHR ''+'' # hex_fixed 4 b @ bs" using that by (simp add: sanitize_char_def)
    then show False using concat_hd [of as] by simp
  qed
  show ?thesis
  proof (cases "plain_char m")
    case True
    then show ?thesis using False no [of m n ms "concat (map sanitize_char ns)"] assms by simp
  next
    case p: False
    then show ?thesis using False no [of n m ns "concat (map sanitize_char ms)"] assms by simp
  qed
qed

lemma sanitize_inj:
  assumes "ascii s" "ascii t" "sanitize s = sanitize t"
  shows "s = t"
proof -
  have "ms = ns" if "concat (map sanitize_char ms) = concat (map sanitize_char ns)" "\<forall>m \<in> set ms. m < 128" "\<forall>n \<in> set ns. n < 128" for ms ns
    using that
  proof (induction ms arbitrary: ns)
    case Nil
    then show ?case using sanitize_char_hd by (cases ns) auto
  next
    case (Cons m ms)
    show ?case
    proof (cases ns)
      case Nil
      then show ?thesis using Cons.prems sanitize_char_hd [of m] by simp
    next
      case (Cons n ns')
      with Cons.prems sanitize_char_prefix [of m ms n ns'] Cons.IH [of ns'] show ?thesis by simp
    qed
  qed
  from this [of "map of_char s" "map of_char t"] assms
  have "map (of_char :: char \<Rightarrow> nat) s = map of_char t" by (simp add: sanitize_def utf8_chars_ascii ascii_def list_all_iff)
  then show ?thesis by (metis list.inj_map_strong of_char_eq_iff)
qed

lemma sanitize_nonempty: "s \<noteq> [] \<Longrightarrow> ascii s \<Longrightarrow> sanitize s \<noteq> []"
  using sanitize_inj [of s "[]"] by (auto simp: ascii_def sanitize_def)



section \<open>The queues of the bus\<close>

definition queue :: "'p membus \<Rightarrow> nat \<Rightarrow> (string \<times> 'p) list" where
  "queue b i = (case look (mb_queues b) i of Some q \<Rightarrow> q | None \<Rightarrow> [])"

definition subs_of :: "'p membus \<Rightarrow> string \<Rightarrow> nat list" where
  "subs_of b ch = (case look (mb_subs b) ch of Some is \<Rightarrow> is | None \<Rightarrow> [])"

text \<open>A subscriber is listed once per channel and has a queue.\<close>

definition subs_ok :: "'p membus \<Rightarrow> bool" where
  "subs_ok b \<longleftrightarrow> (\<forall>ch. distinct (subs_of b ch) \<and> (\<forall>i \<in> set (subs_of b ch). look (mb_queues b) i \<noteq> None))"

lemma look_foldl_adjust:
  "distinct is \<Longrightarrow> look (foldl (\<lambda>qs i. adjust i f qs) qs is) j = (if j \<in> set is then map_option f (look qs j) else look qs j)"
  by (induction "is" arbitrary: qs) auto

lemma queues_publish:
  "mb_queues (bus_publish ch m b) = foldl (\<lambda>qs i. adjust i (\<lambda>q. q @ [(ch, m)]) qs) (mb_queues b) (subs_of b ch)"
  by (simp add: bus_publish_def subs_of_def)

lemma look_publish_eq:
  "subs_ok b \<Longrightarrow> look (mb_queues (bus_publish ch m b)) i =
     (if i \<in> set (subs_of b ch) then map_option (\<lambda>q. q @ [(ch, m)]) (look (mb_queues b) i) else look (mb_queues b) i)"
  unfolding queues_publish by (rule look_foldl_adjust) (simp add: subs_ok_def)

lemma queue_publish:
  assumes "subs_ok b"
  shows "queue (bus_publish ch m b) i = queue b i @ (if i \<in> set (subs_of b ch) then [(ch, m)] else [])"
proof -
  have "i \<in> set (subs_of b ch) \<Longrightarrow> look (mb_queues b) i \<noteq> None" using assms by (auto simp: subs_ok_def)
  then show ?thesis using look_publish_eq [OF assms, of ch m i] by (auto simp: queue_def split: option.split)
qed

lemma look_publish: "subs_ok b \<Longrightarrow> look (mb_queues (bus_publish ch m b)) i = None \<longleftrightarrow> look (mb_queues b) i = None"
  by (simp add: look_publish_eq)

lemma subs_publish [simp]: "subs_of (bus_publish ch m b) = subs_of b"
  by (simp add: subs_of_def bus_publish_def fun_eq_iff)

lemma subs_ok_publish: "subs_ok b \<Longrightarrow> subs_ok (bus_publish ch m b)"
  using look_publish [of b ch m] by (simp add: subs_ok_def)

lemma look_foldl_subs:
  "distinct cs \<Longrightarrow> (case look (foldl (\<lambda>m c. put c ((case look m c of Some is \<Rightarrow> is | None \<Rightarrow> []) @ [i]) m) m cs) ch of Some is \<Rightarrow> is | None \<Rightarrow> [])
   = (case look m ch of Some is \<Rightarrow> is | None \<Rightarrow> []) @ (if ch \<in> set cs then [i] else [])"
  by (induction cs arbitrary: m) auto

lemma subs_subscribe: "distinct cs \<Longrightarrow> subs_of (bus_subscribe i cs b) ch = subs_of b ch @ (if ch \<in> set cs then [i] else [])"
  using look_foldl_subs [of cs i "mb_subs b" ch] by (simp add: subs_of_def bus_subscribe_def)

lemma queue_subscribe [simp]: "queue (bus_subscribe i cs b) j = (if j = i then [] else queue b j)"
  by (simp add: queue_def bus_subscribe_def)

lemma look_subscribe [simp]: "look (mb_queues (bus_subscribe i cs b)) j = (if j = i then Some [] else look (mb_queues b) j)"
  by (simp add: bus_subscribe_def)

lemma subs_ok_subscribe:
  assumes "subs_ok b" "look (mb_queues b) i = None" "distinct cs"
  shows "subs_ok (bus_subscribe i cs b)"
proof -
  have "i \<notin> set (subs_of b ch)" for ch using assms(1,2) unfolding subs_ok_def by fastforce
  then show ?thesis using assms by (auto simp: subs_ok_def subs_subscribe)
qed

lemma popE:
  assumes "bus_pop i b = Some (m, b')"
  shows "queue b i = m # queue b' i \<and> (\<forall>j. j \<noteq> i \<longrightarrow> queue b' j = queue b j) \<and> subs_of b' = subs_of b
    \<and> (\<forall>j. look (mb_queues b') j = None \<longleftrightarrow> look (mb_queues b) j = None)"
  using assms by (auto simp: bus_pop_def queue_def subs_of_def fun_eq_iff split: option.splits list.splits if_splits)

lemma subs_ok_pop: "subs_ok b \<Longrightarrow> bus_pop i b = Some (m, b') \<Longrightarrow> subs_ok b'"
  using popE [of i b m b'] by (simp add: subs_ok_def)

section \<open>The invariant\<close>

text \<open>What the encodings promise.\<close>

definition codecs_ok :: "('v, 'p) psrpc_codecs \<Rightarrow> bool" where
  "codecs_ok px \<longleftrightarrow>
     (\<forall>m. cd_msg_dec px (cd_msg px m) = Some m) \<and> (\<forall>m. cd_request_dec px (cd_request px m) = Some m)
     \<and> (\<forall>m. cd_claim_dec px (cd_claim px m) = Some m) \<and> (\<forall>m. cd_grant_dec px (cd_grant px m) = Some m)
     \<and> (\<forall>m. cd_response_dec px (cd_response px m) = Some m)"

definition call_channel :: "rpc_call \<Rightarrow> string" where
  "call_channel ca = claim_response_channel (ca_service ca) (ca_method ca) (ca_topic ca)"

definition reg_channel :: "rpc_registration \<Rightarrow> string" where
  "reg_channel rg = claim_response_channel (rg_service rg) (rg_method rg) (rg_topic rg)"

definition grant_msg :: "('v, 'p) psrpc_codecs \<Rightarrow> string \<Rightarrow> string \<Rightarrow> 'p" where
  "grant_msg px rid sid = envelope px ''internal.ClaimResponse'' (cd_grant px \<lparr> cr_request_id = rid, cr_server_id = sid \<rparr>)"

text \<open>A response some run of a handler produced.\<close>

definition produced :: "'p psrpc_sys \<Rightarrow> rpc_response \<Rightarrow> bool" where
  "produced s r \<longleftrightarrow> (\<exists>h \<in> set (ps_handled s). \<exists>rg. r = handler_response rg (hd_task h) (hd_at h) (hd_outcome h))"

text \<open>What travels on the channels; \<open>G\<close> is the server each request was granted to.\<close>

definition msg_ok :: "('v, 'p) psrpc_codecs \<Rightarrow> (string \<Rightarrow> string) \<Rightarrow> 'p psrpc_sys \<Rightarrow> string \<times> 'p \<Rightarrow> bool" where
  "msg_ok px G s m \<longleftrightarrow>
     (last_part (fst m) = ''REQ'' \<longrightarrow>
        (\<exists>rid ca. look (ps_calls s) rid = Some ca \<and> snd m = envelope px ''internal.Request'' (cd_request px (ca_request ca))))
     \<and> (last_part (fst m) = ''RCLAIM'' \<longrightarrow>
        (\<exists>rid ca. look (ps_calls s) rid = Some ca \<and> ca_granted ca \<and> fst m = call_channel ca \<and> snd m = grant_msg px rid (G rid)))
     \<and> (last_part (fst m) = ''CLAIM'' \<longrightarrow> (\<exists>cl. snd m = envelope px ''internal.ClaimRequest'' (cd_claim px cl)))
     \<and> (last_part (fst m) = ''RES'' \<longrightarrow> (\<exists>r. produced s r \<and> snd m = envelope px ''internal.Response'' (cd_response px r)))
     \<and> last_part (fst m) \<in> {''REQ'', ''RCLAIM'', ''CLAIM'', ''RES''}"

definition calls_ok :: "'p psrpc_sys \<Rightarrow> bool" where
  "calls_ok s \<longleftrightarrow> (\<forall>rid ca. look (ps_calls s) rid = Some ca \<longrightarrow> rq_request_id (ca_request ca) = rid
     \<and> (\<forall>r. ca_result ca = Some r \<longrightarrow> r = Inl PsTimeout \<or> (\<exists>resp. produced s resp \<and> rs_request_id resp = rid \<and> r = response_payload resp)))"

definition clients_ok :: "'p psrpc_sys \<Rightarrow> bool" where
  "clients_ok s \<longleftrightarrow> (\<forall>i cl rid p. look (ps_clients s) i = Some cl \<longrightarrow> look (cl_pending cl) rid = Some p \<longrightarrow>
     (\<forall>c \<in> set (pe_claims p). cq_request_id c = rid) \<and> (\<forall>r \<in> set (pe_resps p). rs_request_id r = rid \<and> produced s r))"

definition bus_ok :: "('v, 'p) psrpc_codecs \<Rightarrow> (string \<Rightarrow> string) \<Rightarrow> 'p psrpc_sys \<Rightarrow> bool" where
  "bus_ok px G s \<longleftrightarrow> subs_ok (ps_bus s) \<and> (\<forall>i. \<forall>m \<in> set (queue (ps_bus s) i). msg_ok px G s m)"

definition reg_ok :: "'p psrpc_sys \<Rightarrow> nat \<Rightarrow> rpc_registration \<Rightarrow> bool" where
  "reg_ok s i rg \<longleftrightarrow> look (mb_queues (ps_bus s)) i \<noteq> None \<and> keys_distinct (rg_pending rg)
     \<and> distinct (filter (\<lambda>m. fst m = reg_channel rg) (queue (ps_bus s) i))
     \<and> (\<forall>rid c raw ex. look (rg_pending rg) rid = Some (c, raw, ex) \<longrightarrow>
          (\<exists>ca. look (ps_calls s) rid = Some ca \<and> c = rq_client_id (ca_request ca) \<and> raw = rq_raw_request (ca_request ca)))"

definition regs_ok :: "'p psrpc_sys \<Rightarrow> bool" where
  "regs_ok s \<longleftrightarrow> (\<forall>i rg. look (ps_regs s) i = Some rg \<longrightarrow> reg_ok s i rg)
     \<and> (\<forall>i j rg rg'. look (ps_regs s) i = Some rg \<longrightarrow> look (ps_regs s) j = Some rg' \<longrightarrow> rg_server_id rg = rg_server_id rg' \<longrightarrow>
          reg_channel rg = reg_channel rg' \<longrightarrow> i = j)"

text \<open>The tasks, finished or not.\<close>

definition all_tasks :: "'p psrpc_sys \<Rightarrow> rpc_task list" where
  "all_tasks s = ps_tasks s @ map hd_task (ps_handled s)"

definition task_ok :: "('v, 'p) psrpc_codecs \<Rightarrow> (string \<Rightarrow> string) \<Rightarrow> 'p psrpc_sys \<Rightarrow> rpc_task \<Rightarrow> bool" where
  "task_ok px G s tk \<longleftrightarrow> (\<exists>ca rg. look (ps_calls s) (tk_request_id tk) = Some ca \<and> ca_granted ca
     \<and> look (ps_regs s) (tk_reg tk) = Some rg \<and> reg_channel rg = call_channel ca \<and> rg_server_id rg = G (tk_request_id tk)
     \<and> tk_raw tk = rq_raw_request (ca_request ca) \<and> tk_client_id tk = rq_client_id (ca_request ca)
     \<and> (call_channel ca, grant_msg px (tk_request_id tk) (G (tk_request_id tk))) \<notin> set (queue (ps_bus s) (tk_reg tk)))"

definition tasks_ok :: "('v, 'p) psrpc_codecs \<Rightarrow> (string \<Rightarrow> string) \<Rightarrow> 'p psrpc_sys \<Rightarrow> bool" where
  "tasks_ok px G s \<longleftrightarrow> distinct (map tk_request_id (all_tasks s)) \<and> (\<forall>tk \<in> set (all_tasks s). task_ok px G s tk)"

definition psrpc_inv :: "('v, 'p) psrpc_codecs \<Rightarrow> (string \<Rightarrow> string) \<Rightarrow> 'p psrpc_sys \<Rightarrow> bool" where
  "psrpc_inv px G s \<longleftrightarrow> calls_ok s \<and> clients_ok s \<and> bus_ok px G s \<and> regs_ok s \<and> tasks_ok px G s"

lemma psrpc_inv_init: "psrpc_inv px G psrpc_init"
  by (simp add: psrpc_inv_def calls_ok_def clients_ok_def bus_ok_def regs_ok_def tasks_ok_def psrpc_init_def subs_ok_def subs_of_def
      queue_def all_tasks_def)

text \<open>Parts of the state a notion does not read.\<close>

lemma part_simps [simp]:
  "produced (s\<lparr> ps_bus := b \<rparr>) = produced s" "produced (s\<lparr> ps_clients := c \<rparr>) = produced s" "produced (s\<lparr> ps_regs := r \<rparr>) = produced s"
  "produced (s\<lparr> ps_calls := x \<rparr>) = produced s" "produced (s\<lparr> ps_tasks := t \<rparr>) = produced s"
  "msg_ok px G (s\<lparr> ps_bus := b \<rparr>) = msg_ok px G s" "msg_ok px G (s\<lparr> ps_clients := c \<rparr>) = msg_ok px G s"
  "msg_ok px G (s\<lparr> ps_regs := r \<rparr>) = msg_ok px G s" "msg_ok px G (s\<lparr> ps_tasks := t \<rparr>) = msg_ok px G s"
  "task_ok px G (s\<lparr> ps_clients := c \<rparr>) = task_ok px G s" "task_ok px G (s\<lparr> ps_tasks := t \<rparr>) = task_ok px G s"
  "all_tasks (s\<lparr> ps_bus := b \<rparr>) = all_tasks s" "all_tasks (s\<lparr> ps_clients := c \<rparr>) = all_tasks s"
  "all_tasks (s\<lparr> ps_regs := r \<rparr>) = all_tasks s" "all_tasks (s\<lparr> ps_calls := x \<rparr>) = all_tasks s"
  by (simp_all add: fun_eq_iff produced_def msg_ok_def task_ok_def all_tasks_def)

lemma inv_regD: "psrpc_inv px G s \<Longrightarrow> look (ps_regs s) i = Some rg \<Longrightarrow> reg_ok s i rg"
  by (simp add: psrpc_inv_def regs_ok_def)

lemma inv_reg_unique:
  "psrpc_inv px G s \<Longrightarrow> look (ps_regs s) i = Some rg \<Longrightarrow> look (ps_regs s) j = Some rg' \<Longrightarrow> rg_server_id rg = rg_server_id rg' \<Longrightarrow>
   reg_channel rg = reg_channel rg' \<Longrightarrow> i = j"
  by (auto simp: psrpc_inv_def regs_ok_def)

lemma inv_taskD: "psrpc_inv px G s \<Longrightarrow> tk \<in> set (all_tasks s) \<Longrightarrow> task_ok px G s tk"
  by (simp add: psrpc_inv_def tasks_ok_def)

lemma inv_msgD: "psrpc_inv px G s \<Longrightarrow> m \<in> set (queue (ps_bus s) i) \<Longrightarrow> msg_ok px G s m"
  by (simp add: psrpc_inv_def bus_ok_def)

lemma inv_subs: "psrpc_inv px G s \<Longrightarrow> subs_ok (ps_bus s)"
  by (simp add: psrpc_inv_def bus_ok_def)

lemma inv_callD: "psrpc_inv px G s \<Longrightarrow> look (ps_calls s) rid = Some ca \<Longrightarrow> rq_request_id (ca_request ca) = rid"
  by (simp add: psrpc_inv_def calls_ok_def)

lemma inv_clientD:
  "psrpc_inv px G s \<Longrightarrow> look (ps_clients s) i = Some cl \<Longrightarrow> look (cl_pending cl) rid = Some p \<Longrightarrow>
   (\<forall>c \<in> set (pe_claims p). cq_request_id c = rid) \<and> (\<forall>r \<in> set (pe_resps p). rs_request_id r = rid \<and> produced s r)"
  by (simp add: psrpc_inv_def clients_ok_def)

text \<open>Another bus.\<close>

lemma new_bus_inv:
  assumes "psrpc_inv px G s" "subs_ok b" "\<And>i m. m \<in> set (queue b i) \<Longrightarrow> msg_ok px G s m"
    and "\<And>i rg. look (ps_regs s) i = Some rg \<Longrightarrow> reg_ok (s\<lparr> ps_bus := b \<rparr>) i rg"
    and "\<And>tk. tk \<in> set (all_tasks s) \<Longrightarrow> task_ok px G (s\<lparr> ps_bus := b \<rparr>) tk"
  shows "psrpc_inv px G (s\<lparr> ps_bus := b \<rparr>)"
  unfolding psrpc_inv_def
proof (intro conjI)
  show "calls_ok (s\<lparr> ps_bus := b \<rparr>)" "clients_ok (s\<lparr> ps_bus := b \<rparr>)" using assms(1) by (simp_all add: psrpc_inv_def calls_ok_def clients_ok_def)
  show "bus_ok px G (s\<lparr> ps_bus := b \<rparr>)" using assms(2,3) by (auto simp: bus_ok_def)
  show "regs_ok (s\<lparr> ps_bus := b \<rparr>)" unfolding regs_ok_def using assms(4) inv_reg_unique [OF assms(1)] by simp
  show "tasks_ok px G (s\<lparr> ps_bus := b \<rparr>)" using assms(1,5) by (simp add: psrpc_inv_def tasks_ok_def)
qed

lemma task_ok_bus:
  assumes "task_ok px G s tk"
    and "\<And>ca. look (ps_calls s) (tk_request_id tk) = Some ca \<Longrightarrow>
      (call_channel ca, grant_msg px (tk_request_id tk) (G (tk_request_id tk))) \<in> set (queue b (tk_reg tk)) \<Longrightarrow>
      (call_channel ca, grant_msg px (tk_request_id tk) (G (tk_request_id tk))) \<in> set (queue (ps_bus s) (tk_reg tk))"
  shows "task_ok px G (s\<lparr> ps_bus := b \<rparr>) tk"
  using assms unfolding task_ok_def by (simp; blast)

lemma channel_kinds [simp]: "last_part (reg_channel rg) = ''RCLAIM''" "last_part (call_channel ca) = ''RCLAIM''"
  by (simp_all add: reg_channel_def call_channel_def)

lemma publish_inv:
  assumes "psrpc_inv px G s" "msg_ok px G s (ch, m)"
    and "\<And>i. last_part ch = ''RCLAIM'' \<Longrightarrow> (ch, m) \<notin> set (queue (ps_bus s) i)"
    and "\<And>tk. last_part ch = ''RCLAIM'' \<Longrightarrow> tk \<in> set (all_tasks s) \<Longrightarrow> m \<noteq> grant_msg px (tk_request_id tk) (G (tk_request_id tk))"
  shows "psrpc_inv px G (s\<lparr> ps_bus := bus_publish ch m (ps_bus s) \<rparr>)"
proof (rule new_bus_inv [OF assms(1)])
  note so = inv_subs [OF assms(1)]
  note q = queue_publish [OF so] look_publish [OF so]
  show "subs_ok (bus_publish ch m (ps_bus s))" by (rule subs_ok_publish [OF so])
  show "msg_ok px G s m'" if "m' \<in> set (queue (bus_publish ch m (ps_bus s)) i)" for i m'
    using that assms(2) inv_msgD [OF assms(1), of m' i] by (auto simp: q split: if_splits)
  show "reg_ok (s\<lparr> ps_bus := bus_publish ch m (ps_bus s) \<rparr>) i rg" if "look (ps_regs s) i = Some rg" for i rg
    using inv_regD [OF assms(1) that] assms(3) [of i] by (auto simp: reg_ok_def q)
  show "task_ok px G (s\<lparr> ps_bus := bus_publish ch m (ps_bus s) \<rparr>) tk" if "tk \<in> set (all_tasks s)" for tk
    by (rule task_ok_bus [OF inv_taskD [OF assms(1) that]]) (use assms(4) [OF _ that] in \<open>auto simp: q split: if_splits\<close>)
qed

lemma pop_inv:
  assumes "psrpc_inv px G s" "bus_pop i (ps_bus s) = Some (m, b)"
  shows "psrpc_inv px G (s\<lparr> ps_bus := b \<rparr>)"
proof (rule new_bus_inv [OF assms(1)])
  note p = popE [OF assms(2)]
  have q: "m' \<in> set (queue b j) \<Longrightarrow> m' \<in> set (queue (ps_bus s) j)" for m' j using p by (cases "j = i") auto
  have d: "distinct (filter P (queue (ps_bus s) j)) \<Longrightarrow> distinct (filter P (queue b j))" for j P using p by (cases "j = i") (auto split: if_splits)
  show "subs_ok b" by (rule subs_ok_pop [OF inv_subs [OF assms(1)] assms(2)])
  show "msg_ok px G s m'" if "m' \<in> set (queue b j)" for j m' by (rule inv_msgD [OF assms(1) q [OF that]])
  show "reg_ok (s\<lparr> ps_bus := b \<rparr>) j rg" if "look (ps_regs s) j = Some rg" for j rg
    using inv_regD [OF assms(1) that] d p by (auto simp: reg_ok_def)
  show "task_ok px G (s\<lparr> ps_bus := b \<rparr>) tk" if "tk \<in> set (all_tasks s)" for tk
    by (rule task_ok_bus [OF inv_taskD [OF assms(1) that] q])
qed

lemma pop_msg:
  assumes "psrpc_inv px G s" "bus_pop i (ps_bus s) = Some (m, b)"
  shows "msg_ok px G s m"
    and "look (ps_regs s) i = Some rg \<Longrightarrow> fst m = reg_channel rg \<Longrightarrow> m \<notin> set (queue b i)"
    and "tk \<in> set (all_tasks s) \<Longrightarrow> tk_reg tk = i \<Longrightarrow> look (ps_calls s) (tk_request_id tk) = Some ca \<Longrightarrow>
         m \<noteq> (call_channel ca, grant_msg px (tk_request_id tk) (G (tk_request_id tk)))"
proof -
  note p = popE [OF assms(2)]
  show "msg_ok px G s m" by (rule inv_msgD [OF assms(1), of _ i]) (use p in simp)
  show "m \<notin> set (queue b i)" if "look (ps_regs s) i = Some rg" "fst m = reg_channel rg"
    using inv_regD [OF assms(1) that(1)] that(2) p by (auto simp: reg_ok_def)
  show "m \<noteq> (call_channel ca, grant_msg px (tk_request_id tk) (G (tk_request_id tk)))"
    if "tk \<in> set (all_tasks s)" "tk_reg tk = i" "look (ps_calls s) (tk_request_id tk) = Some ca"
    using inv_taskD [OF assms(1) that(1)] that(2,3) p by (auto simp: task_ok_def)
qed

lemma subscribe_inv:
  assumes "psrpc_inv px G s" "look (mb_queues (ps_bus s)) i = None" "distinct cs"
  shows "psrpc_inv px G (s\<lparr> ps_bus := bus_subscribe i cs (ps_bus s) \<rparr>)"
proof (rule new_bus_inv [OF assms(1)])
  show "subs_ok (bus_subscribe i cs (ps_bus s))" by (rule subs_ok_subscribe [OF inv_subs [OF assms(1)] assms(2,3)])
  show "msg_ok px G s m" if "m \<in> set (queue (bus_subscribe i cs (ps_bus s)) j)" for j m
    using that inv_msgD [OF assms(1), of m j] by (auto split: if_splits)
  show "reg_ok (s\<lparr> ps_bus := bus_subscribe i cs (ps_bus s) \<rparr>) j rg" if "look (ps_regs s) j = Some rg" for j rg
    using inv_regD [OF assms(1) that] assms(2) by (auto simp: reg_ok_def)
  show "task_ok px G (s\<lparr> ps_bus := bus_subscribe i cs (ps_bus s) \<rparr>) tk" if "tk \<in> set (all_tasks s)" for tk
    by (rule task_ok_bus [OF inv_taskD [OF assms(1) that]]) (auto split: if_splits)
qed

lemma msg_ok_mono:
  assumes "msg_ok px G s m" "\<And>r. produced s r \<Longrightarrow> produced s' r"
    and "\<And>x ca. look (ps_calls s) x = Some ca \<Longrightarrow> \<exists>ca'. look (ps_calls s') x = Some ca' \<and> ca_request ca' = ca_request ca
      \<and> call_channel ca' = call_channel ca \<and> (ca_granted ca \<longrightarrow> ca_granted ca' \<and> G' x = G x)"
  shows "msg_ok px G' s' m"
proof -
  note m = assms(1) [unfolded msg_ok_def]
  have req: "\<exists>rid ca. look (ps_calls s') rid = Some ca \<and> snd m = envelope px ''internal.Request'' (cd_request px (ca_request ca))"
    if k: "last_part (fst m) = ''REQ''"
  proof -
    obtain x ca where c: "look (ps_calls s) x = Some ca" "snd m = envelope px ''internal.Request'' (cd_request px (ca_request ca))"
      using m k by blast
    obtain ca' where "look (ps_calls s') x = Some ca'" "ca_request ca' = ca_request ca" using assms(3) [OF c(1)] by blast
    with c(2) show ?thesis by (intro exI [of _ x] exI [of _ ca']) simp
  qed
  have rcl: "\<exists>rid ca. look (ps_calls s') rid = Some ca \<and> ca_granted ca \<and> fst m = call_channel ca \<and> snd m = grant_msg px rid (G' rid)"
    if k: "last_part (fst m) = ''RCLAIM''"
  proof -
    obtain x ca where c: "look (ps_calls s) x = Some ca" "ca_granted ca" "fst m = call_channel ca" "snd m = grant_msg px x (G x)"
      using m k by blast
    obtain ca' where "look (ps_calls s') x = Some ca'" "call_channel ca' = call_channel ca" "ca_granted ca'" "G' x = G x"
      using assms(3) [OF c(1)] c(2) by blast
    with c show ?thesis by (intro exI [of _ x] exI [of _ ca']) simp
  qed
  have res: "\<exists>r. produced s' r \<and> snd m = envelope px ''internal.Response'' (cd_response px r)" if k: "last_part (fst m) = ''RES''"
    using m k assms(2) by blast
  show ?thesis unfolding msg_ok_def using req rcl res m by (intro conjI impI) blast+
qed

lemma put_call_inv:
  assumes "psrpc_inv px G s" "rq_request_id (ca_request ca') = rid"
    and "\<And>ca. look (ps_calls s) rid = Some ca \<Longrightarrow> ca_request ca' = ca_request ca \<and> call_channel ca' = call_channel ca \<and> (ca_granted ca \<longrightarrow> ca_granted ca')"
    and "\<And>r. ca_result ca' = Some r \<Longrightarrow> r = Inl PsTimeout \<or> (\<exists>resp. produced s resp \<and> rs_request_id resp = rid \<and> r = response_payload resp)"
  shows "psrpc_inv px G (s\<lparr> ps_calls := put rid ca' (ps_calls s) \<rparr>)" (is "psrpc_inv px G ?s")
proof -
  have g: "\<exists>ca''. look (ps_calls ?s) x = Some ca'' \<and> ca_request ca'' = ca_request ca \<and> call_channel ca'' = call_channel ca
      \<and> (ca_granted ca \<longrightarrow> ca_granted ca'')" if "look (ps_calls s) x = Some ca" for x ca
    using that assms(3) by auto
  have m: "msg_ok px G ?s ms" if "msg_ok px G s ms" for ms
  proof (rule msg_ok_mono [OF that])
    show "produced ?s r" if "produced s r" for r using that by simp
    show "\<exists>ca'. look (ps_calls ?s) x = Some ca' \<and> ca_request ca' = ca_request ca \<and> call_channel ca' = call_channel ca
        \<and> (ca_granted ca \<longrightarrow> ca_granted ca' \<and> G x = G x)" if "look (ps_calls s) x = Some ca" for x ca
      using g [OF that] by simp
  qed
  have t: "task_ok px G ?s tk" if "task_ok px G s tk" for tk
  proof -
    obtain ca rg where c: "look (ps_calls s) (tk_request_id tk) = Some ca" "ca_granted ca"
     "look (ps_regs s) (tk_reg tk) = Some rg" "reg_channel rg = call_channel ca" "rg_server_id rg = G (tk_request_id tk)"
     "tk_raw tk = rq_raw_request (ca_request ca)" "tk_client_id tk = rq_client_id (ca_request ca)"
     "(call_channel ca, grant_msg px (tk_request_id tk) (G (tk_request_id tk))) \<notin> set (queue (ps_bus s) (tk_reg tk))"
      using \<open>task_ok px G s tk\<close> unfolding task_ok_def by blast
    obtain ca'' where "look (ps_calls ?s) (tk_request_id tk) = Some ca''" "ca_request ca'' = ca_request ca" "call_channel ca'' = call_channel ca"
      "ca_granted ca''" using g [OF c(1)] c(2) by blast
    with c show ?thesis unfolding task_ok_def by (intro exI [of _ ca''] exI [of _ rg]) simp
  qed
  have r: "reg_ok ?s i rg" if ok: "reg_ok s i rg" for i rg
    unfolding reg_ok_def
  proof (intro conjI allI impI)
    show "look (mb_queues (ps_bus ?s)) i \<noteq> None" "keys_distinct (rg_pending rg)" "distinct (filter (\<lambda>m. fst m = reg_channel rg) (queue (ps_bus ?s) i))"
      using that by (simp_all add: reg_ok_def)
    fix x c raw ex
    assume "look (rg_pending rg) x = Some (c, raw, ex)"
    then obtain ca where "look (ps_calls s) x = Some ca" "c = rq_client_id (ca_request ca)" "raw = rq_raw_request (ca_request ca)"
      using ok unfolding reg_ok_def by blast
    with g [OF this(1)] show "\<exists>ca. look (ps_calls ?s) x = Some ca \<and> c = rq_client_id (ca_request ca) \<and> raw = rq_raw_request (ca_request ca)"
      by metis
  qed
  show ?thesis
    unfolding psrpc_inv_def
  proof (intro conjI)
    have "calls_ok s" using assms(1) by (simp add: psrpc_inv_def)
    then show "calls_ok ?s" unfolding calls_ok_def using assms(2,4) by (simp split: if_split)
    show "clients_ok ?s" using assms(1) by (simp add: psrpc_inv_def clients_ok_def)
    show "bus_ok px G ?s" using inv_subs [OF assms(1)] inv_msgD [OF assms(1)] m by (simp add: bus_ok_def)
    show "regs_ok ?s" unfolding regs_ok_def using inv_regD [OF assms(1)] inv_reg_unique [OF assms(1)] r by simp
    show "tasks_ok px G ?s" using assms(1) t by (simp add: psrpc_inv_def tasks_ok_def)
  qed
qed

definition pending_ok :: "'p psrpc_sys \<Rightarrow> rpc_client \<Rightarrow> bool" where
  "pending_ok s cl \<longleftrightarrow> (\<forall>rid p. look (cl_pending cl) rid = Some p \<longrightarrow>
     (\<forall>c \<in> set (pe_claims p). cq_request_id c = rid) \<and> (\<forall>r \<in> set (pe_resps p). rs_request_id r = rid \<and> produced s r))"

lemma inv_pending: "psrpc_inv px G s \<Longrightarrow> look (ps_clients s) i = Some cl \<Longrightarrow> pending_ok s cl"
  by (simp add: psrpc_inv_def clients_ok_def pending_ok_def)

lemma pending_put:
  assumes "pending_ok s cl" "\<forall>c \<in> set (pe_claims p). cq_request_id c = rid" "\<forall>r \<in> set (pe_resps p). rs_request_id r = rid \<and> produced s r"
    and "cl_pending cl' = put rid p (cl_pending cl)"
  shows "pending_ok s cl'"
  unfolding pending_ok_def
proof (intro allI impI)
  fix x q
  assume "look (cl_pending cl') x = Some q"
  then have "x = rid \<and> q = p \<or> look (cl_pending cl) x = Some q" using assms(4) by (auto split: if_splits)
  then show "(\<forall>c \<in> set (pe_claims q). cq_request_id c = x) \<and> (\<forall>r \<in> set (pe_resps q). rs_request_id r = x \<and> produced s r)"
    using assms(1-3) unfolding pending_ok_def by blast
qed

lemma pending_del:
  assumes "pending_ok s cl" "cl_pending cl' = del rid (cl_pending cl)"
  shows "pending_ok s cl'"
  unfolding pending_ok_def
proof (intro allI impI)
  fix x q
  assume "look (cl_pending cl') x = Some q"
  then have "look (cl_pending cl) x = Some q" using assms(2) by (auto split: if_splits)
  then show "(\<forall>c \<in> set (pe_claims q). cq_request_id c = x) \<and> (\<forall>r \<in> set (pe_resps q). rs_request_id r = x \<and> produced s r)"
    using assms(1) unfolding pending_ok_def by blast
qed

lemma pending_calls [simp]: "pending_ok (s\<lparr> ps_calls := x \<rparr>) cl = pending_ok s cl"
  by (simp add: pending_ok_def)

lemma put_client_inv:
  assumes "psrpc_inv px G s" "pending_ok s cl"
  shows "psrpc_inv px G (s\<lparr> ps_clients := put i cl (ps_clients s) \<rparr>)" (is "psrpc_inv px G ?s")
  unfolding psrpc_inv_def
proof (intro conjI)
  show "calls_ok ?s" "bus_ok px G ?s" "tasks_ok px G ?s" using assms(1) by (simp_all add: psrpc_inv_def calls_ok_def bus_ok_def tasks_ok_def)
  have "clients_ok s" using assms(1) by (simp add: psrpc_inv_def)
  then show "clients_ok ?s" using assms(2) unfolding clients_ok_def pending_ok_def by (simp split: if_split)
  show "regs_ok ?s" using assms(1) by (simp add: psrpc_inv_def regs_ok_def reg_ok_def)
qed

lemma put_reg_inv:
  assumes "psrpc_inv px G s" "reg_ok s i rg"
    and "\<And>rg'. look (ps_regs s) i = Some rg' \<Longrightarrow> reg_channel rg = reg_channel rg' \<and> rg_server_id rg = rg_server_id rg'"
    and "\<And>j rg'. look (ps_regs s) j = Some rg' \<Longrightarrow> rg_server_id rg' = rg_server_id rg \<Longrightarrow> reg_channel rg' = reg_channel rg \<Longrightarrow> j = i"
  shows "psrpc_inv px G (s\<lparr> ps_regs := put i rg (ps_regs s) \<rparr>)" (is "psrpc_inv px G ?s")
  unfolding psrpc_inv_def
proof (intro conjI)
  show "calls_ok ?s" "bus_ok px G ?s" "clients_ok ?s" using assms(1) by (simp_all add: psrpc_inv_def calls_ok_def bus_ok_def clients_ok_def)
  have "reg_ok ?s j rg' = reg_ok s j rg'" for j rg' by (simp add: reg_ok_def)
  then show "regs_ok ?s"
    unfolding regs_ok_def using inv_regD [OF assms(1)] inv_reg_unique [OF assms(1)] assms(2) assms(4) by (auto split: if_splits)
  have "task_ok px G ?s tk" if "task_ok px G s tk" for tk
    using that assms(3) unfolding task_ok_def by (fastforce split: if_splits)
  then show "tasks_ok px G ?s" using assms(1) by (simp add: psrpc_inv_def tasks_ok_def)
qed

lemma regrant_inv:
  assumes "psrpc_inv px G s" "look (ps_calls s) rid = Some ca" "\<not> ca_granted ca"
  shows "psrpc_inv px (G(rid := sid)) s"
  unfolding psrpc_inv_def
proof (intro conjI)
  show "calls_ok s" "clients_ok s" "regs_ok s" using assms(1) by (simp_all add: psrpc_inv_def)
  have "msg_ok px (G(rid := sid)) s m" if "msg_ok px G s m" for m
    by (rule msg_ok_mono [OF that]) (use assms(2,3) in auto)
  then show "bus_ok px (G(rid := sid)) s" using assms(1) by (simp add: psrpc_inv_def bus_ok_def)
  have "task_ok px (G(rid := sid)) s tk" if "task_ok px G s tk" for tk
  proof -
    have "tk_request_id tk \<noteq> rid" using that assms(2,3) by (auto simp: task_ok_def)
    then show ?thesis using that by (simp add: task_ok_def)
  qed
  then show "tasks_ok px (G(rid := sid)) s" using assms(1) by (simp add: psrpc_inv_def tasks_ok_def)
qed

lemma add_task_inv:
  assumes "psrpc_inv px G s" "task_ok px G s tk" "tk_request_id tk \<notin> set (map tk_request_id (all_tasks s))"
  shows "psrpc_inv px G (s\<lparr> ps_tasks := ps_tasks s @ [tk] \<rparr>)" (is "psrpc_inv px G ?s")
  unfolding psrpc_inv_def
proof (intro conjI)
  show "calls_ok ?s" "bus_ok px G ?s" "clients_ok ?s" "regs_ok ?s"
    using assms(1) by (simp_all add: psrpc_inv_def calls_ok_def bus_ok_def clients_ok_def regs_ok_def reg_ok_def)
  show "tasks_ok px G ?s" using assms by (auto simp: psrpc_inv_def tasks_ok_def all_tasks_def)
qed

lemma finish_task_inv:
  assumes "psrpc_inv px G s" "ps_tasks s = xs @ tk # ys" "hd_task h = tk"
  shows "psrpc_inv px G (s\<lparr> ps_tasks := xs @ ys, ps_handled := ps_handled s @ [h] \<rparr>)" (is "psrpc_inv px G ?s")
  unfolding psrpc_inv_def
proof (intro conjI)
  have pr: "produced s r \<Longrightarrow> produced ?s r" for r by (auto simp: produced_def)
  have "calls_ok s" "clients_ok s" using assms(1) by (simp_all add: psrpc_inv_def)
  then show "calls_ok ?s" "clients_ok ?s" unfolding calls_ok_def clients_ok_def using pr by (auto; blast)+
  have "msg_ok px G ?s m" if "msg_ok px G s m" for m by (rule msg_ok_mono [OF that pr]) auto
  then show "bus_ok px G ?s" using assms(1) by (simp add: psrpc_inv_def bus_ok_def)
  show "regs_ok ?s" using assms(1) by (simp add: psrpc_inv_def regs_ok_def reg_ok_def)
  have "set (all_tasks ?s) = set (all_tasks s)" "distinct (map tk_request_id (all_tasks s)) \<Longrightarrow> distinct (map tk_request_id (all_tasks ?s))"
    using assms(2,3) by (auto simp: all_tasks_def)
  moreover have "task_ok px G ?s t = task_ok px G s t" for t by (simp add: task_ok_def)
  ultimately show "tasks_ok px G ?s" using assms(1) by (simp add: psrpc_inv_def tasks_ok_def)
qed

section \<open>Every step keeps the invariant\<close>

lemma envelope_dec [simp]: "codecs_ok px \<Longrightarrow> cd_msg_dec px (envelope px t v) = Some (''type.googleapis.com/'' @ t, v)"
  by (simp add: codecs_ok_def envelope_def)

lemma message_types [simp]:
  "ends_with ''internal.ClaimRequest'' (''type.googleapis.com/'' @ ''internal.ClaimRequest'')"
  "\<not> ends_with ''internal.ClaimRequest'' (''type.googleapis.com/'' @ ''internal.Request'')"
  "\<not> ends_with ''internal.ClaimRequest'' (''type.googleapis.com/'' @ ''internal.ClaimResponse'')"
  "\<not> ends_with ''internal.ClaimRequest'' (''type.googleapis.com/'' @ ''internal.Response'')"
  "ends_with ''internal.Response'' (''type.googleapis.com/'' @ ''internal.Response'')"
  "\<not> ends_with ''internal.Response'' (''type.googleapis.com/'' @ ''internal.Request'')"
  "\<not> ends_with ''internal.Response'' (''type.googleapis.com/'' @ ''internal.ClaimResponse'')"
  by (simp_all add: ends_with_def strip_suffix_def)

lemma dispatch_pending:
  assumes "codecs_ok px" "msg_ok px G s (ch, m)" "pending_ok s cl"
  shows "pending_ok s (client_dispatch px m cl)"
proof -
  consider (same) "client_dispatch px m cl = cl"
    | (claim) c where "client_dispatch px m cl = cl\<lparr> cl_pending := adjust (cq_request_id c) (\<lambda>p. p\<lparr> pe_claims := pe_claims p @ [c] \<rparr>) (cl_pending cl) \<rparr>"
    | (resp) r where "produced s r"
        "client_dispatch px m cl = cl\<lparr> cl_pending := adjust (rs_request_id r) (\<lambda>p. p\<lparr> pe_resps := pe_resps p @ [r] \<rparr>) (cl_pending cl) \<rparr>"
  proof -
    have k: "last_part ch \<in> {''REQ'', ''RCLAIM'', ''CLAIM'', ''RES''}" using assms(2) by (simp add: msg_ok_def)
    then show ?thesis
    proof (elim insertE)
      assume "last_part ch = ''REQ''"
      then obtain v where "m = envelope px ''internal.Request'' v" using assms(2) by (auto simp: msg_ok_def)
      then show ?thesis using assms(1) same by (simp add: client_dispatch_def del: append_Cons append_Nil)
    next
      assume "last_part ch = ''RCLAIM''"
      then obtain v where "m = envelope px ''internal.ClaimResponse'' v" using assms(2) by (auto simp: msg_ok_def grant_msg_def)
      then show ?thesis using assms(1) same by (simp add: client_dispatch_def del: append_Cons append_Nil)
    next
      assume "last_part ch = ''CLAIM''"
      then obtain c where "m = envelope px ''internal.ClaimRequest'' (cd_claim px c)" using assms(2) by (auto simp: msg_ok_def)
      then have "client_dispatch px m cl = cl\<lparr> cl_pending := adjust (cq_request_id c) (\<lambda>p. p\<lparr> pe_claims := pe_claims p @ [c] \<rparr>) (cl_pending cl) \<rparr>"
        using assms(1) by (simp add: client_dispatch_def codecs_ok_def del: append_Cons append_Nil)
      then show ?thesis by (rule claim)
    next
      assume "last_part ch = ''RES''"
      then obtain r where "produced s r" "m = envelope px ''internal.Response'' (cd_response px r)" using assms(2) by (auto simp: msg_ok_def)
      from this(2) have "client_dispatch px m cl = cl\<lparr> cl_pending := adjust (rs_request_id r) (\<lambda>p. p\<lparr> pe_resps := pe_resps p @ [r] \<rparr>) (cl_pending cl) \<rparr>"
        using assms(1) by (simp add: client_dispatch_def codecs_ok_def del: append_Cons append_Nil)
      with \<open>produced s r\<close> show ?thesis by (rule resp)
    qed simp
  qed
  then show ?thesis
  proof cases
    case same
    then show ?thesis using assms(3) by simp
  next
    case claim
    then show ?thesis using assms(3) unfolding pending_ok_def by (auto split: if_splits)
  next
    case resp
    then show ?thesis using assms(3) unfolding pending_ok_def by (auto split: if_splits)
  qed
qed

lemma request_inv:
  assumes "psrpc_inv px G s" "look (ps_clients s) i = Some cl" "look (ps_calls s) rid = None"
    and "request_start px cl rid now timeout meth topic payload (ps_bus s) = (cl', ca, b)"
  shows "psrpc_inv px G (s\<lparr> ps_calls := put rid ca (ps_calls s), ps_clients := put i cl' (ps_clients s), ps_bus := b \<rparr>)"
proof -
  let ?s1 = "s\<lparr> ps_calls := put rid ca (ps_calls s) \<rparr>"
  let ?s2 = "?s1\<lparr> ps_clients := put i cl' (ps_clients s) \<rparr>"
  have r: "rq_request_id (ca_request ca) = rid" "ca_result ca = None" "cl_pending cl' = put rid \<lparr> pe_claims = [], pe_resps = [] \<rparr> (cl_pending cl)"
      "b = bus_publish (rpc_channel (cl_service cl) meth topic) (envelope px ''internal.Request'' (cd_request px (ca_request ca))) (ps_bus s)"
    using assms(4) by (auto simp: request_start_def Let_def)
  have 1: "psrpc_inv px G ?s1" by (rule put_call_inv [OF assms(1)]) (use r assms(3) in auto)
  have "pending_ok s cl'" by (rule pending_put [OF inv_pending [OF assms(1,2)] _ _ r(3)]) simp_all
  then have "pending_ok ?s1 cl'" by simp
  from put_client_inv [OF 1 this, of i] have 2: "psrpc_inv px G ?s2" by simp
  have "msg_ok px G ?s2 (rpc_channel (cl_service cl) meth topic, envelope px ''internal.Request'' (cd_request px (ca_request ca)))"
    by (auto simp: msg_ok_def intro!: exI [of _ rid])
  from publish_inv [OF 2 this] show ?thesis by (simp add: r(4))
qed

lemma inv_resultD:
  "psrpc_inv px G s \<Longrightarrow> look (ps_calls s) rid = Some ca \<Longrightarrow> ca_result ca = Some r \<Longrightarrow>
   r = Inl PsTimeout \<or> (\<exists>resp. produced s resp \<and> rs_request_id resp = rid \<and> r = response_payload resp)"
  by (simp add: psrpc_inv_def calls_ok_def)

lemma grant_msg_inj:
  assumes "codecs_ok px" "grant_msg px x y = grant_msg px x' y'"
  shows "x = x' \<and> y = y'"
proof -
  have "cd_msg_dec px (grant_msg px x y) = cd_msg_dec px (grant_msg px x' y')" using assms(2) by simp
  then have "cd_grant px \<lparr> cr_request_id = x, cr_server_id = y \<rparr> = cd_grant px \<lparr> cr_request_id = x', cr_server_id = y' \<rparr>"
    using assms(1) by (simp add: grant_msg_def)
  then have "cd_grant_dec px (cd_grant px \<lparr> cr_request_id = x, cr_server_id = y \<rparr>) = cd_grant_dec px (cd_grant px \<lparr> cr_request_id = x', cr_server_id = y' \<rparr>)"
    by simp
  then show ?thesis using assms(1) by (simp add: codecs_ok_def)
qed

lemma request_select_cases:
  assumes "request_select px cl ca b = Some (cl', ca', b')" "rq_request_id (ca_request ca) = rid" "look (cl_pending cl) rid = Some p"
  shows "(\<exists>r \<in> set (pe_resps p). cl' = cl\<lparr> cl_pending := del rid (cl_pending cl) \<rparr> \<and> ca' = ca\<lparr> ca_result := Some (response_payload r) \<rparr> \<and> b' = b)
    \<or> (\<exists>c cs. pe_claims p = c # cs \<and> cl' = cl\<lparr> cl_pending := put rid (p\<lparr> pe_claims := cs \<rparr>) (cl_pending cl) \<rparr> \<and> ca' = ca \<and> b' = b)
    \<or> (\<exists>c cs. pe_claims p = c # cs \<and> cl' = cl\<lparr> cl_pending := put rid (p\<lparr> pe_claims := cs \<rparr>) (cl_pending cl) \<rparr> \<and> \<not> ca_granted ca
         \<and> ca' = ca\<lparr> ca_granted := True \<rparr> \<and> b' = bus_publish (call_channel ca) (grant_msg px (cq_request_id c) (cq_server_id c)) b)"
proof (cases "pe_resps p")
  case (Cons r rs)
  then show ?thesis using assms by (simp add: request_select_def)
next
  case Nil
  then obtain c cs where c: "pe_claims p = c # cs" using assms by (auto simp: request_select_def split: list.splits)
  show ?thesis
  proof (cases "ca_granted ca")
    case True
    then show ?thesis using assms Nil c by (simp add: request_select_def)
  next
    case False
    then show ?thesis using assms Nil c by (simp add: request_select_def call_channel_def grant_msg_def)
  qed
qed

lemma select_inv:
  assumes "codecs_ok px" "psrpc_inv px G s" "look (ps_clients s) i = Some cl" "look (ps_calls s) rid = Some ca"
    and "request_select px cl ca (ps_bus s) = Some (cl', ca', b)"
  shows "\<exists>G'. psrpc_inv px G' (s\<lparr> ps_calls := put rid ca' (ps_calls s), ps_clients := put i cl' (ps_clients s), ps_bus := b \<rparr>)"
proof -
  have rid: "rq_request_id (ca_request ca) = rid" by (rule inv_callD [OF assms(2,4)])
  note pend = inv_pending [OF assms(2,3)]
  obtain p where p: "look (cl_pending cl) rid = Some p" using assms(5) rid by (auto simp: request_select_def Let_def split: option.splits)
  have pok: "\<forall>c \<in> set (pe_claims p). cq_request_id c = rid" "\<forall>r \<in> set (pe_resps p). rs_request_id r = rid \<and> produced s r"
    using pend p by (simp_all add: pending_ok_def)
  let ?s1 = "s\<lparr> ps_calls := put rid ca' (ps_calls s) \<rparr>"
  consider (resp) r where "r \<in> set (pe_resps p)" "cl' = cl\<lparr> cl_pending := del rid (cl_pending cl) \<rparr>"
      "ca' = ca\<lparr> ca_result := Some (response_payload r) \<rparr>" "b = ps_bus s"
    | (old) c cs where "pe_claims p = c # cs" "cl' = cl\<lparr> cl_pending := put rid (p\<lparr> pe_claims := cs \<rparr>) (cl_pending cl) \<rparr>" "ca' = ca" "b = ps_bus s"
    | (grant) c cs where "pe_claims p = c # cs" "cl' = cl\<lparr> cl_pending := put rid (p\<lparr> pe_claims := cs \<rparr>) (cl_pending cl) \<rparr>" "\<not> ca_granted ca"
      "ca' = ca\<lparr> ca_granted := True \<rparr>" "b = bus_publish (call_channel ca) (grant_msg px (cq_request_id c) (cq_server_id c)) (ps_bus s)"
    using request_select_cases [OF assms(5) rid p] by blast
  then show ?thesis
  proof cases
    case resp
    have 1: "psrpc_inv px G ?s1"
    proof (rule put_call_inv [OF assms(2)])
      show "rq_request_id (ca_request ca') = rid" using resp(3) rid by simp
      show "ca_request ca' = ca_request ca0 \<and> call_channel ca' = call_channel ca0 \<and> (ca_granted ca0 \<longrightarrow> ca_granted ca')"
        if "look (ps_calls s) rid = Some ca0" for ca0 using that resp(3) assms(4) by (simp add: call_channel_def)
      show "q = Inl PsTimeout \<or> (\<exists>resp. produced s resp \<and> rs_request_id resp = rid \<and> q = response_payload resp)" if "ca_result ca' = Some q" for q
        using that resp(1,3) pok(2) by auto
    qed
    have "pending_ok s cl'" by (rule pending_del [OF pend]) (simp add: resp(2))
    then have "pending_ok ?s1 cl'" by simp
    from put_client_inv [OF 1 this, of i] show ?thesis using resp(4) by (intro exI [of _ G]) simp
  next
    case old
    have 1: "psrpc_inv px G ?s1"
      by (rule put_call_inv [OF assms(2)]) (use old(3) rid assms(4) inv_resultD [OF assms(2,4)] in simp_all)
    have "pending_ok s cl'" by (rule pending_put [OF pend, of "p\<lparr> pe_claims := cs \<rparr>" rid]) (use old(1,2) pok in simp_all)
    then have "pending_ok ?s1 cl'" by simp
    from put_client_inv [OF 1 this, of i] show ?thesis using old(4) by (intro exI [of _ G]) simp
  next
    case grant
    let ?G = "G(rid := cq_server_id c)"
    let ?s2 = "?s1\<lparr> ps_clients := put i cl' (ps_clients s) \<rparr>"
    note 0 = regrant_inv [OF assms(2,4) grant(3), of "cq_server_id c"]
    have 1: "psrpc_inv px ?G ?s1"
      by (rule put_call_inv [OF 0]) (use grant(4) rid assms(4) inv_resultD [OF assms(2,4)] in \<open>simp_all add: call_channel_def\<close>)
    have "pending_ok s cl'" by (rule pending_put [OF pend, of "p\<lparr> pe_claims := cs \<rparr>" rid]) (use grant(1,2) pok in simp_all)
    then have "pending_ok ?s1 cl'" by simp
    from put_client_inv [OF 1 this, of i] have 2: "psrpc_inv px ?G ?s2" by simp
    have ch: "call_channel ca' = call_channel ca" using grant(4) by (simp add: call_channel_def)
    have m: "msg_ok px ?G ?s2 (call_channel ca, grant_msg px rid (?G rid))"
      using ch grant(4) by (auto simp: msg_ok_def intro!: exI [of _ rid])
    note inj = conjunct1 [OF grant_msg_inj [OF assms(1)]]
    have cid: "cq_request_id c = rid" using grant(1) pok(1) by simp
    have ng: "(call_channel ca, grant_msg px rid (?G rid)) \<notin> set (queue (ps_bus s) j)" for j
    proof
      assume "(call_channel ca, grant_msg px rid (?G rid)) \<in> set (queue (ps_bus s) j)"
      from inv_msgD [OF assms(2) this] obtain x ca0 where "look (ps_calls s) x = Some ca0" "ca_granted ca0"
          "grant_msg px rid (?G rid) = grant_msg px x (G x)" by (auto simp: msg_ok_def)
      then show False using inj [of rid "?G rid" x "G x"] assms(4) grant(3) by simp
    qed
    have nt: "grant_msg px rid (?G rid) \<noteq> grant_msg px (tk_request_id tk) (?G (tk_request_id tk))" if "tk \<in> set (all_tasks s)" for tk
    proof
      assume "grant_msg px rid (?G rid) = grant_msg px (tk_request_id tk) (?G (tk_request_id tk))"
      from inj [OF this] inv_taskD [OF assms(2) that] show False using assms(4) grant(3) by (auto simp: task_ok_def)
    qed
    have "psrpc_inv px ?G (?s2\<lparr> ps_bus := bus_publish (call_channel ca) (grant_msg px rid (?G rid)) (ps_bus ?s2) \<rparr>)"
      by (rule publish_inv [OF 2 m]) (use ng nt in \<open>simp_all add: all_tasks_def\<close>)
    then show ?thesis using grant(5) cid by (intro exI [of _ ?G]) simp
  qed
qed

lemma look_filter_keys: "keys_distinct m \<Longrightarrow> look (filter P m) k = Some v \<Longrightarrow> look m k = Some v"
  using look_SomeD [of "filter P m" k v] by (simp add: look_Some_iff)

lemma keys_distinct_filter: "keys_distinct m \<Longrightarrow> keys_distinct (filter P m)"
  by (simp add: keys_distinct_def distinct_map_filter)

lemma registration_message_cases:
  assumes "registration_message px i now msg rg b = (rg', ts, b')"
  shows "(rg' = rg \<and> ts = [] \<and> b' = b)
    \<or> (\<exists>u v req. fst msg = rpc_channel (rg_service rg) (rg_method rg) (rg_topic rg) \<and> cd_msg_dec px (snd msg) = Some (u, v)
         \<and> cd_request_dec px v = Some req \<and> ts = []
         \<and> rg' = rg\<lparr> rg_pending := put (rq_request_id req) (rq_client_id req, rq_raw_request req, rq_expiry req)
                                (filter (\<lambda>(_, _, _, ex). now < ex) (rg_pending rg)) \<rparr>
         \<and> b' = bus_publish (claim_request_channel (rg_service rg) (rq_client_id req)) (envelope px ''internal.ClaimRequest''
                  (cd_claim px \<lparr> cq_request_id = rq_request_id req, cq_server_id = rg_server_id rg \<rparr>)) b)
    \<or> (\<exists>u v g c raw ex. fst msg = reg_channel rg \<and> cd_msg_dec px (snd msg) = Some (u, v) \<and> cd_grant_dec px v = Some g
         \<and> cr_server_id g = rg_server_id rg \<and> look (rg_pending rg) (cr_request_id g) = Some (c, raw, ex)
         \<and> rg' = rg\<lparr> rg_pending := del (cr_request_id g) (rg_pending rg) \<rparr> \<and> b' = b
         \<and> ts = [\<lparr> tk_reg = i, tk_request_id = cr_request_id g, tk_client_id = c, tk_raw = raw \<rparr>])"
proof (cases "cd_msg_dec px (snd msg)")
  case None
  then show ?thesis using assms by (simp add: registration_message_def)
next
  case (Some uv)
  obtain u v where uv: "uv = (u, v)" by force
  show ?thesis
  proof (cases "fst msg = rpc_channel (rg_service rg) (rg_method rg) (rg_topic rg)")
    case True
    then show ?thesis using assms Some uv by (cases "cd_request_dec px v") (auto simp: registration_message_def split: if_splits)
  next
    case nr: False
    show ?thesis
    proof (cases "fst msg = reg_channel rg")
      case True
      then show ?thesis using assms Some uv nr
        by (cases "cd_grant_dec px v") (auto simp: registration_message_def reg_channel_def split: if_splits option.splits)
    next
      case False
      then show ?thesis using assms Some uv nr by (simp add: registration_message_def reg_channel_def)
    qed
  qed
qed

lemma message_put:
  assumes "psrpc_inv px G s" "look (ps_regs s) i = Some rg" "reg_channel rg' = reg_channel rg" "rg_server_id rg' = rg_server_id rg"
    and "keys_distinct (rg_pending rg')"
    and "\<And>rid c raw ex. look (rg_pending rg') rid = Some (c, raw, ex) \<Longrightarrow>
          \<exists>ca. look (ps_calls s) rid = Some ca \<and> c = rq_client_id (ca_request ca) \<and> raw = rq_raw_request (ca_request ca)"
  shows "psrpc_inv px G (s\<lparr> ps_regs := put i rg' (ps_regs s) \<rparr>)"
proof (rule put_reg_inv [OF assms(1)])
  show "reg_ok s i rg'" using inv_regD [OF assms(1,2)] assms(3-6) by (simp add: reg_ok_def)
  show "reg_channel rg' = reg_channel r \<and> rg_server_id rg' = rg_server_id r" if "look (ps_regs s) i = Some r" for r
    using that assms(2-4) by simp
  show "j = i" if "look (ps_regs s) j = Some r" "rg_server_id r = rg_server_id rg'" "reg_channel r = reg_channel rg'" for j r
    by (rule inv_reg_unique [OF assms(1) that(1) assms(2)]) (use that assms(3,4) in simp_all)
qed

lemma pendingD:
  "psrpc_inv px G s \<Longrightarrow> look (ps_regs s) i = Some rg \<Longrightarrow> look (rg_pending rg) rid = Some (c, raw, ex) \<Longrightarrow>
   \<exists>ca. look (ps_calls s) rid = Some ca \<and> c = rq_client_id (ca_request ca) \<and> raw = rq_raw_request (ca_request ca)"
  by (drule (1) inv_regD) (simp add: reg_ok_def)

lemma regs_bus_swap: "s\<lparr> ps_regs := r, ps_bus := b \<rparr> = s\<lparr> ps_bus := b, ps_regs := r \<rparr>"
  by simp

lemma message_inv:
  assumes "codecs_ok px" "psrpc_inv px G s" "look (ps_regs s) i = Some rg" "bus_pop i (ps_bus s) = Some (msg, b)"
    and "registration_message px i now msg rg b = (rg', ts, b')"
  shows "psrpc_inv px G (s\<lparr> ps_bus := b', ps_regs := put i rg' (ps_regs s), ps_tasks := ps_tasks s @ ts \<rparr>)"
proof -
  let ?s0 = "s\<lparr> ps_bus := b \<rparr>"
  note 0 = pop_inv [OF assms(2,4)]
  have rg0: "look (ps_regs ?s0) i = Some rg" using assms(3) by simp
  note m = pop_msg [OF assms(2,4)]
  note pend = pendingD [OF 0 rg0]
  have kd: "keys_distinct (rg_pending rg)" using inv_regD [OF assms(2,3)] by (simp add: reg_ok_def)
  from registration_message_cases [OF assms(5)] show ?thesis
  proof (elim disjE exE conjE)
    assume e: "rg' = rg" "ts = []" "b' = b"
    have "psrpc_inv px G (?s0\<lparr> ps_regs := put i rg (ps_regs ?s0) \<rparr>)" by (rule message_put [OF 0 rg0 _ _ kd pend]) simp_all
    then show ?thesis using e by simp
  next
    fix u v req
    assume e: "fst msg = rpc_channel (rg_service rg) (rg_method rg) (rg_topic rg)" "cd_msg_dec px (snd msg) = Some (u, v)"
      "cd_request_dec px v = Some req" "ts = []"
      "rg' = rg\<lparr> rg_pending := put (rq_request_id req) (rq_client_id req, rq_raw_request req, rq_expiry req)
                 (filter (\<lambda>(_, _, _, ex). now < ex) (rg_pending rg)) \<rparr>"
      "b' = bus_publish (claim_request_channel (rg_service rg) (rq_client_id req)) (envelope px ''internal.ClaimRequest''
              (cd_claim px \<lparr> cq_request_id = rq_request_id req, cq_server_id = rg_server_id rg \<rparr>)) b"
    obtain x ca where ca: "look (ps_calls s) x = Some ca" "snd msg = envelope px ''internal.Request'' (cd_request px (ca_request ca))"
      using m(1) e(1) by (auto simp: msg_ok_def)
    have req: "req = ca_request ca" "rq_request_id req = x"
      using e(2,3) ca assms(1) inv_callD [OF assms(2) ca(1)] by (auto simp: codecs_ok_def)
    let ?s1 = "?s0\<lparr> ps_regs := put i rg' (ps_regs ?s0) \<rparr>"
    have 1: "psrpc_inv px G ?s1"
    proof (rule message_put [OF 0 rg0])
      show "reg_channel rg' = reg_channel rg" "rg_server_id rg' = rg_server_id rg" "keys_distinct (rg_pending rg')"
        using kd e(5) by (simp_all add: reg_channel_def keys_distinct_filter)
      show "\<exists>ca. look (ps_calls ?s0) rid = Some ca \<and> c = rq_client_id (ca_request ca) \<and> raw = rq_raw_request (ca_request ca)"
        if "look (rg_pending rg') rid = Some (c, raw, ex)" for rid c raw ex
      proof (cases "rid = x")
        case True
        then show ?thesis using that e(5) req ca(1) by simp
      next
        case False
        then have "look (filter (\<lambda>(_, _, _, ex). now < ex) (rg_pending rg)) rid = Some (c, raw, ex)" using that e(5) req by simp
        from pend [OF look_filter_keys [OF kd this]] show ?thesis by simp
      qed
    qed
    have "psrpc_inv px G (?s1\<lparr> ps_bus := bus_publish (claim_request_channel (rg_service rg) (rq_client_id req)) (envelope px ''internal.ClaimRequest''
            (cd_claim px \<lparr> cq_request_id = rq_request_id req, cq_server_id = rg_server_id rg \<rparr>)) (ps_bus ?s1) \<rparr>)"
      by (rule publish_inv [OF 1]) (auto simp: msg_ok_def)
    then show ?thesis using e(4,6) by (simp add: regs_bus_swap)
  next
    fix u v g c raw ex
    assume e: "fst msg = reg_channel rg" "cd_msg_dec px (snd msg) = Some (u, v)" "cd_grant_dec px v = Some g"
      "cr_server_id g = rg_server_id rg" "look (rg_pending rg) (cr_request_id g) = Some (c, raw, ex)"
      "rg' = rg\<lparr> rg_pending := del (cr_request_id g) (rg_pending rg) \<rparr>" "b' = b"
      "ts = [\<lparr> tk_reg = i, tk_request_id = cr_request_id g, tk_client_id = c, tk_raw = raw \<rparr>]"
    obtain x ca where ca: "look (ps_calls s) x = Some ca" "ca_granted ca" "fst msg = call_channel ca" "snd msg = grant_msg px x (G x)"
      using m(1) e(1) by (auto simp: msg_ok_def)
    have msg: "msg = (call_channel ca, grant_msg px x (G x))" using ca(3,4) by (simp add: prod_eq_iff)
    have g: "cr_request_id g = x" "rg_server_id rg = G x"
      using e(2-4) ca(4) assms(1) by (auto simp: grant_msg_def codecs_ok_def)
    let ?s1 = "?s0\<lparr> ps_regs := put i rg' (ps_regs ?s0) \<rparr>"
    let ?tk = "\<lparr> tk_reg = i, tk_request_id = x, tk_client_id = c, tk_raw = raw \<rparr>"
    have same: "reg_channel rg' = reg_channel rg" "rg_server_id rg' = rg_server_id rg" using e(6) by (simp_all add: reg_channel_def)
    have 1: "psrpc_inv px G ?s1"
      by (rule message_put [OF 0 rg0 same]) (use kd e(6) pend in \<open>auto split: if_splits\<close>)
    have "c = rq_client_id (ca_request ca)" "raw = rq_raw_request (ca_request ca)" using pend [OF e(5)] g(1) ca(1) by auto
    then have t: "task_ok px G ?s1 ?tk"
      unfolding task_ok_def using ca same g(2) e(1) m(2) [OF assms(3) e(1)]
      by (intro exI [of _ ca] exI [of _ rg']) (simp add: msg)
    have n: "x \<notin> set (map tk_request_id (all_tasks ?s1))"
    proof
      assume "x \<in> set (map tk_request_id (all_tasks ?s1))"
      then obtain tk where tk: "tk \<in> set (all_tasks s)" "tk_request_id tk = x" by auto
      then obtain rg2 where "look (ps_regs s) (tk_reg tk) = Some rg2" "reg_channel rg2 = call_channel ca" "rg_server_id rg2 = G x"
        using inv_taskD [OF assms(2) tk(1)] ca(1) by (auto simp: task_ok_def)
      then have "tk_reg tk = i" using inv_reg_unique [OF assms(2) _ assms(3)] g(2) e(1) ca(3) by simp
      from m(3) [OF tk(1) this] ca(1) tk(2) show False by (simp add: msg)
    qed
    have "psrpc_inv px G (?s1\<lparr> ps_tasks := ps_tasks ?s1 @ [?tk] \<rparr>)" by (rule add_task_inv [OF 1 t]) (use n in simp)
    then show ?thesis using e(7,8) g(1) by simp
  qed
qed

lemma handler_inv:
  assumes "psrpc_inv px G s" "ps_tasks s = xs @ tk # ys" "look (ps_regs s) (tk_reg tk) = Some rg"
  shows "psrpc_inv px G (s\<lparr> ps_tasks := xs @ ys, ps_handled := ps_handled s @ [\<lparr> hd_task = tk, hd_at = now, hd_outcome = outcome \<rparr>],
                       ps_bus := run_handler px rg tk now outcome (ps_bus s) \<rparr>)"
proof -
  let ?h = "\<lparr> hd_task = tk, hd_at = now, hd_outcome = outcome \<rparr>"
  let ?s1 = "s\<lparr> ps_tasks := xs @ ys, ps_handled := ps_handled s @ [?h] \<rparr>"
  have 1: "psrpc_inv px G ?s1" by (rule finish_task_inv [OF assms(1,2)]) simp
  have "produced ?s1 (handler_response rg tk now outcome)" by (auto simp: produced_def intro!: bexI [of _ ?h])
  then have "msg_ok px G ?s1 (response_channel (rg_service rg) (tk_client_id tk),
      envelope px ''internal.Response'' (cd_response px (handler_response rg tk now outcome)))"
    by (auto simp: msg_ok_def)
  from publish_inv [OF 1 this] show ?thesis by (simp add: run_handler_def)
qed

lemma step_inv:
  assumes "codecs_ok px" "psrpc_step px s s'" "psrpc_inv px G s"
  shows "\<exists>G'. psrpc_inv px G' s'"
  using assms(2)
proof cases
  case (new_client i service cid cl b)
  let ?b = "bus_subscribe i [response_channel service cid, claim_request_channel service cid] (ps_bus s)"
  have c: "cl_pending cl = []" "b = ?b" using new_client(3) by (auto simp: client_new_def)
  have "psrpc_inv px G (s\<lparr> ps_bus := ?b \<rparr>)" by (rule subscribe_inv [OF assms(3) new_client(2)]) simp
  moreover have "pending_ok (s\<lparr> ps_bus := ?b \<rparr>) cl" using c(1) by (simp add: pending_ok_def)
  ultimately have "psrpc_inv px G (s\<lparr> ps_bus := ?b, ps_clients := put i cl (ps_clients (s\<lparr> ps_bus := ?b \<rparr>)) \<rparr>)" by (rule put_client_inv)
  then show ?thesis unfolding new_client(1) c(2) by (intro exI [of _ G]) simp
next
  case (registration i sid service meth topic rg b)
  let ?b = "bus_subscribe i [rpc_channel service meth topic, claim_response_channel service meth topic] (ps_bus s)"
  have r: "rg_pending rg = []" "rg_server_id rg = sid" "reg_channel rg = claim_response_channel service meth topic" "b = ?b"
    using registration(4) by (auto simp: register_topic_def reg_channel_def)
  have 1: "psrpc_inv px G (s\<lparr> ps_bus := ?b \<rparr>)" by (rule subscribe_inv [OF assms(3) registration(2)]) simp
  have none: "look (ps_regs s) i = None" using inv_regD [OF assms(3), of i] registration(2) by (cases "look (ps_regs s) i") (auto simp: reg_ok_def)
  have "psrpc_inv px G (s\<lparr> ps_bus := ?b, ps_regs := put i rg (ps_regs (s\<lparr> ps_bus := ?b \<rparr>)) \<rparr>)"
  proof (rule put_reg_inv [OF 1])
    show "reg_ok (s\<lparr> ps_bus := ?b \<rparr>) i rg" using r(1) by (simp add: reg_ok_def)
    show "j = i" if "look (ps_regs (s\<lparr> ps_bus := ?b \<rparr>)) j = Some rg'" "rg_server_id rg' = rg_server_id rg" "reg_channel rg' = reg_channel rg" for j rg'
      using registration(3) that r(2,3) by (auto simp: reg_channel_def)
  qed (use none in simp)
  then show ?thesis unfolding registration(1) r(4) by (intro exI [of _ G]) simp
next
  case (request i cl rid now timeout meth topic payload cl' ca b)
  then show ?thesis using request_inv [OF assms(3) request(2-4)] by blast
next
  case (listener i cl ch payload b)
  have 1: "psrpc_inv px G (s\<lparr> ps_bus := b \<rparr>)" by (rule pop_inv [OF assms(3) listener(3)])
  have "pending_ok s (client_dispatch px payload cl)"
    by (rule dispatch_pending [OF assms(1) pop_msg(1) [OF assms(3) listener(3)] inv_pending [OF assms(3) listener(2)]])
  then have "pending_ok (s\<lparr> ps_bus := b \<rparr>) (client_dispatch px payload cl)" by (simp add: pending_ok_def)
  from put_client_inv [OF 1 this, of i] show ?thesis unfolding listener(1) by (intro exI [of _ G]) simp
next
  case (select i cl rid ca cl' ca' b)
  then show ?thesis using select_inv [OF assms(1,3) select(2,3,6)] by blast
next
  case (deadline rid ca)
  have "psrpc_inv px G (s\<lparr> ps_calls := put rid (request_timeout ca) (ps_calls s) \<rparr>)"
    by (rule put_call_inv [OF assms(3)])
      (use deadline(2) inv_callD [OF assms(3) deadline(2)] in \<open>auto simp: request_timeout_def call_channel_def\<close>)
  then show ?thesis unfolding deadline(1) by blast
next
  case (message i rg msg b now rg' ts b')
  then show ?thesis using message_inv [OF assms(1,3) message(2-4)] by blast
next
  case (handler xs tk ys rg now outcome)
  then show ?thesis using handler_inv [OF assms(3) handler(2,3)] by blast
qed

section \<open>Properties\<close>

lemma reachable_inv:
  assumes "codecs_ok px" "(psrpc_step px)\<^sup>*\<^sup>* psrpc_init s"
  shows "\<exists>G. psrpc_inv px G s"
  using assms(2)
proof (induction rule: rtranclp_induct)
  case base
  show ?case using psrpc_inv_init by blast
next
  case (step s s')
  then show ?case using step_inv [OF assms(1)] by blast
qed

text \<open>C19: in every interleaving of clients, servers and the bus, a request is handled at most
  once, by a server of its channel and with the payload of the call; and a call that
  returns something else than a timeout returns what this run of the handler answered.
  An error with an empty message arrives as an empty answer.\<close>

theorem request_handled_once:
  assumes "codecs_ok px" "(psrpc_step px)\<^sup>*\<^sup>* psrpc_init s"
  shows "distinct (map (tk_request_id \<circ> hd_task) (ps_handled s))
    \<and> (\<forall>h. h \<in> set (ps_handled s) \<longrightarrow> (\<exists>ca rg. look (ps_calls s) (tk_request_id (hd_task h)) = Some ca
         \<and> look (ps_regs s) (tk_reg (hd_task h)) = Some rg
         \<and> claim_response_channel (rg_service rg) (rg_method rg) (rg_topic rg) = claim_response_channel (ca_service ca) (ca_method ca) (ca_topic ca)
         \<and> tk_raw (hd_task h) = rq_raw_request (ca_request ca)))
    \<and> (\<forall>rid ca r. look (ps_calls s) rid = Some ca \<longrightarrow> ca_result ca = Some r \<longrightarrow> r = Inl PsTimeout
         \<or> (\<exists>h. h \<in> set (ps_handled s) \<and> tk_request_id (hd_task h) = rid
            \<and> r = (case hd_outcome h of Inr raw \<Rightarrow> Inr raw | Inl (code, msg) \<Rightarrow> if msg = [] then Inr [] else Inl (PsRpc code msg))))"
proof -
  obtain G where i: "psrpc_inv px G s" using reachable_inv [OF assms] by blast
  have "distinct (map tk_request_id (all_tasks s))" using i by (simp add: psrpc_inv_def tasks_ok_def)
  then have 1: "distinct (map (tk_request_id \<circ> hd_task) (ps_handled s))" by (simp add: all_tasks_def)
  have 2: "\<exists>ca rg. look (ps_calls s) (tk_request_id (hd_task h)) = Some ca \<and> look (ps_regs s) (tk_reg (hd_task h)) = Some rg
       \<and> claim_response_channel (rg_service rg) (rg_method rg) (rg_topic rg) = claim_response_channel (ca_service ca) (ca_method ca) (ca_topic ca)
       \<and> tk_raw (hd_task h) = rq_raw_request (ca_request ca)" if "h \<in> set (ps_handled s)" for h
    using inv_taskD [OF i, of "hd_task h"] that unfolding task_ok_def reg_channel_def call_channel_def by (auto simp: all_tasks_def)
  have 3: "r = Inl PsTimeout \<or> (\<exists>h. h \<in> set (ps_handled s) \<and> tk_request_id (hd_task h) = rid
      \<and> r = (case hd_outcome h of Inr raw \<Rightarrow> Inr raw | Inl (code, msg) \<Rightarrow> if msg = [] then Inr [] else Inl (PsRpc code msg)))"
    if "look (ps_calls s) rid = Some ca" "ca_result ca = Some r" for rid ca r
  proof (rule disjE [OF inv_resultD [OF i that]])
    assume "\<exists>resp. produced s resp \<and> rs_request_id resp = rid \<and> r = response_payload resp"
    then obtain h rg where h: "h \<in> set (ps_handled s)" "rs_request_id (handler_response rg (hd_task h) (hd_at h) (hd_outcome h)) = rid"
        "r = response_payload (handler_response rg (hd_task h) (hd_at h) (hd_outcome h))" by (auto simp: produced_def)
    then show ?thesis
      by (intro disjI2 exI [of _ h]) (auto simp: handler_response_def response_payload_def split: sum.splits)
  qed simp
  show ?thesis using 1 2 3 by blast
qed

text \<open>A concrete encoding, and a call over it from the request to the answer.\<close>

datatype wire_value = WRequest rpc_request | WClaim claim_request | WGrant claim_response | WResponse rpc_response

definition wire_codecs :: "(wire_value, string \<times> wire_value) psrpc_codecs" where
  "wire_codecs =
     \<lparr> cd_msg = id, cd_msg_dec = Some,
       cd_request = WRequest, cd_request_dec = (\<lambda>v. case v of WRequest r \<Rightarrow> Some r | _ \<Rightarrow> None),
       cd_claim = WClaim, cd_claim_dec = (\<lambda>v. case v of WClaim r \<Rightarrow> Some r | _ \<Rightarrow> None),
       cd_grant = WGrant, cd_grant_dec = (\<lambda>v. case v of WGrant r \<Rightarrow> Some r | _ \<Rightarrow> None),
       cd_response = WResponse, cd_response_dec = (\<lambda>v. case v of WResponse r \<Rightarrow> Some r | _ \<Rightarrow> None) \<rparr>"

lemma wire_codecs_ok: "codecs_ok wire_codecs"
  by (simp add: codecs_ok_def wire_codecs_def)

definition demo_client :: "(string, rpc_pending) assoc \<Rightarrow> rpc_client" where
  "demo_client pend = \<lparr> cl_service = ''IO'', cl_client_id = ''C'', cl_sub = 0, cl_pending = pend \<rparr>"

definition demo_reg :: "(string, string \<times> bytes \<times> int) assoc \<Rightarrow> rpc_registration" where
  "demo_reg rpend = \<lparr> rg_service = ''IO'', rg_server_id = ''S'', rg_method = ''Get'', rg_topic = [], rg_pending = rpend \<rparr>"

definition demo_bus :: "(string \<times> 'p) list \<Rightarrow> (string \<times> 'p) list \<Rightarrow> 'p membus" where
  "demo_bus q0 q1 =
     \<lparr> mb_subs = [(response_channel ''IO'' ''C'', [0]), (claim_request_channel ''IO'' ''C'', [0]),
                 (rpc_channel ''IO'' ''Get'' [], [1]), (claim_response_channel ''IO'' ''Get'' [], [1])],
       mb_queues = [(0, q0), (1, q1)] \<rparr>"

text \<open>The state with one client (subscription 0) and one registration (subscription 1).\<close>

definition demo :: "(string \<times> string \<times> wire_value) list \<Rightarrow> (string \<times> string \<times> wire_value) list \<Rightarrow> (string, rpc_pending) assoc \<Rightarrow>
    (string, rpc_call) assoc \<Rightarrow> (string, string \<times> bytes \<times> int) assoc \<Rightarrow> rpc_task list \<Rightarrow> handled list \<Rightarrow> (string \<times> wire_value) psrpc_sys" where
  "demo q0 q1 pend calls rpend tasks done' =
     \<lparr> ps_bus = demo_bus q0 q1,
       ps_clients = [(0, demo_client pend)], ps_calls = calls, ps_regs = [(1, demo_reg rpend)], ps_tasks = tasks, ps_handled = done' \<rparr>"

lemmas demo_simps = Let_def demo_def demo_bus_def demo_client_def demo_reg_def wire_codecs_def envelope_def put_def del_def look_def bus_publish_def bus_pop_def

lemma demo_start: "(psrpc_step wire_codecs)\<^sup>*\<^sup>* psrpc_init (demo [] [] [] [] [] [] [])"
proof -
  let ?s1 = "psrpc_init\<lparr> ps_bus := \<lparr> mb_subs = [(response_channel ''IO'' ''C'', [0]), (claim_request_channel ''IO'' ''C'', [0])], mb_queues = [(0, [])] \<rparr>,
      ps_clients := [(0, \<lparr> cl_service = ''IO'', cl_client_id = ''C'', cl_sub = 0, cl_pending = [] \<rparr>)] \<rparr> :: (string \<times> wire_value) psrpc_sys"
  have 1: "psrpc_step wire_codecs psrpc_init ?s1"
    by (rule back_subst [of "psrpc_step wire_codecs psrpc_init"], rule new_client [of _ 0 "''IO''" "''C''"])
      (simp_all add: psrpc_init_def client_new_def bus_subscribe_def put_def look_def)
  have 2: "psrpc_step wire_codecs ?s1 (demo [] [] [] [] [] [] [])"
    by (rule back_subst [of "psrpc_step wire_codecs ?s1"], rule registration [of _ 1 "''S''" "''IO''" "''Get''" "[]"])
      (simp_all add: psrpc_init_def register_topic_def bus_subscribe_def demo_def demo_bus_def demo_client_def demo_reg_def put_def look_def)
  from 1 2 show ?thesis by (meson rtranclp.simps)
qed

text \<open>The call, its bid, the grant, the run of the handler and the answer.\<close>

definition demo_request :: rpc_request where
  "demo_request = \<lparr> rq_request_id = ''R'', rq_client_id = ''C'', rq_sent_at = 0, rq_expiry = 30, rq_raw_request = [7] \<rparr>"

definition demo_call :: "bool \<Rightarrow> (psrpc_error, bytes) result option \<Rightarrow> rpc_call" where
  "demo_call granted r = \<lparr> ca_client = 0, ca_request = demo_request, ca_service = ''IO'', ca_method = ''Get'', ca_topic = [],
     ca_granted = granted, ca_result = r \<rparr>"

definition demo_claim :: claim_request where
  "demo_claim = \<lparr> cq_request_id = ''R'', cq_server_id = ''S'' \<rparr>"

definition demo_task :: rpc_task where
  "demo_task = \<lparr> tk_reg = 1, tk_request_id = ''R'', tk_client_id = ''C'', tk_raw = [7] \<rparr>"

definition demo_handled :: handled where
  "demo_handled = \<lparr> hd_task = demo_task, hd_at = 2, hd_outcome = Inr [8] \<rparr>"

definition demo_response :: rpc_response where
  "demo_response = \<lparr> rs_request_id = ''R'', rs_server_id = ''S'', rs_sent_at = 2, rs_raw_response = [8], rs_error = [], rs_code = [] \<rparr>"

lemmas demo_parts = demo_request_def demo_call_def demo_claim_def demo_task_def demo_handled_def demo_response_def

lemma step_request:
  assumes "look (ps_clients s) i = Some cl" "look (ps_calls s) rid = None"
    and "s' = (case request_start px cl rid now timeout meth topic payload (ps_bus s) of (cl', ca, b) \<Rightarrow>
      s\<lparr> ps_calls := put rid ca (ps_calls s), ps_clients := put i cl' (ps_clients s), ps_bus := b \<rparr>)"
  shows "psrpc_step px s s'"
  unfolding assms(3) by (simp split: prod.split) (metis psrpc_step.request assms(1,2))

lemma step_listener:
  assumes "look (ps_clients s) i = Some cl" "bus_pop i (ps_bus s) = Some ((ch, payload), b)"
    and "s' = s\<lparr> ps_bus := b, ps_clients := put i (client_dispatch px payload cl) (ps_clients s) \<rparr>"
  shows "psrpc_step px s s'"
  unfolding assms(3) by (rule psrpc_step.listener [OF assms(1,2)])

lemma step_select:
  assumes "look (ps_clients s) i = Some cl" "look (ps_calls s) rid = Some ca" "ca_result ca = None" "ca_client ca = i"
    and "map_option (\<lambda>(cl', ca', b). s\<lparr> ps_calls := put rid ca' (ps_calls s), ps_clients := put i cl' (ps_clients s), ps_bus := b \<rparr>)
       (request_select px cl ca (ps_bus s)) = Some s'"
  shows "psrpc_step px s s'"
  using assms(5) psrpc_step.select [OF assms(1-4)] by auto

lemma step_message:
  assumes "look (ps_regs s) i = Some rg" "bus_pop i (ps_bus s) = Some (msg, b)"
    and "s' = (case registration_message px i now msg rg b of (rg', ts, b') \<Rightarrow> s\<lparr> ps_bus := b', ps_regs := put i rg' (ps_regs s), ps_tasks := ps_tasks s @ ts \<rparr>)"
  shows "psrpc_step px s s'"
  unfolding assms(3) using psrpc_step.message [OF assms(1,2)] by (auto split: prod.split)

lemma step_handler:
  assumes "ps_tasks s = [tk]" "look (ps_regs s) (tk_reg tk) = Some rg"
    and "s' = s\<lparr> ps_tasks := [], ps_handled := ps_handled s @ [\<lparr> hd_task = tk, hd_at = now, hd_outcome = outcome \<rparr>],
                 ps_bus := run_handler px rg tk now outcome (ps_bus s) \<rparr>"
  shows "psrpc_step px s s'"
  unfolding assms(3) using psrpc_step.handler [of s "[]" tk "[]" rg px now outcome] assms(1,2) by simp

abbreviation "demo_env t v \<equiv> (''type.googleapis.com/'' @ t, v)"

lemma demo_answered: "(psrpc_step wire_codecs)\<^sup>*\<^sup>* psrpc_init (demo [] [] [] [(''R'', demo_call True (Some (Inr [8])))] [] [] [demo_handled])"
proof -
  let ?p = "\<lambda>cs rs. [(''R'', \<lparr> pe_claims = cs, pe_resps = rs \<rparr>)]"
  let ?c = "\<lambda>g. [(''R'', demo_call g None)]"
  let ?req = "(rpc_channel ''IO'' ''Get'' [], demo_env ''internal.Request'' (WRequest demo_request))"
  let ?claim = "(claim_request_channel ''IO'' ''C'', demo_env ''internal.ClaimRequest'' (WClaim demo_claim))"
  let ?grant = "(claim_response_channel ''IO'' ''Get'' [], demo_env ''internal.ClaimResponse'' (WGrant \<lparr> cr_request_id = ''R'', cr_server_id = ''S'' \<rparr>))"
  let ?resp = "(response_channel ''IO'' ''C'', demo_env ''internal.Response'' (WResponse demo_response))"
  let ?step = "psrpc_step wire_codecs"
  have 1: "?step (demo [] [] [] [] [] [] []) (demo [] [?req] (?p [] []) (?c False) [] [] [])"
    by (rule step_request [of _ 0 "demo_client []" "''R''" _ _ 0 30 "''Get''" "[]" "[7]"]) (simp_all add: demo_simps demo_parts request_start_def)
  have 2: "?step (demo [] [?req] (?p [] []) (?c False) [] [] []) (demo [?claim] [] (?p [] []) (?c False) [(''R'', ''C'', [7], 30)] [] [])"
    by (rule step_message [of _ 1 "demo_reg []" ?req "demo_bus [] []" _ _ 1]) (simp_all add: demo_simps demo_parts registration_message_def)
  have 3: "?step (demo [?claim] [] (?p [] []) (?c False) [(''R'', ''C'', [7], 30)] [] [])
      (demo [] [] (?p [demo_claim] []) (?c False) [(''R'', ''C'', [7], 30)] [] [])"
    by (rule step_listener [of _ 0 "demo_client (?p [] [])" "fst ?claim" "snd ?claim" "demo_bus [] []"])
      (simp_all add: demo_simps demo_parts client_dispatch_def ends_with_def strip_suffix_def)
  have 4: "?step (demo [] [] (?p [demo_claim] []) (?c False) [(''R'', ''C'', [7], 30)] [] [])
      (demo [] [?grant] (?p [] []) (?c True) [(''R'', ''C'', [7], 30)] [] [])"
    by (rule step_select [of _ 0 "demo_client (?p [demo_claim] [])" "''R''" "demo_call False None"])
      (simp_all add: demo_simps demo_parts request_select_def)
  have 5: "?step (demo [] [?grant] (?p [] []) (?c True) [(''R'', ''C'', [7], 30)] [] [])
      (demo [] [] (?p [] []) (?c True) [] [demo_task] [])"
    by (rule step_message [of _ 1 "demo_reg [(''R'', ''C'', [7], 30)]" ?grant "demo_bus [] []" _ _ 1]) (simp_all add: demo_simps demo_parts registration_message_def)
  have 6: "?step (demo [] [] (?p [] []) (?c True) [] [demo_task] []) (demo [?resp] [] (?p [] []) (?c True) [] [] [demo_handled])"
    by (rule step_handler [where tk = demo_task and rg = "demo_reg []" and now = 2 and outcome = "Inr [8]"]) (simp_all add: demo_simps demo_parts run_handler_def handler_response_def)
  have 7: "?step (demo [?resp] [] (?p [] []) (?c True) [] [] [demo_handled]) (demo [] [] (?p [] [demo_response]) (?c True) [] [] [demo_handled])"
    by (rule step_listener [of _ 0 "demo_client (?p [] [])" "fst ?resp" "snd ?resp" "demo_bus [] []"])
      (simp_all add: demo_simps demo_parts client_dispatch_def ends_with_def strip_suffix_def)
  have 8: "?step (demo [] [] (?p [] [demo_response]) (?c True) [] [] [demo_handled])
      (demo [] [] [] [(''R'', demo_call True (Some (Inr [8])))] [] [] [demo_handled])"
    by (rule step_select [of _ 0 "demo_client (?p [] [demo_response])" "''R''" "demo_call True None"])
      (simp_all add: demo_simps demo_parts request_select_def response_payload_def)
  show ?thesis
    by (rule demo_start [THEN rtranclp.rtrancl_into_rtrancl, OF 1, THEN rtranclp.rtrancl_into_rtrancl, OF 2,
      THEN rtranclp.rtrancl_into_rtrancl, OF 3, THEN rtranclp.rtrancl_into_rtrancl, OF 4, THEN rtranclp.rtrancl_into_rtrancl, OF 5,
      THEN rtranclp.rtrancl_into_rtrancl, OF 6, THEN rtranclp.rtrancl_into_rtrancl, OF 7, THEN rtranclp.rtrancl_into_rtrancl, OF 8])
qed

text \<open>C19 for this call: it is answered, by one run of the handler.\<close>

theorem request_handled_once_witness:
  "\<exists>s ca h. (psrpc_step wire_codecs)\<^sup>*\<^sup>* psrpc_init s \<and> look (ps_calls s) ''R'' = Some ca \<and> ca_result ca = Some (Inr [8])
     \<and> ps_handled s = [h] \<and> hd_outcome h = Inr [8]"
proof -
  let ?ca = "demo_call True (Some (Inr [8]))"
  define s where "s = demo [] [] [] [(''R'', ?ca)] [] [] [demo_handled]"
  have l: "look (ps_calls s) ''R'' = Some ?ca" "ca_result ?ca = Some (Inr [8])" "ps_handled s = [demo_handled]"
    by (simp_all add: s_def demo_def look_def demo_call_def)
  note a = demo_answered [folded s_def]
  from request_handled_once [OF wire_codecs_ok a, THEN conjunct2, THEN conjunct2, rule_format, OF l(1,2)]
  obtain h where "h \<in> set (ps_handled s)" "Inr [8] = (case hd_outcome h of Inr raw \<Rightarrow> Inr raw
      | Inl (code, msg) \<Rightarrow> if msg = [] then Inr [] else Inl (PsRpc code msg))" by blast
  then have "h = demo_handled" "hd_outcome h = Inr [8]" using l(3) by (auto split: sum.splits if_splits)
  then show ?thesis using a l by blast
qed

end
