(* ===== verification/Redact.thy ===== *)
theory Redact
  imports Egress_Types
begin

text \<open>
  Removal of credentials from a recording request before it is stored or returned
  (\<open>lk-egress/src/redact.rs\<close> and \<open>request_info\<close> of \<open>server.rs\<close>).  Slicing a string inside a
  character panics: no value.
\<close>

section \<open>Definitions\<close>

definition redact :: "string \<Rightarrow> string \<Rightarrow> string" where
  "redact s placeholder = (if s = [] then [] else placeholder)"

text \<open>\<open>str::is_char_boundary\<close> for an index inside the string.\<close>

definition boundary :: "nat \<Rightarrow> string \<Rightarrow> bool" where
  "boundary i s \<longleftrightarrow> i = length s \<or> (i < length s \<and> \<not> (128 \<le> (of_char (s ! i) :: nat) \<and> (of_char (s ! i) :: nat) < 192))"

definition redact_identifier :: "string \<Rightarrow> string option" where
  "redact_identifier ident =
     (let i = (if 9 \<le> length ident then 3 else if 6 \<le> length ident then 2 else if 3 \<le> length ident then 1 else 0) in
      if i = 0 then Some ''{...}''
      else if boundary i ident \<and> boundary (length ident - i) ident
      then Some (''{'' @ take i ident @ ''...'' @ drop (length ident - i) ident @ ''}'')
      else None)"

definition redact_stream_key :: "string \<Rightarrow> (string \<times> bool) option" where
  "redact_stream_key url =
     (case (case strip_prefix ''rtmp://'' url of Some r \<Rightarrow> Some r | None \<Rightarrow> strip_prefix ''rtmps://'' url) of
        None \<Rightarrow> Some (url, False)
      | Some rest \<Rightarrow>
          (case split_on (CHR ''/'') rest of
             host # app # key # tail \<Rightarrow>
               map_option (\<lambda>redacted. (''rtmp://'' @ host @ ''/'' @ app @ ''/'' @ redacted
                 @ (case tail of t # _ \<Rightarrow> ''/'' @ t | [] \<Rightarrow> []), True)) (redact_identifier key)
           | _ \<Rightarrow> Some (url, False)))"

definition redact_s3 :: "s3_upload \<Rightarrow> s3_upload" where
  "redact_s3 s3 = s3\<lparr> s3_access_key := redact (s3_access_key s3) ''{access_key}'', s3_secret := redact (s3_secret s3) ''{secret}'',
     s3_assume_role_external_id := redact (s3_assume_role_external_id s3) ''{external_id}'',
     s3_session_token := redact (s3_session_token s3) ''{session_token}'' \<rparr>"

definition redact_gcp :: "gcp_upload \<Rightarrow> gcp_upload" where
  "redact_gcp g = g\<lparr> gc_credentials := redact (gc_credentials g) ''{credentials}'' \<rparr>"

definition redact_azure :: "azure_upload \<Rightarrow> azure_upload" where
  "redact_azure a = a\<lparr> az_account_name := redact (az_account_name a) ''{account_name}'', az_account_key := redact (az_account_key a) ''{account_key}'' \<rparr>"

definition redact_alioss :: "ali_upload \<Rightarrow> ali_upload" where
  "redact_alioss a = a\<lparr> al_access_key := redact (al_access_key a) ''{access_key}'', al_secret := redact (al_secret a) ''{secret}'' \<rparr>"

text \<open>The match over the providers, which every kind of output repeats.\<close>

fun redact_upload :: "upload_cfg \<Rightarrow> upload_cfg" where
  "redact_upload (UpS3 s3) = UpS3 (redact_s3 s3)"
| "redact_upload (UpGcp g) = UpGcp (redact_gcp g)"
| "redact_upload (UpAzure a) = UpAzure (redact_azure a)"
| "redact_upload (UpAliOss a) = UpAliOss (redact_alioss a)"

definition redact_storage :: "upload_cfg option option \<Rightarrow> upload_cfg option option" where
  "redact_storage storage = map_option (map_option redact_upload) storage"

definition redact_stream :: "stream_output \<Rightarrow> stream_output option" where
  "redact_stream st = map_option (\<lambda>urls. st\<lparr> st_urls := urls \<rparr>) (those (map (\<lambda>u. map_option fst (redact_stream_key u)) (st_urls st)))"

definition redact_output :: "output_v2 \<Rightarrow> output_v2 option" where
  "redact_output o2 =
     (let o2' = o2\<lparr> o2_storage := redact_storage (o2_storage o2) \<rparr> in
      case o2_config o2 of
        Some (ConfStream st) \<Rightarrow> map_option (\<lambda>st. o2'\<lparr> o2_config := Some (ConfStream st) \<rparr>) (redact_stream st)
      | _ \<Rightarrow> Some o2')"

definition redact_encoded_output :: "encoded_output \<Rightarrow> encoded_output" where
  "redact_encoded_output f = f\<lparr> eo_output := map_option redact_upload (eo_output f) \<rparr>"

definition redact_direct_output :: "direct_output \<Rightarrow> direct_output" where
  "redact_direct_output f = f\<lparr> do_output := map_option redact_upload (do_output f) \<rparr>"

definition redact_segments :: "segment_output \<Rightarrow> segment_output" where
  "redact_segments s = s\<lparr> sg_output := map_option redact_upload (sg_output s) \<rparr>"

definition redact_images :: "image_output \<Rightarrow> image_output" where
  "redact_images i = i\<lparr> im_output := map_option redact_upload (im_output i) \<rparr>"

text \<open>The lists of outputs, and the deprecated single output where the request gives access
  to it: \<open>redact_encoded\<close> for the types of the macro has none.\<close>

definition redact_lists :: "output_lists \<Rightarrow> output_lists option" where
  "redact_lists ol = map_option (\<lambda>streams. \<lparr> ol_file_outputs = map redact_encoded_output (ol_file_outputs ol), ol_stream_outputs = streams,
     ol_segment_outputs = map redact_segments (ol_segment_outputs ol), ol_image_outputs = map redact_images (ol_image_outputs ol) \<rparr>)
     (those (map redact_stream (ol_stream_outputs ol)))"

fun redact_single :: "single_output \<Rightarrow> single_output option" where
  "redact_single (OneFile f) = Some (OneFile (redact_encoded_output f))"
| "redact_single (OneStream s) = map_option OneStream (redact_stream s)"
| "redact_single (OneSegments s) = Some (OneSegments (redact_segments s))"

definition redact_room_composite :: "room_composite_req \<Rightarrow> room_composite_req option" where
  "redact_room_composite r =
     Option.bind (redact_lists (rc_outputs r)) (\<lambda>ol.
       case rc_output r of
         None \<Rightarrow> Some (r\<lparr> rc_outputs := ol \<rparr>)
       | Some s \<Rightarrow> map_option (\<lambda>s. r\<lparr> rc_outputs := ol, rc_output := Some s \<rparr>) (redact_single s))"

definition redact_participant :: "participant_req \<Rightarrow> participant_req option" where
  "redact_participant r = map_option (\<lambda>ol. r\<lparr> pr_outputs := ol \<rparr>) (redact_lists (pr_outputs r))"

definition redact_track_composite :: "track_composite_req \<Rightarrow> track_composite_req option" where
  "redact_track_composite r = map_option (\<lambda>ol. r\<lparr> tc_outputs := ol \<rparr>) (redact_lists (tc_outputs r))"

definition redact_start :: "start_req \<Rightarrow> start_req option" where
  "redact_start r = map_option (\<lambda>os. r\<lparr> sr_storage := redact_storage (sr_storage r), sr_outputs := os \<rparr>) (those (map redact_output (sr_outputs r)))"

definition redact_direct :: "track_req \<Rightarrow> track_req" where
  "redact_direct r = (case tk_output r of Some (TrackFile f) \<Rightarrow> r\<lparr> tk_output := Some (TrackFile (redact_direct_output f)) \<rparr> | _ \<Rightarrow> r)"

text \<open>\<open>request_info\<close>: what is published of a request; nothing for the kinds the recorder does not
  serve.  The outer option is the panic.\<close>

definition request_info :: "start_egress_msg \<Rightarrow> egress_request option option" where
  "request_info req =
     (case sm_request req of
        Some (RqRoomComposite r) \<Rightarrow> map_option (Some \<circ> RqRoomComposite) (redact_room_composite r)
      | Some (RqTrack r) \<Rightarrow> Some (Some (RqTrack (redact_direct r)))
      | Some (RqParticipant r) \<Rightarrow> map_option (Some \<circ> RqParticipant) (redact_participant r)
      | Some (RqTrackComposite r) \<Rightarrow> map_option (Some \<circ> RqTrackComposite) (redact_track_composite r)
      | Some (RqEgress r) \<Rightarrow> map_option (Some \<circ> RqEgress) (redact_start r)
      | _ \<Rightarrow> Some None)"

section \<open>Credentials\<close>

text \<open>The uploads of a request, with the credentials they carry.\<close>

fun upload_creds :: "upload_cfg \<Rightarrow> string list" where
  "upload_creds (UpS3 s3) = [s3_access_key s3, s3_secret s3, s3_assume_role_external_id s3, s3_session_token s3]"
| "upload_creds (UpGcp g) = [gc_credentials g]"
| "upload_creds (UpAzure a) = [az_account_name a, az_account_key a]"
| "upload_creds (UpAliOss a) = [al_access_key a, al_secret a]"

definition list_uploads :: "output_lists \<Rightarrow> upload_cfg set" where
  "list_uploads ol = {u. (\<exists>f \<in> set (ol_file_outputs ol). eo_output f = Some u) \<or> (\<exists>s \<in> set (ol_segment_outputs ol). sg_output s = Some u)
     \<or> (\<exists>i \<in> set (ol_image_outputs ol). im_output i = Some u)}"

fun single_uploads :: "single_output \<Rightarrow> upload_cfg set" where
  "single_uploads (OneFile f) = set_option (eo_output f)"
| "single_uploads (OneStream s) = {}"
| "single_uploads (OneSegments s) = set_option (sg_output s)"

definition storage_uploads :: "upload_cfg option option \<Rightarrow> upload_cfg set" where
  "storage_uploads st = {u. st = Some (Some u)}"

text \<open>The uploads that redaction reaches.  Out of reach are the deprecated output of a
  track-composite request and uploads inside the configuration of a v2 output.\<close>

fun reached_uploads :: "egress_request \<Rightarrow> upload_cfg set" where
  "reached_uploads (RqRoomComposite r) = list_uploads (rc_outputs r) \<union> (case rc_output r of Some s \<Rightarrow> single_uploads s | None \<Rightarrow> {})"
| "reached_uploads (RqParticipant r) = list_uploads (pr_outputs r)"
| "reached_uploads (RqTrackComposite r) = list_uploads (tc_outputs r)"
| "reached_uploads (RqTrack r) = (case tk_output r of Some (TrackFile f) \<Rightarrow> set_option (do_output f) | _ \<Rightarrow> {})"
| "reached_uploads (RqEgress r) = storage_uploads (sr_storage r) \<union> (\<Union>o2 \<in> set (sr_outputs r). storage_uploads (o2_storage o2))"
| "reached_uploads (RqWeb _) = {}"
| "reached_uploads (RqReplay _) = {}"

definition placeholders :: "string set" where
  "placeholders = {[], ''{access_key}'', ''{secret}'', ''{external_id}'', ''{session_token}'', ''{credentials}'', ''{account_name}'', ''{account_key}''}"

definition clean :: "upload_cfg \<Rightarrow> bool" where
  "clean u \<longleftrightarrow> set (upload_creds u) \<subseteq> placeholders"

lemma redact_upload_clean [simp]: "clean (redact_upload u)"
  by (cases u) (simp_all add: clean_def redact_s3_def redact_gcp_def redact_azure_def redact_alioss_def redact_def placeholders_def)

lemma those_SomeD: "those xs = Some ys \<Longrightarrow> xs = map Some ys"
  by (induction xs arbitrary: ys) (auto split: option.splits)

lemma redact_lists_clean:
  assumes "redact_lists ol = Some ol'" "u \<in> list_uploads ol'"
  shows "clean u"
  using assms by (auto simp: redact_lists_def list_uploads_def redact_encoded_output_def redact_segments_def redact_images_def)

lemma redact_single_clean: "redact_single s = Some s' \<Longrightarrow> u \<in> single_uploads s' \<Longrightarrow> clean u"
  by (cases s) (auto simp: redact_encoded_output_def redact_segments_def)

lemma redact_storage_clean: "u \<in> storage_uploads (redact_storage st) \<Longrightarrow> clean u"
  by (auto simp: storage_uploads_def redact_storage_def)

lemma redact_output_storage: "redact_output o2 = Some o2' \<Longrightarrow> o2_storage o2' = redact_storage (o2_storage o2)"
  by (auto simp: redact_output_def Let_def split: option.splits output_config.splits)



section \<open>Stream keys\<close>

text \<open>Of a key the published URL shows at most the first and the last three bytes, and never
  more than two thirds.\<close>

lemma redact_identifier_shows:
  assumes "redact_identifier ident = Some out"
  shows "\<exists>i \<le> 3. 3 * i \<le> length ident \<and> out = ''{'' @ take i ident @ ''...'' @ drop (length ident - i) ident @ ''}''"
proof -
  have "\<exists>i \<le> 3. 3 * i \<le> length ident \<and> (i = 0 \<longrightarrow> out = ''{...}'') \<and> (i \<noteq> 0 \<longrightarrow> out = ''{'' @ take i ident @ ''...'' @ drop (length ident - i) ident @ ''}'')"
    using assms by (auto simp: redact_identifier_def Let_def split: if_splits
        intro: exI [of _ 0] exI [of _ 1] exI [of _ 2] exI [of _ 3])
  then show ?thesis by (metis append_Cons append_Nil diff_zero drop_all order_refl take0)
qed

subsection \<open>Behaviour at odds with what the code means to do\<close>

text \<open>The deprecated output of a track-composite request is published as it is.\<close>

lemma track_composite_output_published:
  assumes "sm_request req = Some (RqTrackComposite r)" "request_info req = Some (Some (RqTrackComposite r'))"
  shows "tc_output r' = tc_output r"
  using assms by (auto simp: request_info_def redact_track_composite_def)

text \<open>So are the uploads inside the configuration of a v2 output.\<close>

lemma v2_segments_published:
  assumes "o2_config o2 = Some (ConfSegments sg)" "redact_output o2 = Some o2'"
  shows "o2_config o2' = Some (ConfSegments sg)"
  using assms by (auto simp: redact_output_def Let_def)

text \<open>A URL of another protocol keeps its key.\<close>

lemma srt_key_published: "redact_stream_key (''srt://'' @ rest) = Some (''srt://'' @ rest, False)"
  by (simp add: redact_stream_key_def)

end
