(* ===== verification/Recorder.thy ===== *)
theory Recorder
  imports Egress_Types
begin

text \<open>
  Recording a room (\<open>lk-egress/src/recorder.rs\<close>, \<open>audio.rs\<close>, \<open>wav.rs\<close>): decoded packets are queued
  per track, mixed into frames of 20 milliseconds and written to a WAV or MP3 file.  Opus
  decoding and MP3 encoding are library calls: a packet carries what its decoder
  answered, and where frames go is a sink.  Samples are signed 16-bit words.
\<close>

section \<open>Mixing\<close>

type_synonym sample = "16 word"

definition FRAME_SAMPLES :: nat where "FRAME_SAMPLES = 960"

text \<open>Microseconds.\<close>

definition SILENT_TRACK_TIMEOUT :: nat where "SILENT_TRACK_TIMEOUT = 5000000"

text \<open>Division of \<open>i32\<close>, which rounds towards zero, and \<open>clamp\<close> to the range of \<open>i16\<close>.\<close>

definition div_i32 :: "int \<Rightarrow> int \<Rightarrow> int" where
  "div_i32 a n = (if a < 0 then - ((- a) div n) else a div n)"

definition clamp_i16 :: "int \<Rightarrow> int" where
  "clamp_i16 a = max (- 32768) (min 32767 a)"

record mixer =
  mx_tracks :: "(string, sample list) assoc"
  mx_last_packet :: "(string, nat) assoc"

definition mixer_new :: mixer where
  "mixer_new = \<lparr> mx_tracks = [], mx_last_packet = [] \<rparr>"

definition mixer_push :: "string \<Rightarrow> sample list \<Rightarrow> nat \<Rightarrow> mixer \<Rightarrow> mixer" where
  "mixer_push cid pcm now m =
     m\<lparr> mx_tracks := put cid ((case look (mx_tracks m) cid of Some q \<Rightarrow> q | None \<Rightarrow> []) @ pcm) (mx_tracks m),
        mx_last_packet := put cid now (mx_last_packet m) \<rparr>"

definition prune_stale :: "nat \<Rightarrow> mixer \<Rightarrow> string list \<times> mixer" where
  "prune_stale now m =
     (let stale = map fst (filter (\<lambda>(_, t). SILENT_TRACK_TIMEOUT < now - t) (mx_last_packet m)) in
      (stale, m\<lparr> mx_tracks := foldl (\<lambda>ts cid. del cid ts) (mx_tracks m) stale,
                 mx_last_packet := foldl (\<lambda>ts cid. del cid ts) (mx_last_packet m) stale \<rparr>))"

definition available :: "mixer \<Rightarrow> nat" where
  "available m = fold max (map (length \<circ> snd) (mx_tracks m)) 0"

text \<open>One sample of a track added to the slot of the frame.\<close>

definition mix_slot :: "int \<Rightarrow> sample \<Rightarrow> sample \<Rightarrow> sample" where
  "mix_slot count slot s = word_of_int (clamp_i16 (sint slot + div_i32 (sint s) count))"

definition mix_track :: "int \<Rightarrow> sample list \<Rightarrow> sample list \<Rightarrow> sample list" where
  "mix_track count frame q = map2 (mix_slot count) frame (take (length frame) q @ replicate (length frame - length q) 0)"

definition read_frame :: "nat \<Rightarrow> mixer \<Rightarrow> sample list \<times> mixer" where
  "read_frame len m =
     (foldl (mix_track (int (max (length (mx_tracks m)) 1))) (replicate len 0) (map snd (mx_tracks m)),
      m\<lparr> mx_tracks := map (\<lambda>(cid, q). (cid, drop len q)) (mx_tracks m) \<rparr>)"

text \<open>The averaging mix of whole frames.\<close>

definition mix_frames :: "sample list list \<Rightarrow> sample list" where
  "mix_frames frames =
     (if frames = [] then []
      else map (\<lambda>i. word_of_int (clamp_i16 (div_i32 (sum_list (map (\<lambda>f. if i < length f then sint (f ! i) else 0) frames)) (int (length frames)))))
             [0 ..< fold max (map length frames) 0])"

section \<open>Recording\<close>

text \<open>Where frames go.\<close>

record 'k sink =
  sk_write :: "sample list \<Rightarrow> 'k \<Rightarrow> (string, 'k) result"
  sk_finish :: "'k \<Rightarrow> (string, 'k) result"

lemma fold_max_ge: "(m :: nat) \<le> fold max xs m \<and> (\<forall>x \<in> set xs. x \<le> fold max xs m)"
proof (induction xs arbitrary: m)
  case (Cons a xs)
  show ?case using Cons.IH [of "max a m"] by (auto simp: max_def split: if_splits)
qed simp

lemma fold_max_in: "fold max xs (m :: nat) = m \<or> fold max xs m \<in> set xs"
proof (induction xs arbitrary: m)
  case (Cons a xs)
  show ?case using Cons.IH [of "max a m"] by (auto simp: max_def)
qed simp

lemma fold_max_le: "fold max xs (m :: nat) \<le> n \<longleftrightarrow> m \<le> n \<and> (\<forall>x \<in> set xs. x \<le> n)"
proof
  assume "fold max xs m \<le> n"
  then show "m \<le> n \<and> (\<forall>x \<in> set xs. x \<le> n)" using fold_max_ge [where m = m and xs = xs] le_trans by blast
next
  assume "m \<le> n \<and> (\<forall>x \<in> set xs. x \<le> n)"
  then show "fold max xs m \<le> n" using fold_max_in [of xs m] by fastforce
qed

lemma available_le: "available m \<le> n \<longleftrightarrow> (\<forall>t \<in> set (mx_tracks m). length (snd t) \<le> n)"
  by (simp add: available_def fold_max_le)

lemma available_read: "available (snd (read_frame len m)) = available m - len"
proof (rule antisym)
  have "\<forall>t \<in> set (mx_tracks m). length (snd t) \<le> available m" using available_le [of m "available m"] by simp
  then show "available (snd (read_frame len m)) \<le> available m - len" unfolding available_le by (force simp: read_frame_def intro: diff_le_mono)
  let ?n = "available (snd (read_frame len m))"
  have t: "\<forall>t \<in> set (mx_tracks (snd (read_frame len m))). length (snd t) \<le> ?n" using available_le [of _ ?n] by blast
  have "length (snd t) \<le> ?n + len" if "t \<in> set (mx_tracks m)" for t
  proof -
    have "(fst t, drop len (snd t)) \<in> set (mx_tracks (snd (read_frame len m)))" using that by (force simp: read_frame_def)
    then show ?thesis using t by fastforce
  qed
  then have "available m \<le> ?n + len" by (simp add: available_le)
  then show "available m - len \<le> ?n" by simp
qed

text \<open>The inner loop: whole frames are written and counted.\<close>

function drain :: "'k sink \<Rightarrow> mixer \<Rightarrow> 'k \<Rightarrow> nat \<Rightarrow> (string, mixer \<times> 'k \<times> nat) result" where
  "drain sk m k frames =
     (if FRAME_SAMPLES \<le> available m
      then (case sk_write sk (fst (read_frame FRAME_SAMPLES m)) k of
              Inl e \<Rightarrow> Inl e
            | Inr k' \<Rightarrow> drain sk (snd (read_frame FRAME_SAMPLES m)) k' (frames + 1))
      else Inr (m, k, frames))"
  by pat_completeness auto
termination
proof (relation "measure (\<lambda>(_, m, _, _). available m)", rule wf_measure)
  fix sk :: "'k sink" and m :: mixer and k k' :: 'k and frames :: nat
  assume "FRAME_SAMPLES \<le> available m"
  then have "available m - FRAME_SAMPLES < available m" by (simp add: FRAME_SAMPLES_def)
  then show "((sk, snd (read_frame FRAME_SAMPLES m), k', frames + 1), sk, m, k, frames) \<in> measure (\<lambda>(_, m, _, _). available m)"
    by (simp add: available_read)
qed

declare drain.simps [simp del]

record audio_packet =
  ap_track_cid :: string
  ap_decoded :: "(string, sample list) result"
  ap_at :: nat

record 'k rec_state =
  rs_mixer :: mixer
  rs_decoders :: "string list"
  rs_sink :: 'k
  rs_frames :: nat

definition record_packet :: "'k sink \<Rightarrow> audio_packet \<Rightarrow> 'k rec_state \<Rightarrow> (string, 'k rec_state) result" where
  "record_packet sk p s =
     (let s = s\<lparr> rs_decoders := List.insert (ap_track_cid p) (rs_decoders s) \<rparr> in
      case ap_decoded p of
        Inl _ \<Rightarrow> Inr s
      | Inr pcm \<Rightarrow>
          let (stale, m) = prune_stale (ap_at p) (mixer_push (ap_track_cid p) pcm (ap_at p) (rs_mixer s));
              s = s\<lparr> rs_decoders := filter (\<lambda>c. c \<notin> set stale) (rs_decoders s) \<rparr> in
          ebind (drain sk m (rs_sink s) (rs_frames s)) (\<lambda>(m, k, frames). Inr (s\<lparr> rs_mixer := m, rs_sink := k, rs_frames := frames \<rparr>)))"

fun record_packets :: "'k sink \<Rightarrow> audio_packet list \<Rightarrow> 'k rec_state \<Rightarrow> (string, 'k rec_state) result" where
  "record_packets sk [] s = Inr s"
| "record_packets sk (p # ps) s = ebind (record_packet sk p s) (record_packets sk ps)"

text \<open>The recording of the packets received until the stream ends or the stop is signalled;
  the result is the sink and the number of frames.\<close>

definition run_recording :: "'k sink \<Rightarrow> 'k \<Rightarrow> audio_packet list \<Rightarrow> (string, 'k \<times> nat) result" where
  "run_recording sk k packets =
     ebind (record_packets sk packets \<lparr> rs_mixer = mixer_new, rs_decoders = [], rs_sink = k, rs_frames = 0 \<rparr>) (\<lambda>s.
     ebind (sk_finish sk (rs_sink s)) (\<lambda>k. Inr (k, rs_frames s)))"

section \<open>WAV files\<close>

definition le16 :: "16 word \<Rightarrow> bytes" where
  "le16 w = [ucast w, ucast (drop_bit 8 w)]"

definition le32 :: "32 word \<Rightarrow> bytes" where
  "le32 w = [ucast w, ucast (drop_bit 8 w), ucast (drop_bit 16 w), ucast (drop_bit 24 w)]"

record wav_writer =
  ww_file :: bytes
  ww_channels :: "16 word"
  ww_sample_rate :: "32 word"
  ww_data_bytes :: "64 word"

definition wav_create :: "16 word \<Rightarrow> 32 word \<Rightarrow> wav_writer" where
  "wav_create channels sample_rate = \<lparr> ww_file = replicate 44 0, ww_channels = channels, ww_sample_rate = sample_rate, ww_data_bytes = 0 \<rparr>"

definition write_pcm :: "sample list \<Rightarrow> wav_writer \<Rightarrow> wav_writer" where
  "write_pcm pcm w = (let bytes = concat (map le16 pcm) in
     w\<lparr> ww_file := ww_file w @ bytes, ww_data_bytes := ww_data_bytes w + of_nat (length bytes) \<rparr>)"

definition wav_header :: "wav_writer \<Rightarrow> bytes" where
  "wav_header w =
     (let block_align = ww_channels w * 2; byte_rate = ww_sample_rate w * ucast block_align; total = 36 + ww_data_bytes w in
      str_bytes ''RIFF'' @ le32 (ucast total) @ str_bytes ''WAVE'' @ str_bytes ''fmt '' @ le32 16 @ le16 1 @ le16 (ww_channels w)
      @ le32 (ww_sample_rate w) @ le32 byte_rate @ le16 block_align @ le16 16 @ str_bytes ''data'' @ le32 (ucast (ww_data_bytes w)))"

definition wav_finish :: "wav_writer \<Rightarrow> wav_writer" where
  "wav_finish w = w\<lparr> ww_file := wav_header w @ drop (length (wav_header w)) (ww_file w) \<rparr>"

text \<open>The WAV sink, on a disk that does not fail, and the MP3 sink over the encoder.\<close>

definition wav_sink :: "wav_writer sink" where
  "wav_sink = \<lparr> sk_write = \<lambda>pcm w. Inr (write_pcm pcm w), sk_finish = \<lambda>w. Inr (wav_finish w) \<rparr>"

definition mp3_sink :: "('e \<Rightarrow> sample list \<Rightarrow> (string, 'e \<times> bytes) result) \<Rightarrow> ('e \<Rightarrow> (string, bytes) result) \<Rightarrow> ('e \<times> bytes) sink" where
  "mp3_sink encode flush =
     \<lparr> sk_write = \<lambda>pcm (e, file). ebind (encode e pcm) (\<lambda>(e, out). Inr (e, file @ out)),
       sk_finish = \<lambda>(e, file). ebind (flush e) (\<lambda>tail. Inr (e, file @ tail)) \<rparr>"

section \<open>The finished recording\<close>

definition finished_info :: "string \<Rightarrow> string \<Rightarrow> string \<Rightarrow> string \<Rightarrow> string \<Rightarrow> egress_request \<Rightarrow> nat \<Rightarrow> nat \<Rightarrow> int \<Rightarrow> egress_info" where
  "finished_info egress_id room_id room_name filename location request frames sz now =
     (let file = \<lparr> fi_filename = filename, fi_started_at = now, fi_ended_at = now, fi_duration = int (frames * 20), fi_size = int sz,
                   fi_location = location \<rparr> in
      egress_info_default\<lparr> ei_egress_id := egress_id, ei_room_id := room_id, ei_room_name := room_name, ei_status := EGRESS_COMPLETE,
        ei_started_at := now, ei_ended_at := now, ei_updated_at := now, ei_request := Some request, ei_result_file := Some file,
        ei_file_results := [file], ei_source_type := EGRESS_SOURCE_SDK \<rparr>)"

section \<open>Mixing does not clip\<close>

lemma sample_bounds: "- 32768 \<le> sint (w :: sample)" "sint (w :: sample) \<le> 32767"
  using sint_ge [of w] sint_lt [of w] by simp_all

lemma sint_clamped: "- 32768 \<le> a \<Longrightarrow> a \<le> 32767 \<Longrightarrow> sint (word_of_int (clamp_i16 a) :: sample) = a"
  by (simp add: sint_sbintrunc' clamp_i16_def signed_take_bit_int_eq_self)

lemma div_i32_bounds:
  assumes "0 < n" "- 32768 \<le> a" "a \<le> 32767"
  shows "- (32768 div n) \<le> div_i32 a n \<and> div_i32 a n \<le> 32767 div n"
proof (cases "a < 0")
  case True
  then have "(- a) div n \<le> 32768 div n" using assms by (intro zdiv_mono1) auto
  moreover have "0 \<le> (- a) div n" "0 \<le> 32767 div n" using assms True by (simp_all add: pos_imp_zdiv_nonneg_iff)
  ultimately show ?thesis using True by (simp add: div_i32_def)
next
  case False
  then have "a div n \<le> 32767 div n" using assms by (intro zdiv_mono1) auto
  moreover have "0 \<le> a div n" "0 \<le> 32768 div n" using assms False by (simp_all add: pos_imp_zdiv_nonneg_iff)
  ultimately show ?thesis using False by (simp add: div_i32_def)
qed

lemma mult_div_le_int: "0 < n \<Longrightarrow> n * (a div n) \<le> a" for a n :: int
  by (simp add: minus_mod_eq_mult_div [symmetric])

text \<open>The sample a track adds to a slot.\<close>

definition share :: "nat \<Rightarrow> sample list \<Rightarrow> nat \<Rightarrow> int" where
  "share n q i = (if i < length q then div_i32 (sint (q ! i)) (int n) else 0)"

lemma nth_mix_track:
  assumes "i < length frame"
  shows "mix_track (int n) frame q ! i = mix_slot (int n) (frame ! i) (if i < length q then q ! i else 0)"
  using assms by (simp add: mix_track_def nth_append)

lemma length_mix_track [simp]: "length (mix_track n frame q) = length frame"
  by (simp add: mix_track_def)

lemma mix_tracks_sum:
  assumes "0 < n" "k + length qs \<le> n" "i < length frame"
    and "- (int k * (32768 div int n)) \<le> sint (frame ! i)" "sint (frame ! i) \<le> int k * (32767 div int n)"
  shows "sint (foldl (mix_track (int n)) frame qs ! i) = sint (frame ! i) + (\<Sum>q \<leftarrow> qs. share n q i)"
  using assms(2-)
proof (induction qs arbitrary: frame k)
  case (Cons q qs)
  let ?s = "if i < length q then q ! i else 0"
  let ?d = "div_i32 (sint ?s) (int n)"
  have d: "- (32768 div int n) \<le> ?d" "?d \<le> 32767 div int n"
    using div_i32_bounds [of "int n" "sint ?s"] sample_bounds [of ?s] assms(1) by simp_all
  have sh: "?d = share n q i" by (simp add: share_def div_i32_def)
  have lo: "- (int (Suc k) * (32768 div int n)) \<le> sint (frame ! i) + ?d" and hi: "sint (frame ! i) + ?d \<le> int (Suc k) * (32767 div int n)"
    using Cons.prems(3,4) d by (simp_all add: algebra_simps)
  have kn: "int (Suc k) \<le> int n" using Cons.prems(1) by simp
  have "int (Suc k) * (32768 div int n) \<le> int n * (32768 div int n)" using kn assms(1) by (intro mult_right_mono) (simp_all add: pos_imp_zdiv_nonneg_iff)
  also have "\<dots> \<le> 32768" using assms(1) by (intro mult_div_le_int) simp
  finally have b1: "int (Suc k) * (32768 div int n) \<le> 32768" .
  have "int (Suc k) * (32767 div int n) \<le> int n * (32767 div int n)" using kn assms(1) by (intro mult_right_mono) (simp_all add: pos_imp_zdiv_nonneg_iff)
  also have "\<dots> \<le> 32767" using assms(1) by (intro mult_div_le_int) simp
  finally have b2: "int (Suc k) * (32767 div int n) \<le> 32767" .
  have v: "sint (mix_track (int n) frame q ! i) = sint (frame ! i) + ?d"
    unfolding nth_mix_track [OF Cons.prems(2)] mix_slot_def by (rule sint_clamped) (use lo hi b1 b2 in linarith)+
  have "sint (foldl (mix_track (int n)) (mix_track (int n) frame q) qs ! i)
      = sint (mix_track (int n) frame q ! i) + (\<Sum>q \<leftarrow> qs. share n q i)"
    by (rule Cons.IH [of "Suc k"]) (use Cons.prems(1,2) lo hi v in simp_all)
  then show ?case using v sh by simp
qed simp



section \<open>One track is recorded as it is\<close>

lemma write_pcm_append: "write_pcm (a @ b) w = write_pcm b (write_pcm a w)"
  by (simp add: write_pcm_def Let_def)

lemma write_pcm_Nil [simp]: "write_pcm [] w = w"
  by (simp add: write_pcm_def)

lemma mix_single: "mix_slot 1 0 s = s"
proof -
  have "clamp_i16 (sint s) = sint s" using sample_bounds [of s] by (simp add: clamp_i16_def)
  then show ?thesis by (simp add: mix_slot_def div_i32_def)
qed

lemma read_single:
  assumes "len \<le> length q"
  shows "read_frame len \<lparr> mx_tracks = [(cid, q)], mx_last_packet = l \<rparr> = (take len q, \<lparr> mx_tracks = [(cid, drop len q)], mx_last_packet = l \<rparr>)"
proof -
  have "mix_track 1 (replicate len 0) q = take len q"
    using assms by (intro nth_equalityI) (simp_all add: nth_mix_track [of _ _ 1, simplified] mix_single)
  then show ?thesis by (simp add: read_frame_def)
qed

lemma drain_single:
  "drain wav_sink \<lparr> mx_tracks = [(cid, q)], mx_last_packet = l \<rparr> w f =
   Inr (\<lparr> mx_tracks = [(cid, drop (960 * (length q div 960)) q)], mx_last_packet = l \<rparr>,
        write_pcm (take (960 * (length q div 960)) q) w, f + length q div 960)"
proof (induction "length q" arbitrary: q w f rule: less_induct)
  case less
  show ?case
  proof (cases "960 \<le> length q")
    case False
    then show ?thesis by (subst drain.simps) (simp add: FRAME_SAMPLES_def available_def)
  next
    case True
    define k where "k = (length q - 960) div 960"
    have k: "length q div 960 = Suc k" using True unfolding k_def by (simp add: le_div_geq)
    have "drain wav_sink \<lparr> mx_tracks = [(cid, q)], mx_last_packet = l \<rparr> w f =
        drain wav_sink \<lparr> mx_tracks = [(cid, drop 960 q)], mx_last_packet = l \<rparr> (write_pcm (take 960 q) w) (f + 1)"
      using True by (subst drain.simps) (simp add: FRAME_SAMPLES_def available_def read_single wav_sink_def)
    also have "\<dots> = Inr (\<lparr> mx_tracks = [(cid, drop (960 * k) (drop 960 q))], mx_last_packet = l \<rparr>,
        write_pcm (take (960 * k) (drop 960 q)) (write_pcm (take 960 q) w), f + 1 + k)"
      using less [of "drop 960 q"] True by (simp add: k_def)
    also have "write_pcm (take (960 * k) (drop 960 q)) (write_pcm (take 960 q) w) = write_pcm (take (960 * Suc k) q) w"
      by (simp add: write_pcm_append [symmetric] take_add [symmetric])
    finally show ?thesis by (simp add: k add.commute)
  qed
qed

text \<open>The state after packets of one track.\<close>

definition single_state :: "string \<Rightarrow> sample list \<Rightarrow> nat option \<Rightarrow> wav_writer rec_state \<Rightarrow> bool" where
  "single_state cid pcm t s \<longleftrightarrow>
     (case t of
        None \<Rightarrow> pcm = [] \<and> rs_mixer s = mixer_new
      | Some t \<Rightarrow> rs_mixer s = \<lparr> mx_tracks = [(cid, drop (960 * (length pcm div 960)) pcm)], mx_last_packet = [(cid, t)] \<rparr>)
     \<and> rs_frames s = length pcm div 960
     \<and> rs_sink s = write_pcm (take (960 * (length pcm div 960)) pcm) (wav_create 1 48000)"

lemma div_extend: "(a mod 960 + b) div 960 + a div 960 = (a + b) div 960" for a b :: nat
proof -
  have "a + b = (a mod 960 + b) + 960 * (a div 960)" using mod_mult_div_eq [of a 960] by linarith
  then have "(a + b) div 960 = ((a mod 960 + b) + 960 * (a div 960)) div 960" by (rule arg_cong)
  also have "\<dots> = a div 960 + (a mod 960 + b) div 960" by (rule div_mult_self2) simp
  finally show ?thesis by (simp only: add.commute)
qed

lemma regroup:
  assumes "n \<le> length xs"
  shows "take n xs @ take k (drop n xs @ ys) = take (n + k) (xs @ ys)" "drop k (drop n xs @ ys) = drop (n + k) (xs @ ys)"
proof -
  have e: "drop n (xs @ ys) = drop n xs @ ys" "take n (xs @ ys) = take n xs" using assms by simp_all
  show "take n xs @ take k (drop n xs @ ys) = take (n + k) (xs @ ys)" unfolding take_add e ..
  show "drop k (drop n xs @ ys) = drop (n + k) (xs @ ys)" unfolding e(1) [symmetric] drop_drop by (simp only: add.commute)
qed

lemma record_single:
  assumes "single_state cid pcm t s"
  shows "\<exists>s'. record_packet wav_sink \<lparr> ap_track_cid = cid, ap_decoded = Inr new, ap_at = now \<rparr> s = Inr s' \<and> single_state cid (pcm @ new) (Some now) s'"
proof -
  define f q k F where "f = length pcm div 960" and "q = drop (960 * f) pcm @ new" and "k = length q div 960" and "F = length (pcm @ new) div 960"
  have s: "rs_frames s = f" "rs_sink s = write_pcm (take (960 * f) pcm) (wav_create 1 48000)"
    using assms by (simp_all add: single_state_def f_def)
  have pu: "prune_stale now (mixer_push cid new now (rs_mixer s)) = ([], \<lparr> mx_tracks = [(cid, q)], mx_last_packet = [(cid, now)] \<rparr>)"
    using assms unfolding q_def f_def by (cases t) (auto simp: single_state_def mixer_push_def prune_stale_def mixer_new_def put_def look_def)
  have "length q = length pcm mod 960 + length new" by (simp add: q_def f_def minus_mult_div_eq_mod)
  then have kf: "f + k = F" using div_extend [of "length pcm" "length new"] by (simp add: k_def f_def F_def)
  have le: "960 * f \<le> length pcm" by (simp add: f_def)
  have n: "960 * f + 960 * k = 960 * F" using kf by (metis distrib_left)
  have tk: "take (960 * f) pcm @ take (960 * k) q = take (960 * F) (pcm @ new)" and dr: "drop (960 * k) q = drop (960 * F) (pcm @ new)"
    using regroup [OF le, of "960 * k" new] unfolding n q_def by blast+
  have dn: "drain wav_sink \<lparr> mx_tracks = [(cid, q)], mx_last_packet = [(cid, now)] \<rparr> (rs_sink s) (rs_frames s) =
      Inr (\<lparr> mx_tracks = [(cid, drop (960 * F) (pcm @ new))], mx_last_packet = [(cid, now)] \<rparr>,
           write_pcm (take (960 * F) (pcm @ new)) (wav_create 1 48000), F)"
    unfolding drain_single s k_def [symmetric] write_pcm_append [symmetric] tk dr kf ..
  show ?thesis unfolding record_packet_def Let_def single_state_def F_def [symmetric] by (simp add: pu dn)
qed

definition track_packet :: "string \<Rightarrow> sample list \<times> nat \<Rightarrow> audio_packet" where
  "track_packet cid p = \<lparr> ap_track_cid = cid, ap_decoded = Inr (fst p), ap_at = snd p \<rparr>"

lemma record_singles:
  "single_state cid pcm t s \<Longrightarrow>
   \<exists>s' t'. record_packets wav_sink (map (track_packet cid) ps) s = Inr s' \<and> single_state cid (pcm @ concat (map fst ps)) t' s'"
proof (induction ps arbitrary: pcm t s)
  case Nil
  then show ?case by auto
next
  case (Cons p ps)
  obtain s1 where "record_packet wav_sink (track_packet cid p) s = Inr s1" "single_state cid (pcm @ fst p) (Some (snd p)) s1"
    using record_single [OF Cons.prems, of "fst p" "snd p"] unfolding track_packet_def by blast
  with Cons.IH [OF this(2)] show ?case by simp
qed

lemma length_le16 [simp]: "length (concat (map le16 xs)) = 2 * length xs"
  by (induction xs) (simp_all add: le16_def)

lemma length_wav_header [simp]: "length (wav_header w) = 44"
  by (simp add: wav_header_def le16_def le32_def str_bytes_def Let_def)

lemma wav_fields: "ww_channels (write_pcm p w) = ww_channels w" "ww_sample_rate (write_pcm p w) = ww_sample_rate w"
  by (simp_all add: write_pcm_def Let_def)

lemma ucast_of_nat_32: "(ucast (of_nat n :: 64 word) :: 32 word) = of_nat n"
  by transfer (simp add: take_bit_take_bit)

lemma header_length_32: "(ucast (36 + of_nat n :: 64 word) :: 32 word) = of_nat (36 + n)"
  unfolding ucast_of_nat_32 [symmetric] by simp

text \<open>C27: a recording with one track keeps it sample for sample, up to an incomplete last
  frame: the file is a RIFF header followed by the samples of the whole frames in
  order, both lengths of the header count them, and the number of frames is reported.\<close>

theorem single_track_recorded:
  assumes "pcm = concat (map fst ps)" "k = length pcm div 960"
  shows "\<exists>w. run_recording wav_sink (wav_create 1 48000) (map (track_packet cid) ps) = Inr (w, k)
    \<and> ww_file w = str_bytes ''RIFF'' @ le32 (of_nat (36 + 1920 * k)) @ str_bytes ''WAVEfmt '' @ le32 16 @ le16 1 @ le16 1
        @ le32 48000 @ le32 96000 @ le16 2 @ le16 16 @ str_bytes ''data'' @ le32 (of_nat (1920 * k)) @ concat (map le16 (take (960 * k) pcm))"
proof -
  let ?s0 = "\<lparr> rs_mixer = mixer_new, rs_decoders = [], rs_sink = wav_create 1 48000, rs_frames = 0 \<rparr> :: wav_writer rec_state"
  have "single_state cid [] None ?s0" by (simp add: single_state_def)
  from record_singles [OF this, of ps] obtain s t where s: "record_packets wav_sink (map (track_packet cid) ps) ?s0 = Inr s" "single_state cid pcm t s"
    unfolding assms(1) by auto
  let ?w = "write_pcm (take (960 * k) pcm) (wav_create 1 48000)"
  have st: "rs_frames s = k" "rs_sink s = ?w" using s(2) assms(2) by (simp_all add: single_state_def)
  have r: "run_recording wav_sink (wav_create 1 48000) (map (track_packet cid) ps) = Inr (wav_finish ?w, k)"
    unfolding run_recording_def s(1) by (simp add: st wav_sink_def)
  have l: "length (take (960 * k) pcm) = 960 * k" using assms(2) by simp
  have d: "ww_data_bytes ?w = of_nat (1920 * k)" using l by (simp add: write_pcm_def Let_def wav_create_def del: length_take)
  have f: "drop 44 (ww_file ?w) = concat (map le16 (take (960 * k) pcm))" by (simp add: write_pcm_def Let_def wav_create_def)
  have h: "wav_header ?w = str_bytes ''RIFF'' @ le32 (of_nat (36 + 1920 * k)) @ str_bytes ''WAVEfmt '' @ le32 16 @ le16 1 @ le16 1
        @ le32 48000 @ le32 96000 @ le16 2 @ le16 16 @ str_bytes ''data'' @ le32 (of_nat (1920 * k))"
    unfolding wav_header_def d Let_def wav_fields header_length_32 ucast_of_nat_32 by (simp add: wav_create_def str_bytes_def)
  have "ww_file (wav_finish ?w) = wav_header ?w @ concat (map le16 (take (960 * k) pcm))"
    unfolding wav_finish_def length_wav_header by (simp add: f)
  with r show ?thesis unfolding h by (intro exI [of _ "wav_finish ?w"]) simp
qed

text \<open>Two packets of 600 samples give one frame of 960 and leave 240 unwritten.\<close>

theorem single_track_recorded_witness:
  "\<exists>w. run_recording wav_sink (wav_create 1 48000) (map (track_packet ''TR_a'') [(replicate 600 7, 0), (replicate 600 9, 20)]) = Inr (w, 1)
    \<and> ww_file w = str_bytes ''RIFF'' @ le32 (of_nat (36 + 1920 * 1)) @ str_bytes ''WAVEfmt '' @ le32 16 @ le16 1 @ le16 1
        @ le32 48000 @ le32 96000 @ le16 2 @ le16 16 @ str_bytes ''data'' @ le32 (of_nat (1920 * 1))
        @ concat (map le16 (take (960 * 1) (replicate 600 7 @ replicate 600 9)))"
  by (rule single_track_recorded) simp_all

end
