(* ===== verification/Egress_Upload.thy ===== *)
theory Egress_Upload
  imports Egress_Types
begin

text \<open>
  Where a recording goes (\<open>lk-egress/src/config.rs\<close>, the destinations of
  \<open>lk-egress/src/server.rs\<close>, \<open>upload.rs\<close> and \<open>sts.rs\<close>): the configuration of the recorder, the
  choice of a destination, the upload and the temporary credentials.  The object stores,
  the signature of a request to the token service and the XML reader are arguments.
\<close>

section \<open>Configuration\<close>

record s3_config =
  sc3_access_key :: string
  sc3_secret :: string
  sc3_session_token :: string
  sc3_region :: string
  sc3_endpoint :: string
  sc3_bucket :: string
  sc3_force_path_style :: bool
  sc3_metadata :: attrs
  sc3_tagging :: string
  sc3_content_disposition :: string
  sc3_assume_role_arn :: string
  sc3_assume_role_external_id :: string
  sc3_proxy :: "(string \<times> string \<times> string) option"

record gcp_config =
  gcc_credentials :: string
  gcc_bucket :: string
  gcc_metadata :: attrs
  gcc_tagging :: string
  gcc_content_disposition :: string

record azure_config =
  azc_account_name :: string
  azc_account_key :: string
  azc_container_name :: string
  azc_metadata :: attrs
  azc_tagging :: string
  azc_content_disposition :: string

record redis_config =
  rdc_address :: string
  rdc_username :: string
  rdc_password :: string
  rdc_db :: int
  rdc_use_tls :: bool

text \<open>The cost of a recording is a number of processors: a float, \<open>m * 2 ^ e\<close> with at most 53
  bits, or one of the special values.\<close>

datatype f64 = F64 int int | F64_Inf | F64_NegInf | F64_NaN

record egress_config =
  ec_api_key :: string
  ec_api_secret :: string
  ec_ws_url :: string
  ec_output_dir :: string
  ec_redis :: redis_config
  ec_mp3_bitrate :: int
  ec_prometheus_port :: "16 word"
  ec_logging_level :: string
  ec_log_level :: string
  ec_s3 :: "s3_config option"
  ec_gcp :: "gcp_config option"
  ec_azure :: "azure_config option"
  ec_alioss :: "ali_upload option"
  ec_insecure :: bool
  ec_cpu_cost :: "f64 option"
  ec_s3_assume_role_key :: string
  ec_s3_assume_role_secret :: string
  ec_s3_assume_role_arn :: string
  ec_s3_assume_role_external_id :: string

definition egress_config_default :: egress_config where
  "egress_config_default =
     \<lparr> ec_api_key = [], ec_api_secret = [], ec_ws_url = ''ws://127.0.0.1:7880'', ec_output_dir = ''/out'',
       ec_redis = \<lparr> rdc_address = [], rdc_username = [], rdc_password = [], rdc_db = 0, rdc_use_tls = False \<rparr>,
       ec_mp3_bitrate = 64, ec_prometheus_port = 0, ec_logging_level = ''info'', ec_log_level = [],
       ec_s3 = None, ec_gcp = None, ec_azure = None, ec_alioss = None, ec_insecure = False, ec_cpu_cost = None,
       ec_s3_assume_role_key = [], ec_s3_assume_role_secret = [], ec_s3_assume_role_arn = [],
       ec_s3_assume_role_external_id = [] \<rparr>"

definition effective_log_level :: "egress_config \<Rightarrow> string" where
  "effective_log_level conf = (if ec_log_level conf \<noteq> [] then ec_log_level conf else ec_logging_level conf)"

text \<open>The start of the recorder: a body wins over a file, a file over the defaults, and the
  mode for development fills in keys.  Reading the file and the YAML are arguments.\<close>

definition load_config ::
    "(string \<Rightarrow> (string, egress_config) result) \<Rightarrow> (string \<Rightarrow> (string, string) result) \<Rightarrow> string option \<Rightarrow> string option \<Rightarrow> bool \<Rightarrow>
     (string, egress_config) result" where
  "load_config yaml read path body dev =
     (case body of
        Some b \<Rightarrow> yaml b
      | None \<Rightarrow>
          (case path of
             Some p \<Rightarrow> ebind (map_sum (\<lambda>e. ''failed to read config '' @ p @ '': '' @ e) id (read p)) yaml
           | None \<Rightarrow> Inr
               (if dev
                then egress_config_default\<lparr> ec_api_key := ''devkey'', ec_api_secret := ''secret'', ec_output_dir := ''/tmp'',
                       ec_redis := \<lparr> rdc_address = ''127.0.0.1:6379'', rdc_username = [], rdc_password = [], rdc_db = 0,
                                     rdc_use_tls = False \<rparr> \<rparr>
                else egress_config_default)))"

section \<open>Destinations\<close>

record s3_target =
  ts_access_key :: string
  ts_secret :: string
  ts_session_token :: string
  ts_region :: string
  ts_endpoint :: string
  ts_bucket :: string
  ts_force_path_style :: bool
  ts_metadata :: attrs
  ts_tagging :: string
  ts_content_disposition :: string
  ts_assume_role_arn :: string
  ts_assume_role_external_id :: string

record gcp_target =
  tg_credentials :: string
  tg_bucket :: string
  tg_metadata :: attrs
  tg_tagging :: string
  tg_content_disposition :: string

record azure_target =
  ta_account_name :: string
  ta_account_key :: string
  ta_container_name :: string
  ta_metadata :: attrs
  ta_tagging :: string
  ta_content_disposition :: string

datatype destination = DestLocal | DestS3 s3_target | DestGcp gcp_target | DestAzure azure_target

definition unsupported_alioss :: string where
  "unsupported_alioss = ''aliOSS upload is not supported on the voice-only recorder''"

definition s3_destination :: "s3_upload \<Rightarrow> egress_config \<Rightarrow> (string, destination) result" where
  "s3_destination s3 conf =
     (if s3_proxy s3 \<noteq> None then Inl ''s3 proxy is not supported on the voice-only recorder''
      else
        let arn = (if s3_assume_role_arn s3 = [] then ec_s3_assume_role_arn conf else s3_assume_role_arn s3);
            external_id = (if s3_assume_role_external_id s3 = [] then ec_s3_assume_role_external_id conf
                           else s3_assume_role_external_id s3);
            (access_key, secret) =
              (if arn \<noteq> [] \<and> s3_access_key s3 = [] then (ec_s3_assume_role_key conf, ec_s3_assume_role_secret conf)
               else (s3_access_key s3, s3_secret s3)) in
        Inr (DestS3 \<lparr> ts_access_key = access_key, ts_secret = secret, ts_session_token = s3_session_token s3,
               ts_region = s3_region s3, ts_endpoint = s3_endpoint s3, ts_bucket = s3_bucket s3,
               ts_force_path_style = s3_force_path_style s3, ts_metadata = s3_metadata s3, ts_tagging = s3_tagging s3,
               ts_content_disposition = s3_content_disposition s3, ts_assume_role_arn = arn,
               ts_assume_role_external_id = external_id \<rparr>))"

definition gcp_destination :: "gcp_upload \<Rightarrow> (string, destination) result" where
  "gcp_destination g =
     (if gc_proxy g \<noteq> None then Inl ''gcp proxy is not supported on the voice-only recorder''
      else Inr (DestGcp \<lparr> tg_credentials = gc_credentials g, tg_bucket = gc_bucket g, tg_metadata = [], tg_tagging = [],
                          tg_content_disposition = [] \<rparr>))"

definition azure_destination :: "azure_upload \<Rightarrow> destination" where
  "azure_destination a =
     DestAzure \<lparr> ta_account_name = az_account_name a, ta_account_key = az_account_key a, ta_container_name = az_container_name a,
       ta_metadata = [], ta_tagging = [], ta_content_disposition = [] \<rparr>"

definition conf_default :: "egress_config \<Rightarrow> (string, destination) result" where
  "conf_default conf =
     (case ec_s3 conf of
        Some c \<Rightarrow>
          if sc3_proxy c \<noteq> None then Inl ''s3 proxy is not supported on the voice-only recorder''
          else
            let arn = (if sc3_assume_role_arn c = [] then ec_s3_assume_role_arn conf else sc3_assume_role_arn c);
                external_id = (if sc3_assume_role_external_id c = [] then ec_s3_assume_role_external_id conf
                               else sc3_assume_role_external_id c);
                (access_key, secret) =
                  (if arn \<noteq> [] \<and> sc3_access_key c = [] then (ec_s3_assume_role_key conf, ec_s3_assume_role_secret conf)
                   else (sc3_access_key c, sc3_secret c)) in
            Inr (DestS3 \<lparr> ts_access_key = access_key, ts_secret = secret, ts_session_token = sc3_session_token c,
                   ts_region = sc3_region c, ts_endpoint = sc3_endpoint c, ts_bucket = sc3_bucket c,
                   ts_force_path_style = sc3_force_path_style c, ts_metadata = sc3_metadata c, ts_tagging = sc3_tagging c,
                   ts_content_disposition = sc3_content_disposition c, ts_assume_role_arn = arn,
                   ts_assume_role_external_id = external_id \<rparr>)
      | None \<Rightarrow>
          (case ec_gcp conf of
             Some g \<Rightarrow> Inr (DestGcp \<lparr> tg_credentials = gcc_credentials g, tg_bucket = gcc_bucket g,
                         tg_metadata = gcc_metadata g, tg_tagging = gcc_tagging g,
                         tg_content_disposition = gcc_content_disposition g \<rparr>)
           | None \<Rightarrow>
               (case ec_azure conf of
                  Some a \<Rightarrow> Inr (DestAzure \<lparr> ta_account_name = azc_account_name a, ta_account_key = azc_account_key a,
                              ta_container_name = azc_container_name a, ta_metadata = azc_metadata a,
                              ta_tagging = azc_tagging a, ta_content_disposition = azc_content_disposition a \<rparr>)
                | None \<Rightarrow> if ec_alioss conf \<noteq> None then Inl unsupported_alioss else Inr DestLocal)))"

text \<open>The four branches that encoded outputs, direct outputs and storages have in common.\<close>

fun upload_destination :: "upload_cfg option \<Rightarrow> egress_config \<Rightarrow> (string, destination) result" where
  "upload_destination (Some (UpS3 s3)) conf = s3_destination s3 conf"
| "upload_destination (Some (UpGcp g)) conf = gcp_destination g"
| "upload_destination (Some (UpAzure a)) conf = Inr (azure_destination a)"
| "upload_destination (Some (UpAliOss _)) conf = Inl unsupported_alioss"
| "upload_destination None conf = conf_default conf"

definition direct_destination :: "direct_output \<Rightarrow> egress_config \<Rightarrow> (string, destination) result" where
  "direct_destination f conf = upload_destination (do_output f) conf"

definition storage_destination :: "upload_cfg option \<Rightarrow> egress_config \<Rightarrow> (string, destination) result" where
  "storage_destination provider conf = upload_destination provider conf"

section \<open>Recording requests\<close>

datatype output_format = FmtWav | FmtMp3

definition encoded_format :: "int \<Rightarrow> output_format" where
  "encoded_format file_type = (if file_type = 3 then FmtMp3 else FmtWav)"

definition encoded_spec :: "encoded_output \<Rightarrow> egress_config \<Rightarrow> (string, output_format \<times> destination \<times> string) result" where
  "encoded_spec f conf =
     ebind (upload_destination (eo_output f) conf) (\<lambda>dest. Inr (encoded_format (eo_file_type f), dest, eo_filepath f))"

record rec_spec =
  rp_room :: string
  rp_format :: output_format
  rp_destination :: destination
  rp_filepath :: string
  rp_bitrate :: int

definition default_spec :: "egress_config \<Rightarrow> (string, output_format \<times> destination \<times> string) result" where
  "default_spec conf = ebind (conf_default conf) (\<lambda>dest. Inr (FmtWav, dest, []))"

definition file_spec :: "encoded_output option \<Rightarrow> egress_config \<Rightarrow> (string, output_format \<times> destination \<times> string) result" where
  "file_spec file conf = (case file of Some f \<Rightarrow> encoded_spec f conf | None \<Rightarrow> default_spec conf)"

definition first_of :: "'a list \<Rightarrow> 'a option" where
  "first_of xs = (case xs of [] \<Rightarrow> None | x # _ \<Rightarrow> Some x)"

definition chosen_file :: "single_output option \<Rightarrow> output_lists \<Rightarrow> encoded_output option" where
  "chosen_file one ol = (case one of Some (OneFile f) \<Rightarrow> Some f | _ \<Rightarrow> first_of (ol_file_outputs ol))"

definition mk_spec :: "string \<Rightarrow> int \<Rightarrow> (string, output_format \<times> destination \<times> string) result \<Rightarrow> (string, rec_spec) result" where
  "mk_spec room bitrate r =
     ebind r (\<lambda>(fmt, dest, path). Inr \<lparr> rp_room = room, rp_format = fmt, rp_destination = dest, rp_filepath = path, rp_bitrate = bitrate \<rparr>)"

definition output_spec :: "output_v2 \<Rightarrow> egress_config \<Rightarrow> (string, output_format \<times> destination \<times> string) result" where
  "output_spec o2 conf =
     ebind (case o2_storage o2 of Some s \<Rightarrow> storage_destination s conf | None \<Rightarrow> conf_default conf) (\<lambda>dest. Inr
       (case o2_config o2 of
          Some (ConfFile f) \<Rightarrow> (encoded_format (fc_file_type f), dest, fc_filepath f)
        | _ \<Rightarrow> (FmtWav, dest, [])))"

fun rec_spec_of :: "egress_request option \<Rightarrow> egress_config \<Rightarrow> (string, rec_spec) result" where
  "rec_spec_of (Some (RqRoomComposite r)) conf =
     mk_spec (rc_room_name r) (case rc_options r of Some (EncAdvanced b) \<Rightarrow> b | _ \<Rightarrow> 0)
       (file_spec (chosen_file (rc_output r) (rc_outputs r)) conf)"
| "rec_spec_of (Some (RqTrack r)) conf =
     mk_spec (tk_room_name r) 0
       (case tk_output r of
          Some (TrackFile f) \<Rightarrow> ebind (direct_destination f conf) (\<lambda>dest. Inr (FmtWav, dest, do_filepath f))
        | _ \<Rightarrow> default_spec conf)"
| "rec_spec_of (Some (RqParticipant r)) conf =
     mk_spec (pr_room_name r) 0 (file_spec (first_of (ol_file_outputs (pr_outputs r))) conf)"
| "rec_spec_of (Some (RqTrackComposite r)) conf =
     mk_spec (tc_room_name r) 0 (file_spec (chosen_file (tc_output r) (tc_outputs r)) conf)"
| "rec_spec_of (Some (RqEgress r)) conf =
     mk_spec (sr_room_name r) 0 (case first_of (sr_outputs r) of Some o2 \<Rightarrow> output_spec o2 conf | None \<Rightarrow> default_spec conf)"
| "rec_spec_of _ conf = Inl ''web/replay egress is not supported on the voice-only recorder''"

definition storage_key :: "string \<Rightarrow> string \<Rightarrow> string \<Rightarrow> string" where
  "storage_key filepath egress_id ext =
     (if filepath = [] then egress_id @ ''.'' @ ext
      else if ends_with (''.'' @ ext) filepath then filepath
      else filepath @ ''.'' @ ext)"

section \<open>Temporary credentials\<close>

text \<open>The characters of \<open>FORM_SAFE\<close>, and everything outside printable ASCII, are escaped.\<close>

definition FORM_SAFE :: string where
  "FORM_SAFE = [CHR 0x20, CHR 0x22, CHR 0x23, CHR 0x25, CHR 0x26, CHR 0x2B, CHR 0x2C, CHR 0x2F, CHR 0x3A, CHR 0x3B, CHR 0x3C,
     CHR 0x3E, CHR 0x3F, CHR 0x40, CHR 0x5B, CHR 0x5D, CHR 0x5E, CHR 0x60, CHR 0x7B, CHR 0x7C, CHR 0x7D, CHR 0x3D]"

definition form_escaped :: "char \<Rightarrow> bool" where
  "form_escaped c \<longleftrightarrow> of_char c < (32 :: nat) \<or> (127 :: nat) \<le> of_char c \<or> c \<in> set FORM_SAFE"

definition upper_hex :: "nat \<Rightarrow> char" where
  "upper_hex n = ''0123456789ABCDEF'' ! n"

definition form_encode :: "string \<Rightarrow> string" where
  "form_encode s =
     concat (map (\<lambda>c. if form_escaped c then [CHR 0x25, upper_hex (of_char c div 16), upper_hex (of_char c mod 16)] else [c]) s)"

definition sts_region :: "string \<Rightarrow> string" where
  "sts_region region = (if region = [] \<or> region = ''auto'' then ''us-east-1'' else region)"

definition sts_body :: "string \<Rightarrow> string \<Rightarrow> string" where
  "sts_body role_arn external_id =
     ''Action=AssumeRole&Version=2011-06-15&RoleArn='' @ form_encode role_arn @ ''&RoleSessionName=livekit-egress''
     @ (if external_id \<noteq> [] then ''&ExternalId='' @ form_encode external_id else [])"

definition sts_uri :: "string \<Rightarrow> string" where
  "sts_uri region = ''https://sts.'' @ sts_region region @ ''.amazonaws.com/''"

record temp_credentials =
  tc_access_key_id :: string
  tc_secret_access_key :: string
  tc_session_token :: string

text \<open>The events of the XML reader; the reader ends with \<open>XEof\<close> or an error.\<close>

datatype xml_event = XStart string | XText "(string, string) result" | XEnd string | XEof | XErr string | XOther

record xml_scan =
  xs_access :: string
  xs_secret :: string
  xs_token :: string
  xs_in_access :: bool
  xs_in_secret :: bool
  xs_in_token :: bool

definition scan_new :: xml_scan where
  "scan_new = \<lparr> xs_access = [], xs_secret = [], xs_token = [], xs_in_access = False, xs_in_secret = False, xs_in_token = False \<rparr>"

definition scan_flag :: "string \<Rightarrow> bool \<Rightarrow> xml_scan \<Rightarrow> xml_scan" where
  "scan_flag nm b s =
     (if nm = ''AccessKeyId'' then s\<lparr> xs_in_access := b \<rparr>
      else if nm = ''SecretAccessKey'' then s\<lparr> xs_in_secret := b \<rparr>
      else if nm = ''SessionToken'' then s\<lparr> xs_in_token := b \<rparr>
      else s)"

definition scan_text :: "string \<Rightarrow> xml_scan \<Rightarrow> xml_scan" where
  "scan_text t s =
     (if xs_in_access s then s\<lparr> xs_access := t \<rparr>
      else if xs_in_secret s then s\<lparr> xs_secret := t \<rparr>
      else if xs_in_token s then s\<lparr> xs_token := t \<rparr>
      else s)"

fun scan_events :: "xml_event list \<Rightarrow> xml_scan \<Rightarrow> (string, xml_scan) result" where
  "scan_events [] s = Inr s"
| "scan_events (XStart nm # es) s = scan_events es (scan_flag nm True s)"
| "scan_events (XText (Inr t) # es) s = scan_events es (scan_text t s)"
| "scan_events (XText (Inl e) # es) s = Inl e"
| "scan_events (XEnd nm # es) s = scan_events es (scan_flag nm False s)"
| "scan_events (XEof # es) s = Inr s"
| "scan_events (XErr e # es) s = Inl (''sts xml parse: '' @ e)"
| "scan_events (XOther # es) s = scan_events es s"

definition show_bool :: "bool \<Rightarrow> string" where
  "show_bool b = (if b then ''true'' else ''false'')"

definition parse_credentials :: "xml_event list \<Rightarrow> (string, temp_credentials) result" where
  "parse_credentials events =
     ebind (scan_events events scan_new) (\<lambda>s.
       if xs_access s = [] \<or> xs_secret s = [] \<or> xs_token s = []
       then Inl (''sts response missing credentials (access='' @ show_bool (xs_access s \<noteq> []) @ '', secret='' @ show_bool (xs_secret s \<noteq> [])
              @ '', token='' @ show_bool (xs_token s \<noteq> []) @ '')'')
       else Inr \<lparr> tc_access_key_id = xs_access s, tc_secret_access_key = xs_secret s, tc_session_token = xs_token s \<rparr>)"

fun scan_message :: "xml_event list \<Rightarrow> bool \<Rightarrow> string \<Rightarrow> string" where
  "scan_message [] inside msg = msg"
| "scan_message (XStart nm # es) inside msg = scan_message es (nm = ''Message'' \<or> inside) msg"
| "scan_message (XText (Inr t) # es) inside msg = scan_message es inside (if inside then t else msg)"
| "scan_message (XText (Inl e) # es) inside msg = scan_message es inside msg"
| "scan_message (XEnd nm # es) inside msg = scan_message es (nm \<noteq> ''Message'' \<and> inside) msg"
| "scan_message (XEof # es) inside msg = msg"
| "scan_message (XErr e # es) inside msg = msg"
| "scan_message (XOther # es) inside msg = scan_message es inside msg"

text \<open>The first \<open>n\<close> characters: continuation bytes belong to the character before them.\<close>

fun take_chars :: "nat \<Rightarrow> string \<Rightarrow> string" where
  "take_chars n [] = []"
| "take_chars n (c # cs) =
     (if utf8_cont (of_char c) then c # take_chars n cs else case n of 0 \<Rightarrow> [] | Suc m \<Rightarrow> c # take_chars m cs)"

definition error_message :: "(string \<Rightarrow> xml_event list) \<Rightarrow> string \<Rightarrow> string" where
  "error_message xml_events xml =
     (let msg = scan_message (xml_events xml) False [] in if msg = [] then take_chars 200 xml else msg)"

text \<open>The call: \<open>tp_post\<close> signs the body with the base credentials for the region and sends it;
  it returns whether the status is a success, the status and the body of the answer.\<close>

record sts_port =
  tp_post :: "string \<times> string \<times> string option \<Rightarrow> string \<Rightarrow> string \<Rightarrow> string \<Rightarrow> (string, bool \<times> string \<times> string) result"
  tp_events :: "string \<Rightarrow> xml_event list"

definition assume_role ::
    "sts_port \<Rightarrow> string \<Rightarrow> string \<Rightarrow> string \<Rightarrow> string \<Rightarrow> string \<Rightarrow> string \<Rightarrow> (string, temp_credentials) result" where
  "assume_role sts base_access_key base_secret base_session_token region role_arn external_id =
     (let token = (if base_session_token = [] then None else Some base_session_token) in
      ebind (tp_post sts (base_access_key, base_secret, token) (sts_region region) (sts_uri region) (sts_body role_arn external_id))
        (\<lambda>(success, status, body).
        if \<not> success then Inl (''sts assume role failed ('' @ status @ ''): '' @ error_message (tp_events sts) body)
        else parse_credentials (tp_events sts body)))"

section \<open>Upload\<close>

definition content_type_for :: "string \<Rightarrow> string option" where
  "content_type_for key =
     (if ends_with ''.mp3'' key then Some ''audio/mpeg'' else if ends_with ''.wav'' key then Some ''audio/wav'' else None)"

definition tag_of :: "string \<Rightarrow> (string \<times> string) option" where
  "tag_of part =
     (let (k, v) = (case split_once (CHR ''='') part of Some (k, v) \<Rightarrow> (trim k, trim v) | None \<Rightarrow> (trim part, [])) in
      if k = [] then None else Some (k, v))"

definition parse_tagging :: "string \<Rightarrow> attrs" where
  "parse_tagging tagging = fold (\<lambda>(k, v). put k v) (List.map_filter tag_of (split_on (CHR ''&'') tagging)) []"

datatype object_attr = AttrMetadata string | AttrContentDisposition | AttrContentType

record put_opts =
  po_tags :: "(string \<times> string) list"
  po_attributes :: "(object_attr, string) assoc"

definition put_options :: "attrs \<Rightarrow> string \<Rightarrow> string \<Rightarrow> string option \<Rightarrow> put_opts" where
  "put_options metadata tagging content_disposition content_type =
     (let at = fold (\<lambda>(k, v). put (AttrMetadata k) v) metadata [];
          at = (if content_disposition \<noteq> [] then put AttrContentDisposition content_disposition at else at);
          at = (case content_type of Some ct \<Rightarrow> put AttrContentType ct at | None \<Rightarrow> at) in
      \<lparr> po_tags = parse_tagging tagging, po_attributes = at \<rparr>)"

definition trim_end_slashes :: "string \<Rightarrow> string" where
  "trim_end_slashes s = rev (dropWhile (\<lambda>c. c = CHR ''/'') (rev s))"

definition object_url :: "s3_target \<Rightarrow> string \<Rightarrow> string" where
  "object_url s3 key =
     (if ts_endpoint s3 \<noteq> [] then trim_end_slashes (ts_endpoint s3) @ ''/'' @ ts_bucket s3 @ ''/'' @ key
      else if ts_force_path_style s3 then ''https://s3.'' @ ts_region s3 @ ''.amazonaws.com/'' @ ts_bucket s3 @ ''/'' @ key
      else ''https://'' @ ts_bucket s3 @ ''.s3.'' @ ts_region s3 @ ''.amazonaws.com/'' @ key)"

text \<open>What the code sets on the builders; an object store is built from it or refuses it.\<close>

record s3_client =
  s3c_bucket :: string
  s3c_access_key_id :: string
  s3c_secret_access_key :: string
  s3c_region :: string
  s3c_token :: "string option"
  s3c_endpoint :: "string option"
  s3c_allow_http :: bool
  s3c_virtual_hosted :: bool

type_synonym store_put = "string \<Rightarrow> bytes \<Rightarrow> put_opts \<Rightarrow> (string, unit) result"

record object_stores =
  os_s3 :: "s3_client \<Rightarrow> (string, store_put) result"
  os_gcp :: "string \<Rightarrow> string \<Rightarrow> (string, store_put) result"
  os_azure :: "string \<Rightarrow> string \<Rightarrow> string \<Rightarrow> (string, store_put) result"
  os_sts :: sts_port

definition s3_credentials :: "object_stores \<Rightarrow> s3_target \<Rightarrow> (string, string \<times> string \<times> string) result" where
  "s3_credentials os s3 =
     (if ts_assume_role_arn s3 \<noteq> []
      then ebind (assume_role (os_sts os) (ts_access_key s3) (ts_secret s3) (ts_session_token s3) (ts_region s3)
             (ts_assume_role_arn s3) (ts_assume_role_external_id s3)) (\<lambda>t.
             Inr (tc_access_key_id t, tc_secret_access_key t, tc_session_token t))
      else Inr (ts_access_key s3, ts_secret s3, ts_session_token s3))"

definition s3_client_of :: "s3_target \<Rightarrow> string \<times> string \<times> string \<Rightarrow> s3_client" where
  "s3_client_of s3 creds =
     (let (access_key, secret, session_token) = creds;
          region = (if ts_region s3 = [] \<or> ts_region s3 = ''auto'' then ''auto'' else ts_region s3) in
      \<lparr> s3c_bucket = ts_bucket s3, s3c_access_key_id = access_key, s3c_secret_access_key = secret, s3c_region = region,
        s3c_token = (if session_token \<noteq> [] then Some session_token else None),
        s3c_endpoint = (if ts_endpoint s3 \<noteq> [] then Some (ts_endpoint s3) else None),
        s3c_allow_http = (ts_endpoint s3 \<noteq> []),
        s3c_virtual_hosted = (if ts_endpoint s3 \<noteq> [] then False else \<not> ts_force_path_style s3) \<rparr>)"

definition put_s3 :: "object_stores \<Rightarrow> s3_target \<Rightarrow> string \<Rightarrow> bytes \<Rightarrow> (string, string) result" where
  "put_s3 os s3 key bytes =
     ebind (s3_credentials os s3) (\<lambda>creds.
     ebind (map_sum (\<lambda>e. ''s3 config: '' @ e) id (os_s3 os (s3_client_of s3 creds))) (\<lambda>store.
     ebind (map_sum (\<lambda>e. ''s3 upload '' @ key @ '': '' @ e) id
       (store key bytes (put_options (ts_metadata s3) (ts_tagging s3) (ts_content_disposition s3) (content_type_for key)))) (\<lambda>_.
     Inr (object_url s3 key))))"

definition put_gcp :: "object_stores \<Rightarrow> gcp_target \<Rightarrow> string \<Rightarrow> bytes \<Rightarrow> (string, string) result" where
  "put_gcp os g key bytes =
     ebind (map_sum (\<lambda>e. ''gcp config: '' @ e) id (os_gcp os (tg_bucket g) (tg_credentials g))) (\<lambda>store.
     ebind (map_sum (\<lambda>e. ''gcp upload '' @ key @ '': '' @ e) id
       (store key bytes (put_options (tg_metadata g) (tg_tagging g) (tg_content_disposition g) (content_type_for key)))) (\<lambda>_.
     Inr (''https://storage.googleapis.com/'' @ tg_bucket g @ ''/'' @ key)))"

definition put_azure :: "object_stores \<Rightarrow> azure_target \<Rightarrow> string \<Rightarrow> bytes \<Rightarrow> (string, string) result" where
  "put_azure os a key bytes =
     ebind (map_sum (\<lambda>e. ''azure config: '' @ e) id (os_azure os (ta_account_name a) (ta_account_key a) (ta_container_name a))) (\<lambda>store.
     ebind (map_sum (\<lambda>e. ''azure upload '' @ key @ '': '' @ e) id
       (store key bytes (put_options (ta_metadata a) (ta_tagging a) (ta_content_disposition a) (content_type_for key)))) (\<lambda>_.
     Inr (''https://'' @ ta_account_name a @ ''.blob.core.windows.net/'' @ ta_container_name a @ ''/'' @ key)))"

text \<open>The disk: \<open>stat\<close> is the size of the file, \<open>content\<close> what reading it gives.\<close>

definition upload ::
    "object_stores \<Rightarrow> (string, nat) result \<Rightarrow> (string, bytes) result \<Rightarrow> string \<Rightarrow> string \<Rightarrow> destination \<Rightarrow> (string, string \<times> nat) result" where
  "upload os stat content local_path key dest =
     ebind (map_sum (\<lambda>e. ''stat '' @ local_path @ '': '' @ e) id stat) (\<lambda>sz.
       (case dest of
          DestLocal \<Rightarrow> Inr (local_path, sz)
        | DestS3 s3 \<Rightarrow> ebind content (\<lambda>bytes. ebind (put_s3 os s3 key bytes) (\<lambda>location. Inr (location, sz)))
        | DestGcp g \<Rightarrow> ebind content (\<lambda>bytes. ebind (put_gcp os g key bytes) (\<lambda>location. Inr (location, sz)))
        | DestAzure a \<Rightarrow> ebind content (\<lambda>bytes. ebind (put_azure os a key bytes) (\<lambda>location. Inr (location, sz)))))"

section \<open>The form of a request for credentials\<close>

text \<open>The reading of an escaped value.\<close>

definition hex_value :: "char \<Rightarrow> nat" where
  "hex_value c = (if is_digit c then digit_val c else of_char c - 55)"

fun form_decode :: "string \<Rightarrow> string" where
  "form_decode [] = []"
| "form_decode (c # cs) =
     (case cs of
        a # b # rest \<Rightarrow> if c = CHR 0x25 then char_of (16 * hex_value a + hex_value b) # form_decode rest else c # form_decode cs
      | _ \<Rightarrow> c # form_decode cs)"

lemma hex_value_upper: "n < 16 \<Longrightarrow> hex_value (upper_hex n) = n"
proof -
  have "list_all (\<lambda>n. hex_value (upper_hex n) = n) [0, 1, 2, 3, 4, 5, 6, 7, 8, 9, 10, 11, 12, 13, 14, 15]"
    by (simp add: upper_hex_def hex_value_def is_digit_def digit_val_def)
  moreover assume "n < 16"
  then have "n \<in> set [0, 1, 2, 3, 4, 5, 6, 7, 8, 9, 10, 11, 12, 13, 14, 15]" by (simp; presburger)
  ultimately show ?thesis by (simp only: list_all_iff)
qed

lemma set_upper_hex: "n < 16 \<Longrightarrow> upper_hex n \<in> set ''0123456789ABCDEF''"
  unfolding upper_hex_def by (rule nth_mem) simp

lemma char_halves: "(of_char c :: nat) div 16 < 16" "(of_char c :: nat) mod 16 < 16"
proof -
  have "(of_char c :: nat) < 256" by simp
  then show "(of_char c :: nat) div 16 < 16" by linarith
qed simp

lemma form_decode_plain: "c \<noteq> CHR 0x25 \<Longrightarrow> form_decode (c # s) = c # form_decode s"
  by (auto split: list.splits)

lemma percent_escaped: "form_escaped (CHR 0x25)"
  by (simp add: form_escaped_def FORM_SAFE_def)

lemma form_decode_encode: "form_decode (form_encode s) = s"
proof (induction s)
  case (Cons c s)
  show ?case
  proof (cases "form_escaped c")
    case True
    have "16 * (of_char c div 16) + of_char c mod 16 = (of_char c :: nat)" by simp
    then show ?thesis using True Cons char_halves [of c] by (simp add: form_encode_def hex_value_upper)
  next
    case False
    then have "c \<noteq> CHR 0x25" using percent_escaped by auto
    then show ?thesis using False Cons by (simp add: form_encode_def form_decode_plain del: form_decode.simps)
  qed
qed (simp add: form_encode_def)

lemma set_form_encode: "c \<in> set (form_encode s) \<Longrightarrow> c = CHR 0x25 \<or> c \<in> set ''0123456789ABCDEF'' \<or> \<not> form_escaped c"
proof -
  assume "c \<in> set (form_encode s)"
  then obtain d where "c \<in> set (if form_escaped d then [CHR 0x25, upper_hex (of_char d div 16), upper_hex (of_char d mod 16)] else [d])"
    unfolding form_encode_def set_concat set_map by blast
  then have "c = CHR 0x25 \<or> c = upper_hex (of_char d div 16) \<or> c = upper_hex (of_char d mod 16) \<or> \<not> form_escaped c"
    by (auto split: if_splits)
  then show ?thesis using set_upper_hex [OF char_halves(1)] set_upper_hex [OF char_halves(2)] by metis
qed

lemma form_encode_separators: "CHR ''&'' \<notin> set (form_encode s)" "CHR ''='' \<notin> set (form_encode s)"
proof -
  have "form_escaped (CHR ''&'')" "form_escaped (CHR ''='')" by (simp_all add: form_escaped_def FORM_SAFE_def)
  then show "CHR ''&'' \<notin> set (form_encode s)" "CHR ''='' \<notin> set (form_encode s)"
    using set_form_encode [of "CHR ''&''" s] set_form_encode [of "CHR ''=''" s] by auto
qed

text \<open>Whatever the role and the external id are, the body sent to the token service has
  exactly the parameters of the call, and the two values read back as they were: a value
  cannot add or change a parameter.\<close>

theorem sts_body_exact:
  "\<exists>role ext. split_on (CHR ''&'') (sts_body role_arn external_id) =
      [''Action=AssumeRole'', ''Version=2011-06-15'', ''RoleArn='' @ role, ''RoleSessionName=livekit-egress'']
      @ (if external_id = [] then [] else [''ExternalId='' @ ext])
    \<and> form_decode role = role_arn \<and> form_decode ext = external_id
    \<and> CHR ''='' \<notin> set role \<and> CHR ''='' \<notin> set ext"
proof -
  have p: "split_on (CHR ''&'') (a @ CHR ''&'' # b) = a # split_on (CHR ''&'') b" if "CHR ''&'' \<notin> set a" for a b
    using that by (simp add: split_on_append)
  let ?r = "form_encode role_arn" and ?e = "form_encode external_id"
  let ?tail = "if external_id \<noteq> [] then ''&ExternalId='' @ ?e else []"
  have t: "split_on (CHR ''&'') (''RoleSessionName=livekit-egress'' @ ?tail) =
      ''RoleSessionName=livekit-egress'' # (if external_id = [] then [] else [''ExternalId='' @ ?e])"
    using p [of "''RoleSessionName=livekit-egress''" "''ExternalId='' @ ?e"] form_encode_separators by simp
  have n: "CHR ''&'' \<notin> set ''Action=AssumeRole''" "CHR ''&'' \<notin> set ''Version=2011-06-15''" "CHR ''&'' \<notin> set (''RoleArn='' @ ?r)"
    using form_encode_separators by simp_all
  have "sts_body role_arn external_id =
      ''Action=AssumeRole'' @ CHR ''&'' # (''Version=2011-06-15'' @ CHR ''&'' # ((''RoleArn='' @ ?r) @ CHR ''&'' # (''RoleSessionName=livekit-egress'' @ ?tail)))"
    by (simp add: sts_body_def)
  then have "split_on (CHR ''&'') (sts_body role_arn external_id) =
      ''Action=AssumeRole'' # ''Version=2011-06-15'' # (''RoleArn='' @ ?r) # ''RoleSessionName=livekit-egress''
      # (if external_id = [] then [] else [''ExternalId='' @ ?e])"
    unfolding p [OF n(1), symmetric] p [OF n(2), symmetric] p [OF n(3), symmetric] t [symmetric] by (rule arg_cong)
  then have "split_on (CHR ''&'') (sts_body role_arn external_id) =
      [''Action=AssumeRole'', ''Version=2011-06-15'', ''RoleArn='' @ ?r, ''RoleSessionName=livekit-egress'']
      @ (if external_id = [] then [] else [''ExternalId='' @ ?e])" by (simp only: append_Cons append_Nil)
  then show ?thesis using form_encode_separators form_decode_encode by blast
qed

section \<open>Storage of the request and storage of the configuration\<close>

text \<open>Whether a request names the storage of its recording itself.\<close>

fun names_storage :: "egress_request \<Rightarrow> bool" where
  "names_storage (RqRoomComposite r) = (Option.bind (chosen_file (rc_output r) (rc_outputs r)) eo_output \<noteq> None)"
| "names_storage (RqTrack r) = (case tk_output r of Some (TrackFile f) \<Rightarrow> do_output f \<noteq> None | _ \<Rightarrow> False)"
| "names_storage (RqParticipant r) = (Option.bind (first_of (ol_file_outputs (pr_outputs r))) eo_output \<noteq> None)"
| "names_storage (RqTrackComposite r) = (Option.bind (chosen_file (tc_output r) (tc_outputs r)) eo_output \<noteq> None)"
| "names_storage (RqEgress r) =
     (case Option.bind (first_of (sr_outputs r)) o2_storage of Some (Some _) \<Rightarrow> True | _ \<Rightarrow> False)"
| "names_storage _ = False"

lemma upload_destination_separate:
  "u \<noteq> None \<Longrightarrow> upload_destination u (conf\<lparr> ec_s3 := a, ec_gcp := b, ec_azure := c, ec_alioss := d \<rparr>) = upload_destination u conf"
  by (cases "(u, conf)" rule: upload_destination.cases) (simp_all add: s3_destination_def Let_def)

lemma mk_spec_InrD: "mk_spec room br r = Inr sp \<Longrightarrow> \<exists>f p. r = Inr (f, rp_destination sp, p)"
  by (cases r) (auto simp: mk_spec_def)

lemma file_spec_default:
  "Option.bind file eo_output = None \<Longrightarrow> file_spec file conf = Inr (f, d, p) \<Longrightarrow> conf_default conf = Inr d"
  by (cases "conf_default conf") (auto simp: file_spec_def encoded_spec_def default_spec_def split: option.splits)

lemma file_spec_separate:
  "Option.bind file eo_output \<noteq> None \<Longrightarrow>
   file_spec file (conf\<lparr> ec_s3 := a, ec_gcp := b, ec_azure := c, ec_alioss := d \<rparr>) = file_spec file conf"
  by (cases "file") (simp_all add: file_spec_def encoded_spec_def upload_destination_separate)



text \<open>The storage given for a whole request of the second version is not read: only that of
  its first output is.\<close>

lemma request_level_storage_ignored:
  "rec_spec_of (Some (RqEgress (r\<lparr> sr_storage := st \<rparr>))) conf = rec_spec_of (Some (RqEgress r)) conf"
  by simp

section \<open>The stored object\<close>

lemma ends_with_append [simp]: "ends_with suf (s @ suf)"
  by (simp add: ends_with_def)

lemma ends_with_iff: "ends_with suf s \<longleftrightarrow> (\<exists>t. s = t @ suf)"
  by (auto simp: ends_with_def strip_suffix_iff)

text \<open>A recording is stored under a key with the extension of its format, hence with its type.\<close>

lemma storage_key_extension: "ends_with (''.'' @ ext) (storage_key filepath egress_id ext)"
  unfolding storage_key_def by (auto simp: ends_with_iff)

lemma storage_key_content_type:
  "content_type_for (storage_key filepath egress_id ''wav'') = Some ''audio/wav''"
  "content_type_for (storage_key filepath egress_id ''mp3'') = Some ''audio/mpeg''"
proof -
  obtain t where t: "storage_key filepath egress_id ''wav'' = t @ ''.wav''"
    using storage_key_extension [of "''wav''" filepath egress_id] by (auto simp: ends_with_iff)
  have "\<not> ends_with ''.mp3'' (t @ ''.wav'')"
  proof
    assume "ends_with ''.mp3'' (t @ ''.wav'')"
    then obtain u where "t @ ''.wav'' = u @ ''.mp3''" by (auto simp: ends_with_iff)
    from arg_cong [OF this, of last] show False by simp
  qed
  moreover have "ends_with ''.wav'' (t @ ''.wav'')" by simp
  ultimately show "content_type_for (storage_key filepath egress_id ''wav'') = Some ''audio/wav''"
    unfolding t content_type_for_def by simp
  show "content_type_for (storage_key filepath egress_id ''mp3'') = Some ''audio/mpeg''"
    using storage_key_extension [of "''mp3''" filepath egress_id] by (simp add: content_type_for_def)
qed

section \<open>The answer of the token service\<close>

definition xml_leaf :: "string \<times> string \<Rightarrow> xml_event list" where
  "xml_leaf l = [XStart (fst l), XText (Inr (snd l)), XEnd (fst l)]"

definition leaf_value :: "(string \<times> string) list \<Rightarrow> string \<Rightarrow> string" where
  "leaf_value ls nm = (case look ls nm of Some t \<Rightarrow> t | None \<Rightarrow> [])"

text \<open>The credentials are found wherever the three elements stand in the document.\<close>

lemma scan_leaf:
  assumes "\<not> xs_in_access s" "\<not> xs_in_secret s" "\<not> xs_in_token s"
  shows "scan_events (xml_leaf (nm, t) @ es) s = scan_events es
    (if nm = ''AccessKeyId'' then s\<lparr> xs_access := t \<rparr> else if nm = ''SecretAccessKey'' then s\<lparr> xs_secret := t \<rparr>
     else if nm = ''SessionToken'' then s\<lparr> xs_token := t \<rparr> else s)"
  using assms by (cases s) (simp add: xml_leaf_def scan_flag_def scan_text_def)

lemma scan_new_fields: "xs_access scan_new = []" "xs_secret scan_new = []" "xs_token scan_new = []"
    "\<not> xs_in_access scan_new" "\<not> xs_in_secret scan_new" "\<not> xs_in_token scan_new"
  by (simp_all add: scan_new_def)

lemma scan_leaves:
  assumes "distinct (map fst ls)" "\<not> xs_in_access s" "\<not> xs_in_secret s" "\<not> xs_in_token s"
  shows "\<exists>s'. scan_events (concat (map xml_leaf ls) @ [XEof]) s = Inr s'
    \<and> xs_access s' = (case look ls ''AccessKeyId'' of Some t \<Rightarrow> t | None \<Rightarrow> xs_access s)
    \<and> xs_secret s' = (case look ls ''SecretAccessKey'' of Some t \<Rightarrow> t | None \<Rightarrow> xs_secret s)
    \<and> xs_token s' = (case look ls ''SessionToken'' of Some t \<Rightarrow> t | None \<Rightarrow> xs_token s)"
  using assms
proof (induction ls arbitrary: s)
  case (Cons l ls)
  obtain nm t where l: "l = (nm, t)" by (cases l)
  have fresh: "look ls nm = None" using Cons.prems(1) l by (auto simp: look_eq_None)
  define s1 where "s1 = (if nm = ''AccessKeyId'' then s\<lparr> xs_access := t \<rparr> else if nm = ''SecretAccessKey'' then s\<lparr> xs_secret := t \<rparr>
     else if nm = ''SessionToken'' then s\<lparr> xs_token := t \<rparr> else s)"
  have n: "\<not> xs_in_access s1" "\<not> xs_in_secret s1" "\<not> xs_in_token s1" using Cons.prems by (simp_all add: s1_def)
  have e: "scan_events (concat (map xml_leaf (l # ls)) @ [XEof]) s = scan_events (concat (map xml_leaf ls) @ [XEof]) s1"
    unfolding l s1_def using scan_leaf [OF Cons.prems(2-4), of nm t "concat (map xml_leaf ls) @ [XEof]"] by simp
  have k: "look (l # ls) x = (if x = nm then Some t else look ls x)" for x by (simp add: l look_def)
  have f: "xs_access s1 = (if nm = ''AccessKeyId'' then t else xs_access s)"
      "xs_secret s1 = (if nm = ''SecretAccessKey'' then t else xs_secret s)"
      "xs_token s1 = (if nm = ''SessionToken'' then t else xs_token s)" by (simp_all add: s1_def)
  obtain s' where "scan_events (concat (map xml_leaf ls) @ [XEof]) s1 = Inr s'"
    "xs_access s' = (case look ls ''AccessKeyId'' of Some t \<Rightarrow> t | None \<Rightarrow> xs_access s1)"
    "xs_secret s' = (case look ls ''SecretAccessKey'' of Some t \<Rightarrow> t | None \<Rightarrow> xs_secret s1)"
    "xs_token s' = (case look ls ''SessionToken'' of Some t \<Rightarrow> t | None \<Rightarrow> xs_token s1)"
    using Cons.IH [OF _ n] Cons.prems(1) by auto
  moreover have "(case look (l # ls) ''AccessKeyId'' of Some t \<Rightarrow> t | None \<Rightarrow> xs_access s) = (case look ls ''AccessKeyId'' of Some t \<Rightarrow> t | None \<Rightarrow> xs_access s1)"
    unfolding k f using fresh by (cases "nm = ''AccessKeyId''") simp_all
  moreover have "(case look (l # ls) ''SecretAccessKey'' of Some t \<Rightarrow> t | None \<Rightarrow> xs_secret s) = (case look ls ''SecretAccessKey'' of Some t \<Rightarrow> t | None \<Rightarrow> xs_secret s1)"
    unfolding k f using fresh by (cases "nm = ''SecretAccessKey''") simp_all
  moreover have "(case look (l # ls) ''SessionToken'' of Some t \<Rightarrow> t | None \<Rightarrow> xs_token s) = (case look ls ''SessionToken'' of Some t \<Rightarrow> t | None \<Rightarrow> xs_token s1)"
    unfolding k f using fresh by (cases "nm = ''SessionToken''") simp_all
  ultimately show ?case unfolding e by (intro exI [of _ s']) (simp only: conj_ac)
qed simp

lemma parse_credentials_finds:
  assumes "distinct (map fst ls)"
  shows "parse_credentials (concat (map xml_leaf ls) @ [XEof]) = Inr c \<longleftrightarrow>
    leaf_value ls ''AccessKeyId'' \<noteq> [] \<and> leaf_value ls ''SecretAccessKey'' \<noteq> [] \<and> leaf_value ls ''SessionToken'' \<noteq> []
    \<and> c = \<lparr> tc_access_key_id = leaf_value ls ''AccessKeyId'', tc_secret_access_key = leaf_value ls ''SecretAccessKey'',
            tc_session_token = leaf_value ls ''SessionToken'' \<rparr>"
proof -
  obtain s' where s': "scan_events (concat (map xml_leaf ls) @ [XEof]) scan_new = Inr s'"
    "xs_access s' = leaf_value ls ''AccessKeyId''" "xs_secret s' = leaf_value ls ''SecretAccessKey''"
    "xs_token s' = leaf_value ls ''SessionToken''"
    using scan_leaves [OF assms scan_new_fields(4-6), unfolded scan_new_fields] unfolding leaf_value_def by auto
  show ?thesis unfolding parse_credentials_def s'(1) by (auto simp: s')
qed

end
