(* ===== verification/Spec2Isabelle.thy ===== *)
theory Spec2Isabelle
  imports Turn Wkt_Serde System Sip_Dispatch Psrpc Redact Recorder Egress_Upload
begin

text \<open>
  A verification library for a voice server with telephony and recording, written in Rust.
  The program has four crates.  \<open>lk-server\<close> admits clients over a websocket, keeps rooms and
  participants, forwards their audio and serves the administrative calls.  \<open>lk-psrpc\<close>
  carries calls between processes over a message bus.  \<open>lk-egress\<close> is the recorder: it joins
  a room, mixes its audio into a file and uploads it.  \<open>lk-proto\<close> holds the messages.  The
  theories follow the source file by file; a definition has the name of the function or
  type it translates.

  \<^bold>\<open>Conventions.\<close>  A string is the list of its UTF-8 bytes.  A hash map is an association list
  with distinct keys.  An operation that can fail returns a sum, with the error on the left;
  a panic is a value of its own.  Words wrap at the width of the source where wrapping can
  happen.  The clock, random draws and the answers of libraries (JWT, HMAC, SHA-256, webrtc,
  Redis, Opus, MP3, object stores, message encodings) are arguments.  What a property needs of
  such an argument is a hypothesis in its statement, discharged by a concrete instance in
  its witness.  Shared objects behind a reference count are held once, under their id.

  \<^bold>\<open>Shared vocabulary.\<close>
  \<^item> \<open>LK_Prelude\<close>: association lists, results, and the locale \<open>keyed_store\<close>, the contract of a
    container with keys (what a lookup gives after an insertion or a deletion).  It is
    interpreted for association lists and for the hashes of the cluster bus.
  \<^item> \<open>LK_Strings\<close>, \<open>Ip_Addr\<close>: the operations of the standard library on strings and addresses.

  \<^bold>\<open>The server\<close> (\<open>crates/lk-server/src\<close>).
  \<^item> \<open>Core_Types\<close> (\<open>core.rs\<close>, \<open>track.rs\<close>): ids, versions as a linear order, kinds, tracks.
  \<^item> \<open>Base62\<close>, \<open>Turn\<close> (\<open>turn.rs\<close>): decoding inverts encoding for every byte string, and the
    advertised credentials are accepted.
  \<^item> \<open>Auth\<close> (\<open>auth.rs\<close>): an accepted token was signed with the secret of its issuer.
  \<^item> \<open>Audio_Level\<close> (\<open>audio_level.rs\<close>), \<open>Rtp_Stats\<close>, \<open>Media\<close>, \<open>Negotiation\<close>, \<open>Subscription\<close>
    (\<open>media.rs\<close>): who is speaking, the counters of a track, who receives a track, that every
    requested change is offered in the end, and who receives a data packet.
  \<^item> \<open>Wire\<close>, \<open>Participant\<close>, \<open>Room\<close>, \<open>Server\<close> (\<open>participant.rs\<close>, \<open>room.rs\<close>, \<open>server.rs\<close>): the state
    machine of a participant under concurrent compare-and-exchange loops, the invariant of
    a room, when an abandoned room closes, and what closing reports.
  \<^item> \<open>Signal\<close>, \<open>Session\<close>, \<open>Twirp\<close>, \<open>Room_Service\<close> (\<open>signal.rs\<close>, \<open>http.rs\<close>, \<open>services.rs\<close>): joining,
    resuming and leaving, every request of a session, the endpoints and the administrative
    services; a request changes something only with the grant for it, and an error has
    changed nothing.
  \<^item> \<open>Agents\<close>, \<open>Webhook\<close>, \<open>Cluster\<close> (\<open>agent.rs\<close>, \<open>webhook.rs\<close>, \<open>cluster.rs\<close>): the assignment of jobs,
    the delivery of events, and the agreement of concurrent nodes on the owner of a room.
  \<^item> \<open>Roster\<close>, \<open>System\<close>: the server as one transition system (\<open>server_step\<close>) over the handlers,
    spawned tasks and background jobs, in any order; the abstract roster of who is in which
    room; and that each step keeps \<open>server_ok\<close> and is a step of the roster.
  \<^item> \<open>Sip_Types\<close>, \<open>Store\<close> (\<open>redis_store.rs\<close>): trunks and rules, kept in named hashes.  The
    locale \<open>hash_backend\<close> is what the store needs of a backend; it is interpreted for the
    memory backend of the program.
  \<^item> \<open>Sip_Dispatch\<close> (\<open>ioservice.rs\<close>): the trunk and the rule of a call against their
    specifications, and what an accepted call and a hidden number guarantee.

  \<^bold>\<open>Calls between processes\<close> (\<open>crates/lk-psrpc/src/lib.rs\<close>).
  \<^item> \<open>Psrpc\<close>: clients, servers and the bus as a step relation; a request is handled at most
    once and answered by its own handler, in every interleaving; channels do not collide.

  \<^bold>\<open>The recorder\<close> (\<open>crates/lk-egress/src\<close>).
  \<^item> \<open>Egress_Types\<close>, \<open>Redact\<close> (\<open>redact.rs\<close>): what is published of a request, and that the reached
    uploads carry no credential.
  \<^item> \<open>Recorder\<close> (\<open>recorder.rs\<close>, \<open>audio.rs\<close>, \<open>wav.rs\<close>): the mixer, the recording loop and the file; a
    single track is kept sample for sample.
  \<^item> \<open>Egress_Upload\<close> (\<open>config.rs\<close>, \<open>upload.rs\<close>, \<open>sts.rs\<close>, the destinations of \<open>server.rs\<close>): where a
    recording goes; storage named by a request and configured storage do not mix.

  \<^bold>\<open>Messages\<close> (\<open>crates/lk-proto/src\<close>).
  \<^item> \<open>Wkt_Serde\<close> (\<open>wkt_serde.rs\<close>): timestamps and durations read back what is printed.

  This theory holds the properties that span the components of the server.

  \<^bold>\<open>Bounds.\<close>  All loops of the model end by themselves: recursion is structural or has a
  proof of termination, so there is no fuel.  The eight attempts of \<open>route_room\<close> and the five
  posts of \<open>deliver\<close> are bounds of the source.  Floating point values are exact numbers where
  the code only compares or averages them (levels, quality); event ids and the times in a
  webhook body are left out.

  \<^bold>\<open>Not modelled.\<close>  The Redis buses and the Redis store backend are clients of a library and
  are represented by the laws of the locales.  The webrtc library appears as what the program
  hands to it and what it answers.  The service loop of the recorder (\<open>lk-egress/src/server.rs\<close>
  from the handlers on, \<open>client.rs\<close>, \<open>io.rs\<close>), the reports of recordings at the server
  (\<open>EgressIoHandlers\<close> in \<open>ioservice.rs\<close> and their webhooks), and the SIP and egress services
  (\<open>services_sip.rs\<close>, \<open>psrpc.rs\<close>) are left out: they pass requests between the modelled parts.
  So are the reading of configuration files, process start, the export of metrics, the
  MP3 bindings, generated code, command line tools, examples and tests.
\<close>

section \<open>The server in operation\<close>

definition sample_new :: server where
  "sample_new = server_new \<lparr> cf_empty_timeout = 300, cf_departure_timeout = 20, cf_max_participants = 0 \<rparr> []
     [''audio/opus''] [(''k'', ''s'')] (cx_agent sample_ctx) (cx_cluster sample_ctx)"

definition sample_joined :: server where
  "sample_joined = snd (run_session_join (\<lambda>i. [i, i]) 0 (sample_token ''ann'') sample_params sample_new)"

lemma sample_joined_reachable: "server_step\<^sup>*\<^sup>* sample_new sample_joined"
proof (rule r_into_rtranclp, unfold sample_joined_def, rule step_join)
qed (simp add: sample_new_def server_new_def get_room_def)



text \<open>C2: the server implements the roster.  Whatever it does, the set of (room, identity,
  session) entries changes as the specification allows: an entry appears only when a
  token with the join grant enters, in the token's room under the token's identity,
  and it replaces the entry of that identity; so no identity is in a room twice.\<close>

theorem server_refines_roster:
  assumes "server_step\<^sup>*\<^sup>* (server_new c region codecs keys am cl) sv"
  shows "roster_step\<^sup>*\<^sup>* {} (roster sv) \<and> roster_ok (roster sv)"
proof -
  have "roster_step\<^sup>*\<^sup>* {} (roster sv)" using server_steps_ok [OF assms server_ok_new] by (simp add: roster_new)
  moreover from roster_ok_reachable [OF this] have "roster_ok (roster sv)" by (simp add: roster_ok_def)
  ultimately show ?thesis by blast
qed

theorem server_refines_roster_witness: "roster_ok (roster sample_joined)"
  using server_refines_roster [OF sample_joined_reachable [unfolded sample_new_def]] by blast

lemma join_first:
  assumes "get_room (vg_room (vt_video token)) sv = None" "join_denied token params = None" "cf_max_participants (sv_config sv) = 0"
  shows "(vg_room (vt_video token), vt_identity token, new_participant_sid (draws 1)) \<in> roster (snd (join_room draws now token params knd sv))"
proof -
  let ?nm = "vg_room (vt_video token)" and ?p = "joining_participant (draws 1) now token params knd"
  obtain r sv1 where g: "get_or_create_room (draws 0) now ?nm sv = (r, sv1)" by fastforce
  have r: "r_participants r = []" "\<not> r_closed r" "r_max_participants r = 0" "get_room ?nm sv1 = Some r" "r_name r = ?nm"
    using g assms(1,3) by (auto simp: get_or_create_room_def room_new_def get_room_def Let_def)
  have d: "end_duplicate now (vt_identity token) (r, sv_ctx sv1) = (r, sv_ctx sv1)"
    by (simp add: end_duplicate_def get_participant_by_identity_def participants_def r(1))
  obtain res r3 cx3 where a: "admit now ?p token (r, sv_ctx sv1) = (res, r3, cx3)" by (metis prod_cases3)
  have inv: "room_inv r" using g assms(1)
    by (auto simp: get_or_create_room_def room_inv_def members_inv_def keys_distinct_def has_non_dependent_def participants_def
        room_new_def Let_def)
  have "get_participant (p_sid ?p) r = None" "\<forall>k q. get_participant k r = Some q \<longrightarrow> p_identity q \<noteq> p_identity ?p"
    by (simp_all add: get_participant_def r(1))
  note as = admit_spec [OF inv this a]
  have "\<not> is_full r" by (simp add: is_full_def r(3))
  then obtain x where "res = Inr x" using as r(2) by (cases res) simp_all
  then have nm: "r_name r3 = ?nm" and m: "(vt_identity token, new_participant_sid (draws 1)) \<in> members r3"
    using as r(5) by (auto simp: members_def member_key_def split: prod.splits)
  have "snd (join_room draws now token params knd sv) = set_room r3 cx3 sv1" using assms(2) g d a by (simp add: join_room_def)
  then show ?thesis using m nm r(4) by (auto simp: roster_def get_set_room)
qed

lemma roster_run_session:
  assumes "\<not> ss_reconnect params"
  shows "roster (snd (run_session_join draws now token params sv)) =
     roster (snd (join_room draws now token params (participant_kind_from_token token) sv))"
proof -
  obtain jr sv2 where j: "join_room draws now token params (participant_kind_from_token token) sv = (jr, sv2)" by fastforce
  have "roster (sv2\<lparr> sv_ctx := cx \<rparr>) = roster sv2" for cx by (simp add: roster_def get_room_def)
  then show ?thesis using assms j by (simp add: run_session_join_def split: sum.split)
qed

text \<open>C3: a connection lets somebody into a room only with a verified token.  When a
  connection that the signalling endpoint accepted has joined, an entry of the roster
  that was not there before is the token's identity in the token's room, the token has
  the join grant, and all of it comes from claims that the token library verified under
  the secret configured for the key that issued the token.\<close>

theorem entry_needs_verified_token:
  assumes "server_step\<^sup>*\<^sup>* (server_new c region codecs keys am cl) sv"
    and "rtc_ws_impl (verify payload jwt_decode keys) jc header query form v1 sv0 = Inr (token, session)"
    and "\<forall>r. get_room (vg_room (vt_video token)) sv = Some r \<longrightarrow> get_participant (new_participant_sid (draws 1)) r = None"
    and "run_session_join draws now token session sv = (res, sv')" "(nm, i, k) \<in> roster sv'" "(nm, i, k) \<notin> roster sv"
  shows "nm = vg_room (vt_video token) \<and> i = vt_identity token \<and> k = new_participant_sid (draws 1) \<and> vg_room_join (vt_video token)
    \<and> (\<exists>raw secret claims. request_token header (merge_params query form) = Inr raw \<and> look keys (vt_api_key token) = Some secret
         \<and> jwt_decode raw secret (vt_api_key token) = Inr claims \<and> token = parse_claims (vt_api_key token) claims)"
proof -
  have ok: "server_ok sv" using server_steps_ok [OF assms(1) server_ok_new] by simp
  have "join_outcome token (new_participant_sid (draws 1)) sv sv'"
    using run_session_join_ok [of sv token draws, OF ok assms(3), of now session] assms(4) by simp
  then have "may_join token" "(nm, i, k) = (vg_room (vt_video token), vt_identity token, new_participant_sid (draws 1))"
    using assms(5,6) by (auto simp: join_outcome_def enter_def)
  moreover obtain raw where raw: "request_token header (merge_params query form) = Inr raw"
    "verify payload jwt_decode keys raw = Inr token"
    using authenticate_Inr [OF rtc_ws_impl_Inr(1) [OF assms(2)]] by blast
  from raw(2) obtain secret claims where "look keys (vt_api_key token) = Some secret"
    "jwt_decode raw secret (vt_api_key token) = Inr claims" "token = parse_claims (vt_api_key token) claims"
    by (rule verify_InrE)
  ultimately show ?thesis using raw(1) by (auto simp: may_join_def)
qed

definition sample_claims :: json where
  "sample_claims = JObj [(''iss'', JStr ''k''), (''sub'', JStr ''ann''),
     (''video'', JObj [(''roomJoin'', JBool True), (''room'', JStr ''r'')])]"

definition sample_jwt :: "string \<Rightarrow> string \<Rightarrow> string \<Rightarrow> (string, json) result" where
  "sample_jwt tok secret iss = (if tok = ''h.p.s'' \<and> secret = ''s'' \<and> iss = ''k'' then Inr sample_claims else Inl ''bad'')"

definition sample_codec :: join_codec where
  "sample_codec = \<lparr> jc_base64 = \<lambda>_. None, jc_wrapper = \<lambda>_. None, jc_gunzip = \<lambda>_ _. None, jc_request = \<lambda>_. None \<rparr>"

lemma sample_claims_token:
  "vg_room_join (vt_video (parse_claims ''k'' sample_claims))" "vg_room (vt_video (parse_claims ''k'' sample_claims)) = ''r''"
  "vt_identity (parse_claims ''k'' sample_claims) = ''ann''" "vt_api_key (parse_claims ''k'' sample_claims) = ''k''"
  "vg_can_subscribe (vt_video (parse_claims ''k'' sample_claims)) = None"
  by (simp_all add: sample_claims_def parse_claims_def parse_video_def jget_def look_def or_else_def as_object_def as_str_def as_bool_def)

theorem entry_needs_verified_token_witness:
  "\<exists>session sv' raw claims.
     rtc_ws_impl (verify (\<lambda>_. Inr sample_claims) sample_jwt [(''k'', ''s'')]) sample_codec (Some ''Bearer h.p.s'') [] [] False sample_new
       = Inr (parse_claims ''k'' sample_claims, session)
     \<and> snd (run_session_join (\<lambda>i. [i, i]) 0 (parse_claims ''k'' sample_claims) session sample_new) = sv'
     \<and> (''r'', ''ann'', new_participant_sid [1, 1]) \<in> roster sv'
     \<and> sample_jwt raw ''s'' ''k'' = Inr claims"
proof -
  let ?t = "parse_claims ''k'' sample_claims" and ?keys = "[(''k'', ''s'')]"
  let ?check = "verify (\<lambda>_. Inr sample_claims) sample_jwt ?keys"
  let ?session = "\<lparr> ss_reconnect = False, ss_participant_sid = [], ss_auto_subscribe = True, ss_publish = True, ss_metadata = [],
    ss_attributes = [], ss_add_tracks = [], ss_publisher_offer = None, ss_sync_state = None \<rparr>"
  have m: "merge_params [] [] = []" by (simp add: merge_params_def)
  have raw: "request_token (Some ''Bearer h.p.s'') [] = Inr ''h.p.s''"
    by (simp add: request_token_def trim_def is_space_def bearer_token_def or_else_def Let_def)
  have v: "?check ''h.p.s'' = Inr ?t"
    by (simp add: verify_def decode_payload_unverified_def sample_jwt_def sample_claims_def jget_def as_str_def look_def)
  have new: "get_room ''r'' sample_new = None" by (simp add: sample_new_def server_new_def get_room_def)
  have w: "rtc_ws_impl ?check sample_codec (Some ''Bearer h.p.s'') [] [] False sample_new = Inr (?t, ?session)"
    by (simp add: rtc_ws_impl_def m authenticate_def raw v sample_claims_token new build_session_params_def flag_param_def
        unwrap_or_def look_def)
  have jd: "join_denied ?t ?session = None" by (simp add: join_denied_def sample_claims_token)
  obtain res sv' where j: "run_session_join (\<lambda>i. [i, i]) 0 ?t ?session sample_new = (res, sv')" by fastforce
  have "roster sv' = roster (snd (join_room (\<lambda>i. [i, i]) 0 ?t ?session (participant_kind_from_token ?t) sample_new))"
    using roster_run_session [of ?session "\<lambda>i. [i, i]" 0 ?t sample_new] j by simp
  then have inr: "(''r'', ''ann'', new_participant_sid [1, 1]) \<in> roster sv'"
    using join_first [OF _ jd, of sample_new "\<lambda>i. [i, i]" 0 "participant_kind_from_token ?t"] new
    by (simp add: sample_claims_token sample_new_def server_new_def)
  have nin: "(''r'', ''ann'', new_participant_sid [1, 1]) \<notin> roster sample_new" by (simp add: sample_new_def roster_new)
  have reach: "server_step\<^sup>*\<^sup>* (server_new \<lparr> cf_empty_timeout = 300, cf_departure_timeout = 20, cf_max_participants = 0 \<rparr> [] [''audio/opus''] ?keys
      (cx_agent sample_ctx) (cx_cluster sample_ctx)) sample_new" by (simp add: sample_new_def)
  have "\<exists>raw secret claims. request_token (Some ''Bearer h.p.s'') (merge_params [] []) = Inr raw
      \<and> look ?keys (vt_api_key ?t) = Some secret \<and> sample_jwt raw secret (vt_api_key ?t) = Inr claims"
    using entry_needs_verified_token [OF reach w _ j inr nin] new
    by (auto simp: sample_claims_token)
  then show ?thesis using w j inr by (auto simp: sample_claims_token look_def)
qed

end
